theory Spec2Isabelle
  imports Complex_Main
begin

section \<open>Text\<close>

subsection \<open>White space, search and patterns\<close>

text \<open>
  A text is a list of characters with codes below 256.  White space is what \<^verbatim>\<open>\s\<close> and
  \<^verbatim>\<open>trim()\<close> treat as such among them: tab, line feed, vertical tab, form feed,
  carriage return, space and the no-break space \<^verbatim>\<open>U+00A0\<close>.
\<close>

definition isSpace :: "char \<Rightarrow> bool" where
  "isSpace c \<longleftrightarrow>
     c \<in> {CHR 0x09, CHR 0x0A, CHR 0x0B, CHR 0x0C, CHR 0x0D, CHR '' '', CHR 0xA0}"

definition trim :: "string \<Rightarrow> string" where
  "trim s = rev (dropWhile isSpace (rev (dropWhile isSpace s)))"

definition startsWith :: "string \<Rightarrow> string \<Rightarrow> bool" where
  "startsWith p s \<longleftrightarrow> take (length p) s = p"

text \<open>
  The text before and the text after the first occurrence of \<open>sub\<close> in a text, and
  \<open>None\<close> when it does not occur.
\<close>

fun splitAtFirst :: "string \<Rightarrow> string \<Rightarrow> (string \<times> string) option" where
  "splitAtFirst sub [] = (if sub = [] then Some ([], []) else None)"
| "splitAtFirst sub (c # cs) =
     (if startsWith sub (c # cs) then Some ([], drop (length sub) (c # cs))
      else map_option (\<lambda>(before, after). (c # before, after)) (splitAtFirst sub cs))"

text \<open>\<^verbatim>\<open>s.includes(sub)\<close>\<close>

definition includesText :: "string \<Rightarrow> string \<Rightarrow> bool" where
  "includesText s sub \<longleftrightarrow> splitAtFirst sub s \<noteq> None"

text \<open>
  \<^verbatim>\<open>s.replace(/\n\s*/g, " ")\<close>: every line feed, together with the white space that
  follows it, becomes one space.
\<close>

function collapseNewlines :: "string \<Rightarrow> string" where
  "collapseNewlines [] = []"
| "collapseNewlines (c # cs) =
     (if c = CHR 0x0A then CHR '' '' # collapseNewlines (dropWhile isSpace cs)
      else c # collapseNewlines cs)"
  by pat_completeness auto
termination
  by (relation "measure length") (auto simp: length_dropWhile_le less_Suc_eq_le)

text \<open>
  The normalisation both adapters apply before \<^verbatim>\<open>JSON.parse\<close>:
  \<^verbatim>\<open>.replace(/[\u200B-\u200D\uFEFF]/g, "").replace(/\n\s*/g, " ").trim()\<close>.  The
  zero-width characters have codes above 255, so the first replacement changes nothing.
\<close>

definition cleanText :: "string \<Rightarrow> string" where
  "cleanText s = trim (collapseNewlines s)"

text \<open>
  \<^verbatim>\<open>text.match(/\{[\s\S]*?"answer"[\s\S]*?"explanation"[\s\S]*?\}/)\<close>: the match starts
  at the first brace and runs through the first \<^verbatim>\<open>"answer"\<close> after it, the first
  \<^verbatim>\<open>"explanation"\<close> after that and the first closing brace after that.
\<close>

definition matchJsonPattern :: "string \<Rightarrow> string option" where
  "matchJsonPattern s =
     (case splitAtFirst ''{'' s of
        None \<Rightarrow> None
      | Some (_, r1) \<Rightarrow>
          (case splitAtFirst ''\"answer\"'' r1 of
             None \<Rightarrow> None
           | Some (a, r2) \<Rightarrow>
               (case splitAtFirst ''\"explanation\"'' r2 of
                  None \<Rightarrow> None
                | Some (b, r3) \<Rightarrow>
                    (case splitAtFirst ''}'' r3 of
                       None \<Rightarrow> None
                     | Some (c, _) \<Rightarrow>
                         Some (''{'' @ a @ ''\"answer\"'' @ b @ ''\"explanation\"'' @ c @ ''}'')))))"

text \<open>\<^verbatim>\<open>text.match(/\{[\s\S]*?"answer"[\s\S]*?\}/)\<close>, used by the DeepSeek adapter.\<close>

definition matchAnswerPattern :: "string \<Rightarrow> string option" where
  "matchAnswerPattern s =
     (case splitAtFirst ''{'' s of
        None \<Rightarrow> None
      | Some (_, r1) \<Rightarrow>
          (case splitAtFirst ''\"answer\"'' r1 of
             None \<Rightarrow> None
           | Some (a, r2) \<Rightarrow>
               (case splitAtFirst ''}'' r2 of
                  None \<Rightarrow> None
                | Some (c, _) \<Rightarrow> Some (''{'' @ a @ ''\"answer\"'' @ c @ ''}''))))"

text \<open>\<^verbatim>\<open>xs.join(sep)\<close> on an array of strings.\<close>

fun joinWith :: "string \<Rightarrow> string list \<Rightarrow> string" where
  "joinWith sep [] = []"
| "joinWith sep [x] = x"
| "joinWith sep (x # y # ys) = x @ sep @ joinWith sep (y # ys)"

section \<open>Question flow controller (education content script)\<close>

subsection \<open>Randomised answer delay\<close>

text \<open>
  \<^verbatim>\<open>generateRandomDelay(minSeconds, maxSeconds)\<close>.  The configured bounds are
  integers (the settings page stores \<^verbatim>\<open>parseInt(...) || 0\<close>); the value of
  \<^verbatim>\<open>Math.random()\<close> is the extra argument \<open>rnd\<close>, a number in \<open>[0, 1)\<close>.
  The result is a delay in milliseconds.
\<close>

definition generateRandomDelay :: "int \<Rightarrow> int \<Rightarrow> real \<Rightarrow> int" where
  "generateRandomDelay minSeconds maxSeconds rnd =
     (if minSeconds = 0 \<and> maxSeconds = 0 then 0
      else
        let minSeconds' = (if minSeconds > maxSeconds then maxSeconds else minSeconds);
            minDelay = minSeconds' * 1000;
            maxDelay = maxSeconds * 1000
        in if minDelay = 0 \<and> maxDelay = 0 then 0
           else \<lfloor>rnd * real_of_int (maxDelay - minDelay + 1)\<rfloor> + minDelay)"

text \<open>
  What \<^verbatim>\<open>chrome.storage.sync.get(["minDelay", "maxDelay"], ...)\<close> gives
  \<^verbatim>\<open>applyRandomDelayIfEnabled\<close>: no storage API, a runtime error, or the two
  stored values (either may be undefined).
\<close>

datatype delay_storage =
    StorageUnavailable
  | StorageError
  | StorageData "int option" "int option"

text \<open>
  What \<^verbatim>\<open>applyRandomDelayIfEnabled\<close> does next: resolve without sending, call
  \<^verbatim>\<open>sendQuestionIfReady\<close> at once, or arm the timer with a delay in milliseconds.
\<close>

datatype delay_action =
    ResolveOnly
  | SendNow
  | StartTimer int

definition applyRandomDelayIfEnabled :: "delay_storage \<Rightarrow> real \<Rightarrow> delay_action" where
  "applyRandomDelayIfEnabled st rnd =
     (case st of
        StorageUnavailable \<Rightarrow> ResolveOnly
      | StorageError \<Rightarrow> ResolveOnly
      | StorageData mn mx \<Rightarrow>
          let minDelay = (case mn of Some v \<Rightarrow> v | None \<Rightarrow> 22);
              maxDelay = (case mx of Some v \<Rightarrow> v | None \<Rightarrow> 97)
          in if minDelay = 0 \<and> maxDelay = 0 then SendNow
             else
               let delay = generateRandomDelay minDelay maxDelay rnd
               in if delay = 0 then SendNow else StartTimer delay)"

subsection \<open>Matching option text against candidate answers\<close>

text \<open>\<^verbatim>\<open>s.replace(/\.$/, "")\<close>: drops one full stop at the very end of the text.\<close>

definition stripTrailingPeriod :: "string \<Rightarrow> string" where
  "stripTrailingPeriod s = (if s \<noteq> [] \<and> last s = CHR ''.'' then butlast s else s)"

text \<open>
  The arrow function handed to \<^verbatim>\<open>answers.some\<close> in \<^verbatim>\<open>processChatGPTResponse\<close>,
  with its three tests in the order of the source.
\<close>

definition matchesAnswer :: "string \<Rightarrow> string \<Rightarrow> bool" where
  "matchesAnswer choiceText ans =
     (if choiceText = ans then True
      else
        let choiceWithoutPeriod = stripTrailingPeriod choiceText;
            answerWithoutPeriod = stripTrailingPeriod ans
        in if choiceWithoutPeriod = answerWithoutPeriod then True
           else if choiceText = ans @ ''.'' then True
           else False)"

definition shouldBeSelected :: "string list \<Rightarrow> string \<Rightarrow> bool" where
  "shouldBeSelected answers choiceText = list_ex (matchesAnswer choiceText) answers"

subsection \<open>The reply payload\<close>

text \<open>
  The \<^verbatim>\<open>answer\<close> property of a parsed reply, for replies of the documented shape:
  one string, or an array of strings.
\<close>

datatype answer = Single string | Many "string list"

text \<open>\<^verbatim>\<open>Array.isArray(response.answer) ? response.answer : [response.answer]\<close>\<close>

definition answersOf :: "answer \<Rightarrow> string list" where
  "answersOf a = (case a of Many xs \<Rightarrow> xs | Single s \<Rightarrow> [s])"

subsection \<open>Choice inputs and what a click does to them\<close>

datatype input_kind = Radio | Checkbox

text \<open>
  One element of \<^verbatim>\<open>container.querySelectorAll('input[type="radio"], input[type="checkbox"]')\<close>.
  \<open>choiceText\<close> is what the callback computes for it:
  \<^verbatim>\<open>choice.closest("label")?.querySelector(".choiceText")?.textContent.trim()\<close>, and
  \<open>None\<close> when the label or the text element is missing.  \<open>groupName\<close> is the
  \<^verbatim>\<open>name\<close> attribute (empty when absent).
\<close>

record choice_input =
  inputKind :: input_kind
  groupName :: string
  choiceText :: "string option"
  isDisabled :: bool
  isChecked :: bool

text \<open>Two radio buttons are in one group when they carry the same non-empty name.\<close>

definition sameRadioGroup :: "choice_input \<Rightarrow> choice_input \<Rightarrow> bool" where
  "sameRadioGroup a b \<longleftrightarrow>
     inputKind a = Radio \<and> inputKind b = Radio \<and> groupName a \<noteq> [] \<and> groupName a = groupName b"

text \<open>
  \<^verbatim>\<open>choice.click()\<close> on the \<open>i\<close>-th input, as the browser performs it: nothing on a
  disabled control; a checkbox flips; a radio button becomes checked and the other
  buttons of its group become unchecked.
\<close>

definition click :: "nat \<Rightarrow> choice_input list \<Rightarrow> choice_input list" where
  "click i cs =
     (if i < length cs then
        let c = cs ! i in
        if isDisabled c then cs
        else case inputKind c of
          Checkbox \<Rightarrow> cs[i := c\<lparr>isChecked := \<not> isChecked c\<rparr>]
        | Radio \<Rightarrow>
            map (\<lambda>(j, d). if j = i then d\<lparr>isChecked := True\<rparr>
                          else if sameRadioGroup c d then d\<lparr>isChecked := False\<rparr>
                          else d)
                (enumerate 0 cs)
      else cs)"

text \<open>The callback of \<^verbatim>\<open>choices.forEach\<close>, for the input at index \<open>i\<close>.\<close>

definition selectChoice :: "string list \<Rightarrow> nat \<Rightarrow> choice_input list \<Rightarrow> choice_input list" where
  "selectChoice answers i cs =
     (case choiceText (cs ! i) of
        None \<Rightarrow> cs
      | Some t \<Rightarrow>
          if t = [] then cs
          else if shouldBeSelected answers t then click i cs
          else cs)"

definition selectChoices :: "string list \<Rightarrow> choice_input list \<Rightarrow> choice_input list" where
  "selectChoices answers cs = fold (selectChoice answers) [0..<length cs] cs"

text \<open>Whether the callback reaches \<^verbatim>\<open>choice.click()\<close> for an input.\<close>

definition reachesClick :: "string list \<Rightarrow> choice_input \<Rightarrow> bool" where
  "reachesClick answers c \<longleftrightarrow>
     (case choiceText c of None \<Rightarrow> False | Some t \<Rightarrow> t \<noteq> [] \<and> shouldBeSelected answers t)"

subsection \<open>Filling blanks\<close>

text \<open>
  \<^verbatim>\<open>inputs.forEach((input, index) => { if (answers[index]) { input.value = answers[index]; ... } })\<close>
  on the values of the \<^verbatim>\<open>input.fitb-input\<close> elements.  An index past the end of
  \<open>answers\<close> reads \<^verbatim>\<open>undefined\<close>, and the empty string is falsy too.
\<close>

definition answerAt :: "string list \<Rightarrow> nat \<Rightarrow> string option" where
  "answerAt answers index =
     (if index < length answers \<and> answers ! index \<noteq> [] then Some (answers ! index) else None)"

definition fillBlanks :: "string list \<Rightarrow> string list \<Rightarrow> string list" where
  "fillBlanks answers inputs =
     map (\<lambda>(index, v). case answerAt answers index of Some a \<Rightarrow> a | None \<Rightarrow> v) (enumerate 0 inputs)"

definition filledIndices :: "string list \<Rightarrow> string list \<Rightarrow> nat list" where
  "filledIndices answers inputs =
     filter (\<lambda>index. answerAt answers index \<noteq> None) [0..<length inputs]"

subsection \<open>Applying a reply to the page\<close>

record countdown =
  cdDisplay :: string
  cdText :: string

text \<open>The module-level variables of the education content script that the flow reads or writes.\<close>

record edu_state =
  isAutomating :: bool
  lastIncorrectQuestion :: "string option"
  lastCorrectAnswer :: "answer option"
  countdownElement :: "countdown option"

text \<open>
  What the script reads from the page.  \<open>topicOverview\<close>: the continue button of a topic
  overview is there (\<^verbatim>\<open>handleTopicOverview\<close> clicks it and returns true);
  \<open>forcedLearning\<close>: the forced-learning alert and the reading button are both there
  (\<^verbatim>\<open>handleForcedLearning\<close> clicks the button and returns true);
  \<open>probeContainer\<close>: \<^verbatim>\<open>.probe-container\<close> exists; \<open>forcedLearningInProbe\<close>: the
  container holds a \<^verbatim>\<open>.forced-learning\<close> element; the five \<open>type...\<close> flags: the
  container holds an element of that \<^verbatim>\<open>awd-probe-type-...\<close> class; \<open>promptText\<close>: the
  question text as \<^verbatim>\<open>parseQuestion\<close> extracts it from \<^verbatim>\<open>.prompt\<close>; \<open>optionTexts\<close>,
  \<open>matchPrompts\<close>, \<open>matchChoices\<close>: the trimmed texts of the \<^verbatim>\<open>.choiceText\<close>,
  \<^verbatim>\<open>.match-prompt .content\<close> and \<^verbatim>\<open>.choices-container .content\<close> elements;
  \<open>fitbInputs\<close>: the values of the \<^verbatim>\<open>input.fitb-input\<close> elements; \<open>choices\<close>: the
  radio buttons and checkboxes.
\<close>

record page =
  topicOverview :: bool
  forcedLearning :: bool
  probeContainer :: bool
  forcedLearningInProbe :: bool
  typeMultipleChoice :: bool
  typeTrueFalse :: bool
  typeMultipleSelect :: bool
  typeFillInTheBlank :: bool
  typeMatching :: bool
  promptText :: string
  optionTexts :: "string list"
  matchPrompts :: "string list"
  matchChoices :: "string list"
  fitbInputs :: "string list"
  choices :: "choice_input list"

datatype effect =
    ClickContinue
  | ClickReadingButton
  | Alert string
  | InputEvent nat

text \<open>
  The result of the synchronous part of \<^verbatim>\<open>processChatGPTResponse\<close>: the variables,
  the page, what was done to the user interface, and whether the function went on to wait
  for the confidence button.
\<close>

record applied =
  apState :: edu_state
  apPage :: page
  apEffects :: "effect list"
  apAwaitsConfidence :: bool

text \<open>
  \<^verbatim>\<open>processChatGPTResponse(responseText)\<close>.  The argument \<open>response\<close> is the value of
  \<^verbatim>\<open>JSON.parse(responseText).answer\<close>, and \<open>None\<close> when \<^verbatim>\<open>JSON.parse\<close> throws (the
  enclosing \<^verbatim>\<open>try\<close> then only logs).
\<close>

definition processChatGPTResponse :: "answer option \<Rightarrow> edu_state \<Rightarrow> page \<Rightarrow> applied" where
  "processChatGPTResponse response st pg =
     (let st1 = (case countdownElement st of
                   None \<Rightarrow> st
                 | Some el \<Rightarrow>
                     if cdDisplay el \<noteq> ''none''
                     then st\<lparr>countdownElement := Some (el\<lparr>cdText := ''Answered''\<rparr>)\<rparr>
                     else st)
      in if topicOverview pg then
           \<lparr>apState = st1, apPage = pg, apEffects = [ClickContinue], apAwaitsConfidence = False\<rparr>
         else if forcedLearning pg then
           \<lparr>apState = st1, apPage = pg, apEffects = [ClickReadingButton], apAwaitsConfidence = False\<rparr>
         else case response of
           None \<Rightarrow> \<lparr>apState = st1, apPage = pg, apEffects = [], apAwaitsConfidence = False\<rparr>
         | Some a \<Rightarrow>
             let answers = answersOf a in
             if \<not> probeContainer pg then
               \<lparr>apState = st1, apPage = pg, apEffects = [], apAwaitsConfidence = False\<rparr>
             else
               let st2 = st1\<lparr>lastIncorrectQuestion := None, lastCorrectAnswer := None\<rparr> in
               if typeMatching pg then
                 \<lparr>apState = st2, apPage = pg,
                  apEffects = [Alert (''Matching Question Solution:\<newline>\<newline>''
                                 @ joinWith ''\<newline>'' answers
                                 @ ''\<newline>\<newline>Please input these matches manually, then click high confidence and next.'')],
                  apAwaitsConfidence = False\<rparr>
               else if typeFillInTheBlank pg then
                 \<lparr>apState = st2,
                  apPage = pg\<lparr>fitbInputs := fillBlanks answers (fitbInputs pg)\<rparr>,
                  apEffects = map InputEvent (filledIndices answers (fitbInputs pg)),
                  apAwaitsConfidence = False\<rparr>
               else
                 \<lparr>apState = st2,
                  apPage = pg\<lparr>choices := selectChoices answers (choices pg)\<rparr>,
                  apEffects = [],
                  apAwaitsConfidence = isAutomating st2\<rparr>)"

subsection \<open>Correction context\<close>

definition isDigit :: "char \<Rightarrow> bool" where
  "isDigit c \<longleftrightarrow> (48 :: nat) \<le> of_char c \<and> of_char c \<le> (57 :: nat)"

text \<open>\<^verbatim>\<open>s.replace(/^Field \d+:\s*/, "")\<close>\<close>

definition stripFieldPrefix :: "string \<Rightarrow> string" where
  "stripFieldPrefix s =
     (if startsWith ''Field '' s then
        let r = drop 6 s; digits = takeWhile isDigit r; r' = dropWhile isDigit r in
        if digits \<noteq> [] \<and> startsWith '':'' r' then dropWhile isSpace (drop 1 r') else s
      else s)"

text \<open>The string branch of \<^verbatim>\<open>cleanAnswer\<close>.\<close>

definition cleanString :: "string \<Rightarrow> string" where
  "cleanString a =
     (let cleanedAnswer = stripFieldPrefix (trim a) in
      if includesText cleanedAnswer '' or ''
      then trim (case splitAtFirst '' or '' cleanedAnswer of
                   Some (first, _) \<Rightarrow> first | None \<Rightarrow> cleanedAnswer)
      else cleanedAnswer)"

text \<open>
  \<^verbatim>\<open>cleanAnswer\<close>: a falsy answer (the empty string) is returned as it is, an array is
  cleaned item by item.
\<close>

definition cleanAnswer :: "answer \<Rightarrow> answer" where
  "cleanAnswer a =
     (case a of
        Single s \<Rightarrow> Single (if s = [] then s else cleanString s)
      | Many xs \<Rightarrow> Many (map (\<lambda>x. if x = [] then x else cleanString x) xs))"

text \<open>Truthiness of a stored answer: an array is truthy, the empty string is not.\<close>

definition truthyAnswer :: "answer \<Rightarrow> bool" where
  "truthyAnswer a = (case a of Single s \<Rightarrow> s \<noteq> [] | Many xs \<Rightarrow> True)"

text \<open>What \<^verbatim>\<open>extractCorrectAnswer\<close> returns when it finds the revealed answer.\<close>

record correction_data =
  correctionQuestion :: string
  correctionAnswer :: answer

text \<open>
  The step of \<^verbatim>\<open>processChatGPTResponse\<close> one second after the confidence button was
  clicked: \<open>incorrectMarker\<close> tells whether the page marks the answer incorrect,
  \<open>correctionData\<close> is the result of \<^verbatim>\<open>extractCorrectAnswer()\<close> (\<open>None\<close> for
  \<^verbatim>\<open>null\<close>).
\<close>

definition recordCorrection :: "bool \<Rightarrow> correction_data option \<Rightarrow> edu_state \<Rightarrow> edu_state" where
  "recordCorrection incorrectMarker correctionData st =
     (if incorrectMarker then
        (case correctionData of
           None \<Rightarrow> st
         | Some cd \<Rightarrow>
             if truthyAnswer (correctionAnswer cd)
             then st\<lparr>lastIncorrectQuestion := Some (correctionQuestion cd),
                     lastCorrectAnswer := Some (cleanAnswer (correctionAnswer cd))\<rparr>
             else st)
      else st)"

subsection \<open>Sending a question\<close>

text \<open>
  The question payload built by \<^verbatim>\<open>parseQuestion\<close> on the textbook page and read by
  \<^verbatim>\<open>insertQuestion\<close> in the adapters.  \<open>options\<close> is an array of option texts, or the
  object \<^verbatim>\<open>{prompts, choices}\<close> of a matching question; \<open>previousCorrection\<close> is
  \<^verbatim>\<open>null\<close> or the question and the (possibly \<^verbatim>\<open>null\<close>) correct answer of the last
  incorrectly answered question.
\<close>

datatype options = OptionList "string list" | MatchingOptions "string list" "string list"

record question_data =
  qType :: string
  qQuestion :: string
  qOptions :: options
  previousCorrection :: "(string \<times> answer option) option"

text \<open>
  \<^verbatim>\<open>parseQuestion\<close>: \<open>None\<close> when there is no question container (the function alerts
  and returns \<^verbatim>\<open>null\<close>).  It reads the variables and changes none.
\<close>

definition parseQuestion :: "edu_state \<Rightarrow> page \<Rightarrow> question_data option" where
  "parseQuestion st pg =
     (if \<not> probeContainer pg then None
      else
        let questionType =
              (if typeMultipleChoice pg then ''multiple_choice''
               else if typeTrueFalse pg then ''true_false''
               else if typeMultipleSelect pg then ''multiple_select''
               else if typeFillInTheBlank pg then ''fill_in_the_blank''
               else if typeMatching pg then ''matching''
               else []);
            opts =
              (if questionType = ''matching'' then MatchingOptions (matchPrompts pg) (matchChoices pg)
               else if questionType \<noteq> ''fill_in_the_blank'' then OptionList (optionTexts pg)
               else OptionList [])
        in Some \<lparr>qType = questionType, qQuestion = promptText pg, qOptions = opts,
                 previousCorrection =
                   (case lastIncorrectQuestion st of
                      None \<Rightarrow> None
                    | Some q \<Rightarrow> if q \<noteq> [] then Some (q, lastCorrectAnswer st) else None)\<rparr>)"

text \<open>
  \<^verbatim>\<open>sendQuestionIfReady\<close> inside \<^verbatim>\<open>applyRandomDelayIfEnabled\<close>: the question sent to
  the orchestrator, if any.  \<^verbatim>\<open>skipCurrentDelay\<close> does the same without the test of
  \<^verbatim>\<open>isAutomating\<close>.
\<close>

definition sendQuestionIfReady :: "edu_state \<Rightarrow> page \<Rightarrow> question_data option" where
  "sendQuestionIfReady st pg =
     (if \<not> probeContainer pg \<or> forcedLearningInProbe pg \<or> \<not> isAutomating st then None
      else parseQuestion st pg)"

definition skipCurrentDelay :: "edu_state \<Rightarrow> page \<Rightarrow> question_data option" where
  "skipCurrentDelay st pg =
     (if \<not> probeContainer pg \<or> forcedLearningInProbe pg then None
      else parseQuestion st pg)"

section \<open>Orchestrator (background script)\<close>

subsection \<open>State, messages and the browser\<close>

text \<open>
  The module-level variables of the background script.  Tab and window identifiers are
  numbers or \<^verbatim>\<open>null\<close>; a test such as \<^verbatim>\<open>!aiTabId\<close> holds for \<^verbatim>\<open>null\<close> and for \<open>0\<close>.
\<close>

record bg_state =
  textbookTabId :: "nat option"
  aiTabId :: "nat option"
  aiType :: "string option"
  lastActiveTabId :: "nat option"
  processingQuestion :: bool
  textbookWindowId :: "nat option"
  aiWindowId :: "nat option"
  currentWebsiteUrl :: string
  injectedTabs :: "nat set"

definition falsy :: "nat option \<Rightarrow> bool" where
  "falsy v = (case v of None \<Rightarrow> True | Some n \<Rightarrow> n = 0)"

text \<open>The messages the background script sends to tabs; \<open>'q\<close> is the question payload.\<close>

datatype 'q tab_message =
    AlertMessage string
  | ReceiveQuestion 'q
  | ProcessChatGPTResponse string
  | Ping

text \<open>
  What the background script does to the browser, in order: one attempt of
  \<^verbatim>\<open>chrome.tabs.sendMessage\<close> (with whether the tab acknowledged it), focusing a tab,
  scheduling the refocus of the previously active tab, a call of
  \<^verbatim>\<open>chrome.scripting.executeScript\<close> that puts the education script into a tab (with
  whether it succeeded), and writing the website name to the synced storage.
\<close>

datatype 'q bg_effect =
    SendAttempt nat "'q tab_message" bool
  | FocusTab nat
  | ScheduleRefocus nat
  | ExecuteScript nat bool
  | SyncSetWebsiteUrl string

text \<open>
  The browser as one invocation sees it.  \<open>queryTabs pattern\<close> is the result of
  \<^verbatim>\<open>chrome.tabs.query({url: pattern})\<close>, a list of (tab, window) pairs, or \<open>None\<close>
  when the call rejects; \<open>delivers tab msg k\<close> tells whether the \<open>k\<close>-th attempt to
  send \<open>msg\<close> to \<open>tab\<close> is acknowledged (\<^verbatim>\<open>chrome.runtime.lastError\<close> unset);
  \<open>tabExists\<close> tells whether \<^verbatim>\<open>chrome.tabs.get\<close> succeeds; \<open>executeScript\<close> whether
  \<^verbatim>\<open>chrome.scripting.executeScript\<close> succeeds for the tab.
\<close>

record 'q bg_env =
  syncWebsiteUrl :: "string option"
  localWebsiteUrl :: "string option"
  syncAiModel :: "string option"
  queryTabs :: "string \<Rightarrow> (nat \<times> nat) list option"
  delivers :: "nat \<Rightarrow> 'q tab_message \<Rightarrow> nat \<Rightarrow> bool"
  tabExists :: "nat \<Rightarrow> bool"
  executeScript :: "nat \<Rightarrow> bool"

text \<open>A stored string is used only when it is truthy: defined and not empty.\<close>

definition truthyString :: "string option \<Rightarrow> string option" where
  "truthyString v = (case v of None \<Rightarrow> None | Some s \<Rightarrow> if s = [] then None else Some s)"

definition aiUrlMap :: "string \<Rightarrow> string option" where
  "aiUrlMap aiModel =
     (if aiModel = ''chatgpt'' then Some ''https://chatgpt.com/*''
      else if aiModel = ''gemini'' then Some ''https://gemini.google.com/*''
      else if aiModel = ''deepseek'' then Some ''https://chat.deepseek.com/*''
      else None)"

subsection \<open>Reliable messenger\<close>

text \<open>
  \<^verbatim>\<open>attemptSend\<close> inside \<^verbatim>\<open>sendMessageWithRetry\<close>: \<open>attempts\<close> counts the attempts
  made so far.  The result tells whether the promise resolves, with the attempts made.
\<close>

function attemptSend ::
  "'q bg_env \<Rightarrow> nat \<Rightarrow> 'q tab_message \<Rightarrow> nat \<Rightarrow> nat \<Rightarrow> bool \<times> 'q bg_effect list" where
  "attemptSend env tabId message maxAttempts attempts =
     (let attempts' = attempts + 1 in
      if delivers env tabId message attempts' then (True, [SendAttempt tabId message True])
      else if attempts' \<ge> maxAttempts then (False, [SendAttempt tabId message False])
      else
        let (ok, es) = attemptSend env tabId message maxAttempts attempts'
        in (ok, SendAttempt tabId message False # es))"
  by pat_completeness auto
termination
  by (relation "measure (\<lambda>(env, tabId, message, maxAttempts, attempts). maxAttempts - attempts)") auto

declare attemptSend.simps [simp del]

text \<open>
  \<^verbatim>\<open>sendMessageWithRetry(tabId, message, maxAttempts)\<close>; the callers that leave
  \<^verbatim>\<open>maxAttempts\<close> out get the default of three.  With \<^verbatim>\<open>tabId\<close> \<^verbatim>\<open>null\<close> the call of
  \<^verbatim>\<open>chrome.tabs.sendMessage\<close> throws, so the promise rejects and nothing is sent.
\<close>

definition sendMessageWithRetry ::
  "'q bg_env \<Rightarrow> nat option \<Rightarrow> 'q tab_message \<Rightarrow> nat \<Rightarrow> bool \<times> 'q bg_effect list" where
  "sendMessageWithRetry env tabId message maxAttempts =
     (case tabId of
        None \<Rightarrow> (False, [])
      | Some t \<Rightarrow> attemptSend env t message maxAttempts 0)"

subsection \<open>Tab registry\<close>

text \<open>
  How a piece of asynchronous code ends: it returns (or falls off its end), or it throws.
  Either way it leaves the variables and what was done so far.
\<close>

datatype completion = Returned | Threw

record 'q run =
  runState :: bg_state
  runEffects :: "'q bg_effect list"
  runEnd :: completion

text \<open>
  \<^verbatim>\<open>injectContentScript(tabId)\<close>.  Its \<^verbatim>\<open>try\<close> swallows every error, so it never
  throws: when \<^verbatim>\<open>chrome.tabs.get\<close> or \<^verbatim>\<open>executeScript\<close> rejects, the tab is taken out
  of \<^verbatim>\<open>injectedTabs\<close>.  A tab already in \<^verbatim>\<open>injectedTabs\<close> is sent one \<^verbatim>\<open>ping\<close> (a
  single attempt); when the ping is acknowledged nothing is injected.
\<close>

definition injectContentScript :: "'q bg_env \<Rightarrow> nat \<Rightarrow> bg_state \<Rightarrow> bg_state \<times> 'q bg_effect list" where
  "injectContentScript env tabId st =
     (if \<not> tabExists env tabId then (st\<lparr>injectedTabs := injectedTabs st - {tabId}\<rparr>, [])
      else
        let (verified, st1, es1) =
              (if tabId \<in> injectedTabs st then
                 (case sendMessageWithRetry env (Some tabId) Ping 1 of
                    (True, es) \<Rightarrow> (True, st, es)
                  | (False, es) \<Rightarrow> (False, st\<lparr>injectedTabs := injectedTabs st - {tabId}\<rparr>, es))
               else (False, st, []))
        in if verified then (st1, es1)
           else if executeScript env tabId
             then (st1\<lparr>injectedTabs := insert tabId (injectedTabs st1)\<rparr>,
                   es1 @ [ExecuteScript tabId True])
             else (st1\<lparr>injectedTabs := injectedTabs st1 - {tabId}\<rparr>,
                   es1 @ [ExecuteScript tabId False]))"

text \<open>
  \<^verbatim>\<open>findAndStoreTabs\<close>.  It throws when a tab query rejects.  A slot is written only
  when a tab is found: the function never empties \<open>aiTabId\<close> or \<open>textbookTabId\<close>.
  The call of \<^verbatim>\<open>injectContentScript\<close> is not awaited.  Its steps stand here at the place
  of the call; in the browser they may come later, among the steps of the caller that
  follow.  An injection sends only \<^verbatim>\<open>ping\<close> and writes only \<^verbatim>\<open>injectedTabs\<close>; the
  rest of \<^verbatim>\<open>processQuestion\<close> never sends \<^verbatim>\<open>ping\<close> and never reads \<^verbatim>\<open>injectedTabs\<close>.
  When the tabs are resolved twice, the second injection starts after the first is done.
\<close>

definition findAndStoreTabs :: "'q bg_env \<Rightarrow> bg_state \<Rightarrow> 'q run" where
  "findAndStoreTabs env st =
     (let fromSync = truthyString (syncWebsiteUrl env);
          fromLocal = (if fromSync = None then truthyString (localWebsiteUrl env) else None);
          es0 = (case fromLocal of Some u \<Rightarrow> [SyncSetWebsiteUrl u] | None \<Rightarrow> []);
          websiteUrl = (case fromSync of Some u \<Rightarrow> Some u | None \<Rightarrow> fromLocal);
          st1 = st\<lparr>currentWebsiteUrl := (case websiteUrl of Some u \<Rightarrow> u | None \<Rightarrow> ''textbook'')\<rparr>
      in case queryTabs env (''https://learning.'' @ currentWebsiteUrl st1 @ ''.com/*'') of
           None \<Rightarrow> \<lparr>runState = st1, runEffects = es0, runEnd = Threw\<rparr>
         | Some textbookTabs \<Rightarrow>
             let (st2, es1) =
                   (case textbookTabs of
                      [] \<Rightarrow> (st1, es0)
                    | (tid, wid) # _ \<Rightarrow>
                        (case injectContentScript env tid
                                (st1\<lparr>textbookTabId := Some tid, textbookWindowId := Some wid\<rparr>) of
                           (st', es) \<Rightarrow> (st', es0 @ es)));
                 aiModel = (case truthyString (syncAiModel env) of Some m \<Rightarrow> m | None \<Rightarrow> ''chatgpt'');
                 st3 = st2\<lparr>aiType := Some aiModel\<rparr>
             in case aiUrlMap aiModel of
                  None \<Rightarrow> \<lparr>runState = st3, runEffects = es1, runEnd = Returned\<rparr>
                | Some aiUrl \<Rightarrow>
                    (case queryTabs env aiUrl of
                       None \<Rightarrow> \<lparr>runState = st3, runEffects = es1, runEnd = Threw\<rparr>
                     | Some [] \<Rightarrow> \<lparr>runState = st3, runEffects = es1, runEnd = Returned\<rparr>
                     | Some ((tid, wid) # _) \<Rightarrow>
                         \<lparr>runState = st3\<lparr>aiTabId := Some tid, aiWindowId := Some wid\<rparr>,
                          runEffects = es1, runEnd = Returned\<rparr>))"

text \<open>
  \<^verbatim>\<open>focusTab\<close>: its own \<^verbatim>\<open>try\<close> swallows every error, so it never throws.
\<close>

definition focusTab :: "'q bg_env \<Rightarrow> nat option \<Rightarrow> 'q bg_effect list" where
  "focusTab env tabId =
     (if falsy tabId then []
      else case tabId of
        None \<Rightarrow> []
      | Some t \<Rightarrow> if tabExists env t then [FocusTab t] else [])"

subsection \<open>Relaying a question\<close>

record 'q question_message =
  question :: 'q
  sourceTabId :: "nat option"

text \<open>\<^verbatim>\<open>`${aiType}`\<close> inside a template string.\<close>

definition showAiType :: "string option \<Rightarrow> string" where
  "showAiType t = (case t of None \<Rightarrow> ''null'' | Some s \<Rightarrow> s)"

definition missingTabAlert :: "bg_state \<Rightarrow> 'q tab_message" where
  "missingTabAlert st =
     AlertMessage (''Please open '' @ showAiType (aiType st) @ '' in another tab before using automation.'')"

definition communicationErrorAlert :: "bg_state \<Rightarrow> 'q tab_message" where
  "communicationErrorAlert st =
     AlertMessage (''Error communicating with '' @ showAiType (aiType st)
       @ ''. Please make sure it is open in another tab (You may need to refresh the page)'')"

text \<open>
  The body of the \<^verbatim>\<open>try\<close> block of \<^verbatim>\<open>processQuestion\<close>.  \<^verbatim>\<open>shouldFocusTabs\<close>
  is inlined: it resolves the tabs a second time and compares the two window slots.
\<close>

definition processQuestionTry :: "'q bg_env \<Rightarrow> 'q question_message \<Rightarrow> bg_state \<Rightarrow> 'q run" where
  "processQuestionTry env message st =
     (let r1 = findAndStoreTabs env st; st1 = runState r1; es1 = runEffects r1 in
      if runEnd r1 = Threw then r1
      else if falsy (aiTabId st1) then
        (case sendMessageWithRetry env (textbookTabId st1) (missingTabAlert st1) 3 of
           (False, es2) \<Rightarrow> \<lparr>runState = st1, runEffects = es1 @ es2, runEnd = Threw\<rparr>
         | (True, es2) \<Rightarrow>
             \<lparr>runState = st1\<lparr>processingQuestion := False\<rparr>, runEffects = es1 @ es2,
              runEnd = Returned\<rparr>)
      else
        let st2 = (if falsy (textbookTabId st1)
                   then st1\<lparr>textbookTabId := sourceTabId message\<rparr> else st1);
            r3 = findAndStoreTabs env st2; st3 = runState r3; es3 = runEffects r3
        in if runEnd r3 = Threw then \<lparr>runState = st3, runEffects = es1 @ es3, runEnd = Threw\<rparr>
           else
             let sameWindow = (textbookWindowId st3 = aiWindowId st3);
                 es4 = (if sameWindow then focusTab env (aiTabId st3) else [])
             in case sendMessageWithRetry env (aiTabId st3) (ReceiveQuestion (question message)) 3 of
                  (False, es5) \<Rightarrow>
                    \<lparr>runState = st3, runEffects = es1 @ es3 @ es4 @ es5, runEnd = Threw\<rparr>
                | (True, es5) \<Rightarrow>
                    let es6 =
                          (if \<not> sameWindow then []
                           else if falsy (lastActiveTabId st3) then []
                           else if lastActiveTabId st3 = aiTabId st3 then []
                           else (case lastActiveTabId st3 of
                                   Some l \<Rightarrow> [ScheduleRefocus l] | None \<Rightarrow> []))
                    in \<lparr>runState = st3, runEffects = es1 @ es3 @ es4 @ es5 @ es6,
                        runEnd = Returned\<rparr>)"

text \<open>
  \<^verbatim>\<open>processQuestion(message)\<close>: the guard, the \<^verbatim>\<open>try\<close> body, the \<^verbatim>\<open>catch\<close>
  block (which may throw again when its own alert cannot be delivered) and the
  \<^verbatim>\<open>finally\<close> block.  \<open>runEnd\<close> tells whether the returned promise resolves or
  rejects.
\<close>

definition processQuestion :: "'q bg_env \<Rightarrow> 'q question_message \<Rightarrow> bg_state \<Rightarrow> 'q run" where
  "processQuestion env message st =
     (if processingQuestion st then \<lparr>runState = st, runEffects = [], runEnd = Returned\<rparr>
      else
        let st0 = st\<lparr>processingQuestion := True\<rparr>;
            r = processQuestionTry env message st0;
            r' = (case runEnd r of
                    Returned \<Rightarrow> r
                  | Threw \<Rightarrow>
                      if falsy (textbookTabId (runState r)) then
                        r\<lparr>runState := (runState r)\<lparr>processingQuestion := False\<rparr>, runEnd := Returned\<rparr>
                      else
                        (case sendMessageWithRetry env (textbookTabId (runState r))
                                (communicationErrorAlert (runState r)) 3 of
                           (ok, es) \<Rightarrow>
                             r\<lparr>runEffects := runEffects r @ es,
                               runEnd := (if ok then Returned else Threw)\<rparr>))
        in r'\<lparr>runState := (runState r')\<lparr>processingQuestion := False\<rparr>\<rparr>)"

text \<open>
  The alerts that reached a tab, the questions that were sent (delivered or not), the
  tabs that were focused, every message handed to \<^verbatim>\<open>chrome.tabs.sendMessage\<close> (one entry
  for each attempt), and the tabs on which \<^verbatim>\<open>executeScript\<close> was called.
\<close>

fun alertsRaised :: "'q bg_effect list \<Rightarrow> (nat \<times> string) list" where
  "alertsRaised [] = []"
| "alertsRaised (SendAttempt t (AlertMessage m) True # es) = (t, m) # alertsRaised es"
| "alertsRaised (_ # es) = alertsRaised es"

fun questionAttempts :: "'q bg_effect list \<Rightarrow> nat list" where
  "questionAttempts [] = []"
| "questionAttempts (SendAttempt t (ReceiveQuestion q) ok # es) = t # questionAttempts es"
| "questionAttempts (_ # es) = questionAttempts es"

fun tabsFocused :: "'q bg_effect list \<Rightarrow> nat list" where
  "tabsFocused [] = []"
| "tabsFocused (FocusTab t # es) = t # tabsFocused es"
| "tabsFocused (ScheduleRefocus t # es) = t # tabsFocused es"
| "tabsFocused (_ # es) = tabsFocused es"

fun messagesSent :: "'q bg_effect list \<Rightarrow> (nat \<times> 'q tab_message) list" where
  "messagesSent [] = []"
| "messagesSent (SendAttempt t m ok # es) = (t, m) # messagesSent es"
| "messagesSent (_ # es) = messagesSent es"

fun scriptsInjected :: "'q bg_effect list \<Rightarrow> nat list" where
  "scriptsInjected [] = []"
| "scriptsInjected (ExecuteScript t ok # es) = t # scriptsInjected es"
| "scriptsInjected (_ # es) = scriptsInjected es"

section \<open>Provider adapters (Gemini and DeepSeek content scripts)\<close>

subsection \<open>Composing the prompt\<close>

text \<open>Decimal digits of a number, as a template string prints \<^verbatim>\<open>${i + 1}\<close>.\<close>

function showNat :: "nat \<Rightarrow> string" where
  "showNat n =
     (if n < 10 then [''0123456789'' ! n]
      else showNat (n div 10) @ [''0123456789'' ! (n mod 10)])"
  by pat_completeness auto
termination
  by (relation "measure id") auto

declare showNat.simps [simp del]

text \<open>\<^verbatim>\<open>xs.map((x, i) => `${i + 1}. ${x}`).join("\n")\<close>\<close>

definition numbered :: "string list \<Rightarrow> string" where
  "numbered xs = joinWith ''\<newline>'' (map (\<lambda>(i, x). showNat (i + 1) @ ''. '' @ x) (enumerate 0 xs))"

text \<open>
  \<^verbatim>\<open>JSON.stringify\<close> on a string and on an array of strings: quotes and
  backslashes are escaped, the characters below \<^verbatim>\<open>U+0020\<close> become their short or
  \<^verbatim>\<open>\u00XX\<close> escapes, every other character stands for itself.
\<close>

definition hexDigit :: "nat \<Rightarrow> char" where
  "hexDigit d = ''0123456789abcdef'' ! d"

definition jsonEscape :: "char \<Rightarrow> string" where
  "jsonEscape c =
     (if c = CHR 0x22 then [CHR 0x5C, CHR 0x22]
      else if c = CHR 0x5C then [CHR 0x5C, CHR 0x5C]
      else if c = CHR 0x08 then [CHR 0x5C, CHR ''b'']
      else if c = CHR 0x0C then [CHR 0x5C, CHR ''f'']
      else if c = CHR 0x0A then [CHR 0x5C, CHR ''n'']
      else if c = CHR 0x0D then [CHR 0x5C, CHR ''r'']
      else if c = CHR 0x09 then [CHR 0x5C, CHR ''t'']
      else if of_char c < (32 :: nat)
        then [CHR 0x5C, CHR ''u'', CHR ''0'', CHR ''0'',
              hexDigit (of_char c div 16), hexDigit (of_char c mod 16)]
      else [c])"

definition jsonQuote :: "string \<Rightarrow> string" where
  "jsonQuote s = [CHR 0x22] @ concat (map jsonEscape s) @ [CHR 0x22]"

definition jsonStringify :: "answer \<Rightarrow> string" where
  "jsonStringify a =
     (case a of
        Single s \<Rightarrow> jsonQuote s
      | Many xs \<Rightarrow> ''['' @ joinWith '','' (map jsonQuote xs) @ '']'')"

definition correctionPreamble :: "string \<Rightarrow> answer \<Rightarrow> string" where
  "correctionPreamble q a =
     ''CORRECTION FROM PREVIOUS ANSWER: For the question \"'' @ q
     @ ''\", your answer was incorrect. The correct answer was: '' @ jsonStringify a
     @ ''\<newline>\<newline>Now answer this new question:\<newline>\<newline>''"

text \<open>
  The text \<^verbatim>\<open>insertQuestion\<close> builds (the same code in the Gemini and the DeepSeek
  adapter).  \<open>None\<close> when the function throws: the type is \<^verbatim>\<open>matching\<close> but the options
  are not a \<^verbatim>\<open>{prompts, choices}\<close> object.
\<close>

definition insertQuestionText :: "question_data \<Rightarrow> string option" where
  "insertQuestionText questionData =
     (let text0 = ''Type: '' @ qType questionData @ ''\<newline>Question: '' @ qQuestion questionData;
          text1 =
            (case previousCorrection questionData of
               Some (q, Some a) \<Rightarrow>
                 if q \<noteq> [] \<and> truthyAnswer a then correctionPreamble q a @ text0 else text0
             | _ \<Rightarrow> text0);
          suffix = ''\<newline>\<newline>Please provide your answer in JSON format with keys \"answer\" and \"explanation\". Explanations should be no more than one sentence. DO NOT acknowledge the correction in your response, only answer the new question.''
      in if qType questionData = ''matching'' then
           (case qOptions questionData of
              MatchingOptions prompts choiceList \<Rightarrow>
                Some (text1 @ ''\<newline>Prompts:\<newline>'' @ numbered prompts
                      @ ''\<newline>Choices:\<newline>'' @ numbered choiceList
                      @ ''\<newline>\<newline>Please match each prompt with the correct choice. Format your answer as an array where each element is 'Prompt -> Choice'.''
                      @ suffix)
            | OptionList _ \<Rightarrow> None)
         else if qType questionData = ''fill_in_the_blank'' then
           Some (text1 @ ''\<newline>\<newline>This is a fill in the blank question. If there are multiple blanks, provide answers as an array in order of appearance. For a single blank, you can provide a string.''
                 @ suffix)
         else
           (case qOptions questionData of
              OptionList opts \<Rightarrow>
                if opts \<noteq> [] then
                  Some (text1 @ ''\<newline>Options:\<newline>'' @ numbered opts
                        @ ''\<newline>\<newline>IMPORTANT: Your answer must EXACTLY match one of the above options. Do not include numbers in your answer. If there are periods, include them.''
                        @ suffix)
                else Some (text1 @ suffix)
            | MatchingOptions _ _ \<Rightarrow> Some (text1 @ suffix)))"

subsection \<open>Parsed replies\<close>

text \<open>
  The values \<^verbatim>\<open>JSON.parse\<close> returns.  \<^verbatim>\<open>JSON.parse\<close> itself is a parameter of the
  adapters below: a function from the text to the parsed value, \<open>None\<close> when it throws.
\<close>

datatype json =
    JNull
  | JBool bool
  | JNum real
  | JStr string
  | JArr "json list"
  | JObj "(string \<times> json) list"

text \<open>JavaScript truthiness: empty arrays and objects are truthy, the empty string is not.\<close>

fun truthy :: "json \<Rightarrow> bool" where
  "truthy JNull = False"
| "truthy (JBool b) = b"
| "truthy (JNum n) = (n \<noteq> 0)"
| "truthy (JStr s) = (s \<noteq> [])"
| "truthy (JArr xs) = True"
| "truthy (JObj kvs) = True"

text \<open>
  Reading \<^verbatim>\<open>parsed.answer\<close>: a \<^verbatim>\<open>TypeError\<close> on \<^verbatim>\<open>null\<close>, \<^verbatim>\<open>undefined\<close> on
  numbers, booleans, strings, arrays and on objects without the key.
\<close>

datatype property = TypeError | Undefined | Defined json

fun answerProperty :: "json \<Rightarrow> property" where
  "answerProperty JNull = TypeError"
| "answerProperty (JObj kvs) =
     (case map_of kvs ''answer'' of None \<Rightarrow> Undefined | Some v \<Rightarrow> Defined v)"
| "answerProperty _ = Undefined"

fun truthyProperty :: "property \<Rightarrow> bool" where
  "truthyProperty (Defined v) = truthy v"
| "truthyProperty _ = False"

subsection \<open>Observation state\<close>

text \<open>
  The module-level variables of an adapter.  \<open>observationTimeout\<close> holds the time at
  which the armed timer is due; \<open>observer\<close> tells whether a connected observer exists;
  \<open>checkIntervalId\<close> (DeepSeek only) whether the one-second poll is running.
  \<open>sendPending\<close> is not a variable of the script: it counts the promises of
  \<^verbatim>\<open>chrome.runtime.sendMessage(...).then(resetObservation)\<close> that have not settled yet.
  The script keeps one observer in \<^verbatim>\<open>observer\<close>: the listener resets the observation
  before every submission, and a start of observation replaces what the variables held.
\<close>

record adapter_state =
  hasResponded :: bool
  messageCountAtQuestion :: nat
  observationStartTime :: nat
  observationTimeout :: "nat option"
  checkIntervalId :: bool
  observer :: bool
  sendPending :: nat

datatype response_message = GeminiResponse string | DeepseekResponse string

definition resetObservation :: "adapter_state \<Rightarrow> adapter_state" where
  "resetObservation st =
     st\<lparr>hasResponded := False, observationTimeout := None, checkIntervalId := False,
        observer := False\<rparr>"

text \<open>
  The listener for \<^verbatim>\<open>receiveQuestion\<close>, up to the call of \<^verbatim>\<open>insertQuestion\<close>;
  \<open>count\<close> is the number of reply elements on the page.
\<close>

definition receiveQuestion :: "nat \<Rightarrow> adapter_state \<Rightarrow> adapter_state" where
  "receiveQuestion count st =
     (resetObservation st)\<lparr>messageCountAtQuestion := count, hasResponded := False\<rparr>"

text \<open>The callback of the three-minute timer.\<close>

definition observationTimedOut :: "adapter_state \<Rightarrow> adapter_state" where
  "observationTimedOut st = (if \<not> hasResponded st then resetObservation st else st)"

text \<open>The promise of the direct path settles: \<^verbatim>\<open>.then\<close> resets, \<^verbatim>\<open>.catch\<close> only logs.\<close>

definition sendSettled :: "bool \<Rightarrow> adapter_state \<Rightarrow> adapter_state" where
  "sendSettled ok st =
     (let st' = st\<lparr>sendPending := sendPending st - 1\<rparr>
      in if ok then resetObservation st' else st')"

subsection \<open>Gemini\<close>

definition startObservingGemini :: "nat \<Rightarrow> adapter_state \<Rightarrow> adapter_state" where
  "startObservingGemini now st =
     st\<lparr>observationStartTime := now, observationTimeout := Some (now + 180000), observer := True\<rparr>"

text \<open>
  What the observer callback reads from the page: the number of \<^verbatim>\<open>model-response\<close>
  elements; \<open>responseText\<close> as it stands before \<^verbatim>\<open>JSON.parse\<close> (the code block or the
  brace-to-brace slice of the newest reply, normalised); whether the reply is still being
  generated; and the trimmed text of the newest reply.
\<close>

record gemini_view =
  messageCount :: nat
  responseText :: string
  isGenerating :: bool
  latestText :: string

text \<open>The fallback of the Gemini callback, after the \<^verbatim>\<open>try\<close> around \<^verbatim>\<open>JSON.parse\<close>.\<close>

definition geminiFallback :: "gemini_view \<Rightarrow> nat \<Rightarrow> adapter_state \<Rightarrow> adapter_state \<times> response_message list" where
  "geminiFallback view now st =
     (if isGenerating view \<or> now - observationStartTime st \<le> 30000 then (st, [])
      else case matchJsonPattern (latestText view) of
        None \<Rightarrow> (st, [])
      | Some m \<Rightarrow>
          if \<not> hasResponded st
          then (resetObservation (st\<lparr>hasResponded := True\<rparr>), [GeminiResponse m])
          else (st, []))"

text \<open>The callback of the Gemini \<^verbatim>\<open>MutationObserver\<close>, run at time \<open>now\<close>.\<close>

definition geminiMutation ::
  "(string \<Rightarrow> json option) \<Rightarrow> gemini_view \<Rightarrow> nat \<Rightarrow> adapter_state \<Rightarrow> adapter_state \<times> response_message list" where
  "geminiMutation jsonParse view now st =
     (if hasResponded st then (st, [])
      else if messageCount view = 0 then (st, [])
      else if messageCount view \<le> messageCountAtQuestion st then (st, [])
      else case jsonParse (responseText view) of
        None \<Rightarrow> geminiFallback view now st
      | Some parsed \<Rightarrow>
          (case answerProperty parsed of
             TypeError \<Rightarrow> geminiFallback view now st
           | p \<Rightarrow>
               if truthyProperty p \<and> \<not> hasResponded st
               then (st\<lparr>hasResponded := True, sendPending := Suc (sendPending st)\<rparr>,
                     [GeminiResponse (responseText view)])
               else (st, [])))"

subsection \<open>DeepSeek\<close>

definition startObservingDeepSeek :: "nat \<Rightarrow> adapter_state \<Rightarrow> adapter_state" where
  "startObservingDeepSeek now st =
     st\<lparr>observationStartTime := now, observationTimeout := Some (now + 180000), observer := True,
        checkIntervalId := True\<rparr>"

text \<open>
  \<^verbatim>\<open>processResponse(responseText)\<close>: the returned flag, the variables and the message sent.
\<close>

definition processResponse ::
  "(string \<Rightarrow> json option) \<Rightarrow> string \<Rightarrow> adapter_state \<Rightarrow> bool \<times> adapter_state \<times> response_message list" where
  "processResponse jsonParse text st =
     (let cleanedText = cleanText text in
      case jsonParse cleanedText of
        None \<Rightarrow> (False, st, [])
      | Some parsed \<Rightarrow>
          if \<not> truthy parsed \<or> \<not> truthyProperty (answerProperty parsed) \<or> hasResponded st
          then (False, st, [])
          else (True, st\<lparr>hasResponded := True, sendPending := Suc (sendPending st)\<rparr>,
                [DeepseekResponse cleanedText]))"

text \<open>
  One reply element as \<^verbatim>\<open>checkForResponse\<close> reads it: the trimmed texts of the code
  blocks that pass the parent and language tests, in the order of the loops, and the
  trimmed text of the element.
\<close>

record deepseek_message =
  codeBlocks :: "string list"
  messageText :: string

text \<open>The loops over the code blocks of one reply: stop at the first one accepted.\<close>

fun tryCodeBlocks ::
  "(string \<Rightarrow> json option) \<Rightarrow> string list \<Rightarrow> adapter_state \<Rightarrow> bool \<times> adapter_state \<times> response_message list" where
  "tryCodeBlocks jsonParse [] st = (False, st, [])"
| "tryCodeBlocks jsonParse (b # bs) st =
     (if includesText b ''{'' \<and> includesText b ''\"answer\"'' then
        (case processResponse jsonParse b st of
           (True, st', out) \<Rightarrow> (True, st', out)
         | (False, _, _) \<Rightarrow> tryCodeBlocks jsonParse bs st)
      else tryCodeBlocks jsonParse bs st)"

text \<open>The body of \<^verbatim>\<open>for (const message of newMessages)\<close>.\<close>

fun checkMessages ::
  "(string \<Rightarrow> json option) \<Rightarrow> deepseek_message list \<Rightarrow> nat \<Rightarrow> adapter_state \<Rightarrow> adapter_state \<times> response_message list" where
  "checkMessages jsonParse [] now st = (st, [])"
| "checkMessages jsonParse (m # ms) now st =
     (case tryCodeBlocks jsonParse (codeBlocks m) st of
        (True, st', out) \<Rightarrow> (st', out)
      | (False, _, _) \<Rightarrow>
          (case (case matchAnswerPattern (messageText m) of
                   None \<Rightarrow> (False, st, [])
                 | Some t \<Rightarrow> processResponse jsonParse t st) of
             (True, st', out) \<Rightarrow> (st', out)
           | (False, _, _) \<Rightarrow>
               if now - observationStartTime st \<le> 30000 then checkMessages jsonParse ms now st
               else
                 (case matchJsonPattern (messageText m) of
                    None \<Rightarrow> checkMessages jsonParse ms now st
                  | Some t \<Rightarrow>
                      if hasResponded st then checkMessages jsonParse ms now st
                      else (resetObservation (st\<lparr>hasResponded := True\<rparr>), [DeepseekResponse t]))))"

text \<open>
  \<^verbatim>\<open>checkForResponse\<close>, run by the observer and by the one-second poll at time \<open>now\<close>;
  \<open>messages\<close> are the reply elements found by the first selector that finds any.
\<close>

definition checkForResponse ::
  "(string \<Rightarrow> json option) \<Rightarrow> deepseek_message list \<Rightarrow> nat \<Rightarrow> adapter_state \<Rightarrow> adapter_state \<times> response_message list" where
  "checkForResponse jsonParse messages now st =
     (if hasResponded st then (st, [])
      else if length messages \<le> messageCountAtQuestion st then (st, [])
      else checkMessages jsonParse (drop (messageCountAtQuestion st) messages) now st)"

subsection \<open>An observation cycle as a sequence of events\<close>

text \<open>
  What can happen to an adapter: a question arrives, the prompt has been submitted and
  observation starts, the page is looked at (by the observer or the poll), the
  three-minute timer fires, the promise of a sent response settles.  \<open>'v\<close> is what the
  adapter reads from the page.
\<close>

datatype 'v adapter_event =
    QuestionReceived nat
  | ObservationStarted nat
  | PageChanged 'v nat
  | TimerFired nat
  | SendSettled bool

text \<open>
  One event.  The browser runs the observer callback only while an observer is connected
  (or, for DeepSeek, the poll is running), the timer callback only when the timer is armed
  and due, and the promise handlers only for a pending promise.
\<close>

definition timerDue :: "nat \<Rightarrow> adapter_state \<Rightarrow> bool" where
  "timerDue now st = (case observationTimeout st of None \<Rightarrow> False | Some due \<Rightarrow> due \<le> now)"

fun geminiStep ::
  "(string \<Rightarrow> json option) \<Rightarrow> gemini_view adapter_event \<Rightarrow> adapter_state \<Rightarrow> adapter_state \<times> response_message list" where
  "geminiStep jsonParse (QuestionReceived count) st = (receiveQuestion count st, [])"
| "geminiStep jsonParse (ObservationStarted now) st = (startObservingGemini now st, [])"
| "geminiStep jsonParse (PageChanged view now) st =
     (if observer st then geminiMutation jsonParse view now st else (st, []))"
| "geminiStep jsonParse (TimerFired now) st =
     (if timerDue now st then (observationTimedOut st, []) else (st, []))"
| "geminiStep jsonParse (SendSettled ok) st =
     (if 0 < sendPending st then (sendSettled ok st, []) else (st, []))"

fun deepseekStep ::
  "(string \<Rightarrow> json option) \<Rightarrow> deepseek_message list adapter_event \<Rightarrow> adapter_state \<Rightarrow> adapter_state \<times> response_message list" where
  "deepseekStep jsonParse (QuestionReceived count) st = (receiveQuestion count st, [])"
| "deepseekStep jsonParse (ObservationStarted now) st = (startObservingDeepSeek now st, [])"
| "deepseekStep jsonParse (PageChanged messages now) st =
     (if observer st \<or> checkIntervalId st then checkForResponse jsonParse messages now st
      else (st, []))"
| "deepseekStep jsonParse (TimerFired now) st =
     (if timerDue now st then (observationTimedOut st, []) else (st, []))"
| "deepseekStep jsonParse (SendSettled ok) st =
     (if 0 < sendPending st then (sendSettled ok st, []) else (st, []))"

text \<open>A sequence of events, with the messages sent to the orchestrator along the way.\<close>

fun runEvents ::
  "('e \<Rightarrow> adapter_state \<Rightarrow> adapter_state \<times> response_message list) \<Rightarrow> 'e list \<Rightarrow> adapter_state
     \<Rightarrow> adapter_state \<times> response_message list" where
  "runEvents step [] st = (st, [])"
| "runEvents step (e # es) st =
     (case step e st of
        (st', out) \<Rightarrow> (case runEvents step es st' of (st'', out') \<Rightarrow> (st'', out @ out')))"

fun isObservationStarted :: "'v adapter_event \<Rightarrow> bool" where
  "isObservationStarted (ObservationStarted now) = True"
| "isObservationStarted _ = False"

text \<open>
  A cycle is over when no callback can send any more: a response was sent, or nothing
  watches the page.
\<close>

definition terminated :: "adapter_state \<Rightarrow> bool" where
  "terminated st \<longleftrightarrow> hasResponded st \<or> \<not> (observer st \<or> checkIntervalId st)"

text \<open>
  The text parses as JSON and the parsed value has a truthy \<^verbatim>\<open>answer\<close>: the condition
  under which both adapters send the text itself.
\<close>

definition directlyAccepted :: "(string \<Rightarrow> json option) \<Rightarrow> string \<Rightarrow> bool" where
  "directlyAccepted jsonParse text =
     (case jsonParse text of
        None \<Rightarrow> False
      | Some parsed \<Rightarrow> truthyProperty (answerProperty parsed))"

text \<open>
  The \<^verbatim>\<open>try\<close> block of the Gemini callback throws: the text is not JSON, or it is the
  JSON \<^verbatim>\<open>null\<close>, whose \<^verbatim>\<open>answer\<close> cannot be read.
\<close>

definition parseThrows :: "(string \<Rightarrow> json option) \<Rightarrow> string \<Rightarrow> bool" where
  "parseThrows jsonParse text =
     (case jsonParse text of
        None \<Rightarrow> True
      | Some parsed \<Rightarrow> answerProperty parsed = TypeError)"

subsection \<open>Scenarios\<close>

text \<open>
  The variables as the background script initialises them, and a browser with the
  textbook in tab 5 of window 1, the provider set to Gemini, the given Gemini tabs,
  tabs that acknowledge a message exactly when \<open>responsive\<close> holds for them, and
  script injection that succeeds.
\<close>

definition initialState :: bg_state where
  "initialState =
     \<lparr>textbookTabId = None, aiTabId = None, aiType = None, lastActiveTabId = None,
      processingQuestion = False, textbookWindowId = None, aiWindowId = None,
      currentWebsiteUrl = ''textbook'', injectedTabs = {}\<rparr>"

definition browserWith :: "(nat \<times> nat) list \<Rightarrow> (nat \<Rightarrow> bool) \<Rightarrow> string bg_env" where
  "browserWith geminiTabs responsive =
     \<lparr>syncWebsiteUrl = None, localWebsiteUrl = None, syncAiModel = Some ''gemini'',
      queryTabs = (\<lambda>pattern.
         if pattern = ''https://learning.textbook.com/*'' then Some [(5, 1)]
         else if pattern = ''https://gemini.google.com/*'' then Some geminiTabs
         else Some []),
      delivers = (\<lambda>tab msg k. responsive tab),
      tabExists = (\<lambda>tab. True),
      executeScript = (\<lambda>tab. True)\<rparr>"

text \<open>
  The variables of an adapter as its script initialises them, and \<^verbatim>\<open>JSON.parse\<close> on the
  texts of the scenarios: three texts are valid JSON, every other text used there is not.
\<close>

definition idleAdapter :: adapter_state where
  "idleAdapter =
     \<lparr>hasResponded = False, messageCountAtQuestion = 0, observationStartTime = 0,
      observationTimeout = None, checkIntervalId = False, observer = False, sendPending = 0\<rparr>"

definition exampleParse :: "string \<Rightarrow> json option" where
  "exampleParse text =
     (if text = ''{\"answer\":\"B\",\"explanation\":\"x\"}''
        then Some (JObj [(''answer'', JStr ''B''), (''explanation'', JStr ''x'')])
      else if text = ''{\"answer\":[]}'' then Some (JObj [(''answer'', JArr [])])
      else if text = ''{\"answer\":\"B\"}'' then Some (JObj [(''answer'', JStr ''B'')])
      else None)"

text \<open>
  A multiple-choice question on the page, and the variables of the education script
  before anything was graded.
\<close>

definition examplePage :: page where
  "examplePage =
     \<lparr>topicOverview = False, forcedLearning = False, probeContainer = True,
      forcedLearningInProbe = False, typeMultipleChoice = True, typeTrueFalse = False,
      typeMultipleSelect = False, typeFillInTheBlank = False, typeMatching = False,
      promptText = ''Which city hosts the Louvre?'', optionTexts = [''Paris'', ''Rome''],
      matchPrompts = [], matchChoices = [], fitbInputs = [],
      choices =
        [\<lparr>inputKind = Radio, groupName = ''q'', choiceText = Some ''Paris'', isDisabled = False,
          isChecked = False\<rparr>,
         \<lparr>inputKind = Radio, groupName = ''q'', choiceText = Some ''Rome'', isDisabled = False,
          isChecked = False\<rparr>]\<rparr>"

definition initialEdu :: edu_state where
  "initialEdu =
     \<lparr>isAutomating = True, lastIncorrectQuestion = None, lastCorrectAnswer = None,
      countdownElement = None\<rparr>"

subsection \<open>Auxiliary notions for the proofs about choice selection\<close>

text \<open>The part of an input that a click never changes.\<close>

definition shape :: "choice_input \<Rightarrow> input_kind \<times> string \<times> string option \<times> bool" where
  "shape c = (inputKind c, groupName c, choiceText c, isDisabled c)"

text \<open>The callback clicks the input and the input is enabled, so the click acts.\<close>

definition effective :: "string list \<Rightarrow> choice_input \<Rightarrow> bool" where
  "effective answers c \<longleftrightarrow> reachesClick answers c \<and> \<not> isDisabled c"

subsection \<open>Auxiliary notions for the proofs about the DeepSeek adapter\<close>

text \<open>The two ways in which \<^verbatim>\<open>checkForResponse\<close> sends a response.\<close>

definition directResult ::
  "(string \<Rightarrow> json option) \<Rightarrow> adapter_state \<Rightarrow> adapter_state \<times> response_message list \<Rightarrow> bool" where
  "directResult p st r \<longleftrightarrow>
     \<not> hasResponded st \<and>
     (\<exists>e parsed. p e = Some parsed \<and> truthy parsed \<and> truthyProperty (answerProperty parsed) \<and>
        r = (st\<lparr>hasResponded := True, sendPending := Suc (sendPending st)\<rparr>, [DeepseekResponse e]))"

definition fallbackResult ::
  "deepseek_message list \<Rightarrow> nat \<Rightarrow> adapter_state \<Rightarrow> adapter_state \<times> response_message list \<Rightarrow> bool" where
  "fallbackResult ms now st r \<longleftrightarrow>
     \<not> hasResponded st \<and> 30000 < now - observationStartTime st \<and>
     (\<exists>m \<in> set ms. \<exists>t. matchJsonPattern (messageText m) = Some t \<and>
        r = (resetObservation (st\<lparr>hasResponded := True\<rparr>), [DeepseekResponse t]))"


section \<open>Properties\<close>

subsection \<open>Option matching\<close>

lemma stripTrailingPeriod_append_period [simp]:
  "stripTrailingPeriod (s @ ''.'') = s"
  by (simp add: stripTrailingPeriod_def)

lemma stripTrailingPeriod_no_period:
  "s = [] \<or> last s \<noteq> CHR ''.'' \<Longrightarrow> stripTrailingPeriod s = s"
  by (auto simp: stripTrailingPeriod_def)

lemma stripTrailingPeriod_cases:
  "stripTrailingPeriod s = t \<longleftrightarrow>
     s = t @ ''.'' \<or> (s = t \<and> (s = [] \<or> last s \<noteq> CHR ''.''))"
  by (cases s rule: rev_cases) (auto simp: stripTrailingPeriod_def)

text \<open>
  C3.  For all option text \<open>O\<close> and candidate answer \<open>A\<close>, the predicate that decides
  whether an option is selected holds exactly when \<open>O\<close> equals \<open>A\<close>, or \<open>O\<close> and \<open>A\<close>
  are equal once one trailing full stop is removed from each, or \<open>O\<close> equals \<open>A\<close> with
  a full stop appended.  Removing one trailing full stop from a text gives \<open>t\<close> exactly
  when the text is \<open>t\<close> followed by a full stop, or is \<open>t\<close> and does not end in a full
  stop.  So the pairs that match are: equal texts, an option that is the answer with one
  more full stop, and an answer that is the option with one full stop added where the
  option has none at its end.  No other pair of texts matches.
\<close>

theorem matchesAnswer_iff:
  "(matchesAnswer O' A \<longleftrightarrow>
     (O' = A
      \<or> stripTrailingPeriod O' = stripTrailingPeriod A
      \<or> O' = A @ ''.''))
   \<and> (stripTrailingPeriod s = t \<longleftrightarrow>
        s = t @ ''.'' \<or> (s = t \<and> (s = [] \<or> last s \<noteq> CHR ''.'')))
   \<and> (matchesAnswer O' A \<longleftrightarrow>
        O' = A \<or> O' = A @ ''.'' \<or> (A = O' @ ''.'' \<and> (O' = [] \<or> last O' \<noteq> CHR ''.'')))"
proof -
  have rules: "matchesAnswer O' A \<longleftrightarrow>
     (O' = A \<or> stripTrailingPeriod O' = stripTrailingPeriod A \<or> O' = A @ ''.'')"
    by (simp add: matchesAnswer_def Let_def)
  have strip: "stripTrailingPeriod s = t \<longleftrightarrow>
        s = t @ ''.'' \<or> (s = t \<and> (s = [] \<or> last s \<noteq> CHR ''.''))"
    by (rule stripTrailingPeriod_cases)
  have same: "stripTrailingPeriod O' = stripTrailingPeriod A \<longleftrightarrow>
      (O' = A \<or> (O' = A @ ''.'' \<and> (A = [] \<or> last A \<noteq> CHR ''.''))
        \<or> (A = O' @ ''.'' \<and> (O' = [] \<or> last O' \<noteq> CHR ''.'')))"
  proof (cases "O' \<noteq> [] \<and> last O' = CHR ''.''")
    case True
    then obtain o' where o': "O' = o' @ ''.''" by (metis append_butlast_last_id)
    show ?thesis
    proof (cases "A \<noteq> [] \<and> last A = CHR ''.''")
      case True
      then obtain a where a: "A = a @ ''.''" by (metis append_butlast_last_id)
      show ?thesis unfolding o' a by simp
    next
      case False
      then show ?thesis unfolding o' by (auto simp: stripTrailingPeriod_no_period)
    qed
  next
    case no: False
    show ?thesis
    proof (cases "A \<noteq> [] \<and> last A = CHR ''.''")
      case True
      then obtain a where a: "A = a @ ''.''" by (metis append_butlast_last_id)
      show ?thesis unfolding a using no by (auto simp: stripTrailingPeriod_no_period)
    next
      case False
      then show ?thesis using no by (auto simp: stripTrailingPeriod_no_period)
    qed
  qed
  have closed: "matchesAnswer O' A \<longleftrightarrow>
        O' = A \<or> O' = A @ ''.'' \<or> (A = O' @ ''.'' \<and> (O' = [] \<or> last O' \<noteq> CHR ''.''))"
    unfolding rules same by blast
  show ?thesis using rules strip closed by blast
qed

theorem matchesAnswer_iff_witness:
  "matchesAnswer ''Paris'' ''Paris''
   \<and> matchesAnswer ''Paris.'' ''Paris''
   \<and> matchesAnswer ''Paris'' ''Paris.''
   \<and> matchesAnswer ''Paris..'' ''Paris.''
   \<and> \<not> matchesAnswer ''Paris.'' ''Paris..''
   \<and> \<not> matchesAnswer ''Paris'' ''Rome''
   \<and> \<not> matchesAnswer ''Paris'' ''paris''
   \<and> stripTrailingPeriod ''Paris.'' = ''Paris''
   \<and> stripTrailingPeriod ''Paris..'' = ''Paris.''
   \<and> stripTrailingPeriod ''Paris'' = ''Paris''"
  using matchesAnswer_iff [of "''Paris''" "''Paris''" "''Paris.''" "''Paris''"]
    matchesAnswer_iff [of "''Paris.''" "''Paris''" "''Paris..''" "''Paris.''"]
    matchesAnswer_iff [of "''Paris''" "''Paris.''" "''Paris''" "''Paris''"]
    matchesAnswer_iff [of "''Paris..''" "''Paris.''" "''Paris''" "''Paris''"]
    matchesAnswer_iff [of "''Paris.''" "''Paris..''" "''Paris''" "''Paris''"]
    matchesAnswer_iff [of "''Paris''" "''Rome''" "''Paris''" "''Paris''"]
    matchesAnswer_iff [of "''Paris''" "''paris''" "''Paris''" "''Paris''"]
  by (simp add: stripTrailingPeriod_def)

subsection \<open>Choice selection\<close>

lemma length_click [simp]: "length (click i cs) = length cs"
  by (simp add: click_def Let_def split: input_kind.splits)

lemma shape_upd [simp]: "shape (c\<lparr>isChecked := b\<rparr>) = shape c"
  by (simp add: shape_def)

lemma sameRadioGroup_shape: "shape a = shape a' \<Longrightarrow> shape b = shape b' \<Longrightarrow> sameRadioGroup a b = sameRadioGroup a' b'"
  by (auto simp: shape_def sameRadioGroup_def)

lemma nth_click:
  "k < length cs \<Longrightarrow> click i cs ! k =
     (if i < length cs \<and> \<not> isDisabled (cs ! i) then
        (case inputKind (cs ! i) of
           Checkbox \<Rightarrow> if k = i then (cs ! k)\<lparr>isChecked := \<not> isChecked (cs ! k)\<rparr> else cs ! k
         | Radio \<Rightarrow> if k = i then (cs ! k)\<lparr>isChecked := True\<rparr>
                    else if sameRadioGroup (cs ! i) (cs ! k) then (cs ! k)\<lparr>isChecked := False\<rparr>
                    else cs ! k)
      else cs ! k)"
  by (auto simp: click_def Let_def nth_enumerate_eq split: input_kind.splits)

lemma shape_click: "map shape (click i cs) = map shape cs"
  by (rule nth_equalityI) (auto simp: nth_click split: input_kind.splits)

lemma reachesClick_shape: "shape a = shape b \<Longrightarrow> reachesClick answers a = reachesClick answers b"
  by (simp add: reachesClick_def shape_def)

lemma selectChoice_eq:
  "selectChoice answers i cs = (if reachesClick answers (cs ! i) then click i cs else cs)"
  by (simp add: selectChoice_def reachesClick_def split: option.splits)

lemma shape_selectChoice: "map shape (selectChoice answers i cs) = map shape cs"
  by (simp add: selectChoice_eq shape_click)

lemma length_selectChoice [simp]: "length (selectChoice answers i cs) = length cs"
  by (simp add: selectChoice_eq)

lemma shape_fold_selectChoice: "map shape (fold (selectChoice answers) is cs) = map shape cs"
  by (induction "is" arbitrary: cs) (simp_all add: shape_selectChoice)

lemma fold_absorb:
  assumes inv: "\<And>i s. I s \<Longrightarrow> I (f i s)"
    and idem: "\<And>s. I s \<Longrightarrow> f x (f x s) = f x s"
    and dich: "\<And>j. j \<in> set ys \<Longrightarrow>
                 (\<forall>s. I s \<longrightarrow> f x (f j s) = f x s) \<or> (\<forall>s. I s \<longrightarrow> f x (f j s) = f j (f x s))"
    and s: "I s"
  shows "f x (fold f ys (f x s)) = f x (fold f ys s)"
  using dich
proof (induction ys rule: rev_induct)
  case Nil
  show ?case using idem [OF s] by simp
next
  case (snoc y ys)
  have invf: "\<And>zs t. I t \<Longrightarrow> I (fold f zs t)"
  proof -
    fix zs t show "I t \<Longrightarrow> I (fold f zs t)"
      by (induction zs arbitrary: t) (simp_all add: inv)
  qed
  have IH: "f x (fold f ys (f x s)) = f x (fold f ys s)"
    using snoc by simp
  have I1: "I (fold f ys (f x s))" and I2: "I (fold f ys s)"
    using s inv invf by blast+
  from snoc.prems [of y]
  consider (absorb) "\<forall>s. I s \<longrightarrow> f x (f y s) = f x s"
    | (commute) "\<forall>s. I s \<longrightarrow> f x (f y s) = f y (f x s)"
    by auto
  then show ?case
  proof cases
    case absorb
    then show ?thesis using IH I1 I2 by simp
  next
    case commute
    then show ?thesis using IH I1 I2 by simp
  qed
qed

lemma fold_idem:
  assumes inv: "\<And>i s. I s \<Longrightarrow> I (f i s)"
    and idem: "\<And>i s. i \<in> set xs \<Longrightarrow> I s \<Longrightarrow> f i (f i s) = f i s"
    and dich: "\<And>i j. i \<in> set xs \<Longrightarrow> j \<in> set xs \<Longrightarrow>
                 (\<forall>s. I s \<longrightarrow> f i (f j s) = f i s) \<or> (\<forall>s. I s \<longrightarrow> f i (f j s) = f j (f i s))"
    and s: "I s"
  shows "fold f xs (fold f xs s) = fold f xs s"
  using idem dich
proof (induction xs rule: rev_induct)
  case Nil
  show ?case by simp
next
  case (snoc x xs)
  have invf: "\<And>zs t. I t \<Longrightarrow> I (fold f zs t)"
  proof -
    fix zs t show "I t \<Longrightarrow> I (fold f zs t)"
      by (induction zs arbitrary: t) (simp_all add: inv)
  qed
  have IH: "fold f xs (fold f xs s) = fold f xs s"
    using snoc by simp
  have "f x (fold f xs (f x (fold f xs s))) = f x (fold f xs (fold f xs s))"
    by (rule fold_absorb [where I = I]) (use inv snoc.prems s invf in auto)
  then show ?case using IH by simp
qed


lemma nth_shape: "map shape s = map shape cs \<Longrightarrow> k < length cs \<Longrightarrow> shape (s ! k) = shape (cs ! k)"
  by (metis length_map nth_map)

lemma shape_fields:
  "shape a = shape b \<Longrightarrow>
     inputKind a = inputKind b \<and> groupName a = groupName b \<and> choiceText a = choiceText b \<and> isDisabled a = isDisabled b"
  by (simp add: shape_def)

lemma checked_twice [simp]: "(c\<lparr>isChecked := a\<rparr>)\<lparr>isChecked := b\<rparr> = c\<lparr>isChecked := b\<rparr>"
  by simp

lemma shape_nth_click: "k < length s \<Longrightarrow> shape (click i s ! k) = shape (s ! k)"
  using shape_click [of i s] by (metis length_click length_map nth_map)

lemma kind_nth_click [simp]: "k < length s \<Longrightarrow> inputKind (click i s ! k) = inputKind (s ! k)"
  using shape_nth_click [of k s i] by (simp add: shape_def)

lemma disabled_nth_click [simp]: "k < length s \<Longrightarrow> isDisabled (click i s ! k) = isDisabled (s ! k)"
  using shape_nth_click [of k s i] by (simp add: shape_def)

lemma text_nth_click [simp]: "k < length s \<Longrightarrow> choiceText (click i s ! k) = choiceText (s ! k)"
  using shape_nth_click [of k s i] by (simp add: shape_def)

lemma group_nth_click [simp]:
  "k < length s \<Longrightarrow> l < length s \<Longrightarrow>
     sameRadioGroup (click i s ! k) (click i s ! l) = sameRadioGroup (s ! k) (s ! l)"
  by (rule sameRadioGroup_shape) (simp_all add: shape_nth_click)

lemma sameRadioGroup_upd [simp]:
  "sameRadioGroup (a\<lparr>isChecked := b\<rparr>) c = sameRadioGroup a c"
  "sameRadioGroup a (c\<lparr>isChecked := b\<rparr>) = sameRadioGroup a c"
  by (simp_all add: sameRadioGroup_def)

lemma sameRadioGroup_trans:
  "sameRadioGroup a c \<Longrightarrow> sameRadioGroup b c \<Longrightarrow> sameRadioGroup a b"
  by (auto simp: sameRadioGroup_def)

lemma sameRadioGroup_trans2:
  "sameRadioGroup a b \<Longrightarrow> sameRadioGroup b c \<Longrightarrow> sameRadioGroup a c"
  by (auto simp: sameRadioGroup_def)

lemma sameRadioGroup_sym: "sameRadioGroup a b \<Longrightarrow> sameRadioGroup b a"
  by (auto simp: sameRadioGroup_def)

lemma nth_click_radio:
  "i < length s \<Longrightarrow> k < length s \<Longrightarrow> inputKind (s ! i) = Radio \<Longrightarrow> \<not> isDisabled (s ! i) \<Longrightarrow>
   click i s ! k =
     (if k = i then (s ! k)\<lparr>isChecked := True\<rparr>
      else if sameRadioGroup (s ! i) (s ! k) then (s ! k)\<lparr>isChecked := False\<rparr>
      else s ! k)"
  by (simp add: nth_click)

lemma click_disabled: "i < length s \<Longrightarrow> isDisabled (s ! i) \<Longrightarrow> click i s = s"
  by (simp add: click_def)

lemma click_radio_idem:
  assumes "i < length s" "inputKind (s ! i) = Radio"
  shows "click i (click i s) = click i s"
proof (cases "isDisabled (s ! i)")
  case True
  then show ?thesis using assms by (simp add: click_disabled)
next
  case False
  show ?thesis
  proof (rule nth_equalityI)
    show "length (click i (click i s)) = length (click i s)" by simp
  next
    fix k assume "k < length (click i (click i s))"
    then have k: "k < length s" by simp
    show "click i (click i s) ! k = click i s ! k"
      using assms False k by (simp add: nth_click_radio)
  qed
qed

lemma click_radio_absorb:
  assumes "i < length s" "j < length s" "inputKind (s ! i) = Radio" "inputKind (s ! j) = Radio"
    "sameRadioGroup (s ! i) (s ! j)" "\<not> isDisabled (s ! i)"
  shows "click i (click j s) = click i s"
proof (cases "isDisabled (s ! j)")
  case True
  then show ?thesis using assms by (simp add: click_disabled)
next
  case False
  show ?thesis
  proof (rule nth_equalityI)
    show "length (click i (click j s)) = length (click i s)" by simp
  next
    fix k assume "k < length (click i (click j s))"
    then have k: "k < length s" by simp
    have *: "sameRadioGroup (s ! j) (s ! k) \<Longrightarrow> sameRadioGroup (s ! i) (s ! k)"
      using assms(5) sameRadioGroup_trans2 by blast
    show "click i (click j s) ! k = click i s ! k"
      using assms False k * by (simp add: nth_click_radio)
  qed
qed

lemma click_radio_commute:
  assumes "i < length s" "j < length s" "inputKind (s ! i) = Radio" "inputKind (s ! j) = Radio"
    "\<not> sameRadioGroup (s ! i) (s ! j)" "i \<noteq> j"
  shows "click i (click j s) = click j (click i s)"
proof (cases "isDisabled (s ! i) \<or> isDisabled (s ! j)")
  case True
  then show ?thesis using assms by (auto simp: click_disabled)
next
  case False
  show ?thesis
  proof (rule nth_equalityI)
    show "length (click i (click j s)) = length (click j (click i s))" by simp
  next
    fix k assume "k < length (click i (click j s))"
    then have k: "k < length s" by simp
    have *: "\<not> (sameRadioGroup (s ! i) (s ! k) \<and> sameRadioGroup (s ! j) (s ! k))"
      using assms(5) sameRadioGroup_trans by blast
    have **: "\<not> sameRadioGroup (s ! j) (s ! i)"
      using assms(5) sameRadioGroup_sym by blast
    show "click i (click j s) ! k = click j (click i s) ! k"
      using assms False k * ** by (auto simp: nth_click_radio)
  qed
qed


lemma effective_shape: "shape a = shape b \<Longrightarrow> effective answers a = effective answers b"
  by (simp add: effective_def reachesClick_def shape_def)

lemma selectChoice_ineffective:
  "i < length s \<Longrightarrow> \<not> effective answers (s ! i) \<Longrightarrow> selectChoice answers i s = s"
  by (auto simp: selectChoice_eq effective_def click_disabled)

lemma selectChoice_effective:
  "effective answers (s ! i) \<Longrightarrow> selectChoice answers i s = click i s"
  by (auto simp: selectChoice_eq effective_def)

lemma selectChoices_idem_general:
  assumes H: "\<forall>c \<in> set cs. reachesClick answers c \<and> \<not> isDisabled c \<longrightarrow> inputKind c = Radio"
  shows "selectChoices answers (selectChoices answers cs) = selectChoices answers cs"
proof -
  define I where "I s \<longleftrightarrow> map shape s = map shape cs" for s
  define f where "f = selectChoice answers"
  have len: "\<And>s. I s \<Longrightarrow> length s = length cs"
    unfolding I_def by (metis length_map)
  have sh: "\<And>s k. I s \<Longrightarrow> k < length cs \<Longrightarrow> shape (s ! k) = shape (cs ! k)"
    unfolding I_def by (metis length_map nth_map)
  have inv: "\<And>i s. I s \<Longrightarrow> I (f i s)"
    unfolding I_def f_def by (simp add: shape_selectChoice)
  have eff: "\<And>s k. I s \<Longrightarrow> k < length cs \<Longrightarrow> effective answers (s ! k) = effective answers (cs ! k)"
    using sh effective_shape by blast
  have kind: "\<And>s k. I s \<Longrightarrow> k < length cs \<Longrightarrow> inputKind (s ! k) = inputKind (cs ! k)"
    using sh shape_fields by blast
  have grpeq: "\<And>s k l. I s \<Longrightarrow> k < length cs \<Longrightarrow> l < length cs \<Longrightarrow>
      sameRadioGroup (s ! k) (s ! l) = sameRadioGroup (cs ! k) (cs ! l)"
    using sh sameRadioGroup_shape by blast
  have radio: "\<And>k. k < length cs \<Longrightarrow> effective answers (cs ! k) \<Longrightarrow> inputKind (cs ! k) = Radio"
    using H by (auto simp: effective_def)
  have noop: "\<And>s k. I s \<Longrightarrow> k < length cs \<Longrightarrow> \<not> effective answers (cs ! k) \<Longrightarrow> f k s = s"
    unfolding f_def using eff len selectChoice_ineffective by metis
  have act: "\<And>s k. I s \<Longrightarrow> k < length cs \<Longrightarrow> effective answers (cs ! k) \<Longrightarrow> f k s = click k s"
    unfolding f_def using eff selectChoice_effective by metis
  have idem: "f i (f i s) = f i s" if "i \<in> set [0..<length cs]" "I s" for i s
  proof (cases "effective answers (cs ! i)")
    case False
    then show ?thesis using that noop inv by simp
  next
    case True
    have i: "i < length cs" using that by simp
    have "click i (click i s) = click i s"
      using click_radio_idem [of i s] i len [OF that(2)] kind [OF that(2) i] radio [OF i True] by simp
    moreover have "f i s = click i s" using act that(2) i True by simp
    moreover have "f i (click i s) = click i (click i s)"
      using act [of "f i s" i] inv [OF that(2), of i] i True calculation by simp
    ultimately show ?thesis by simp
  qed
  have dich: "(\<forall>s. I s \<longrightarrow> f i (f j s) = f i s) \<or> (\<forall>s. I s \<longrightarrow> f i (f j s) = f j (f i s))"
    if "i \<in> set [0..<length cs]" "j \<in> set [0..<length cs]" for i j
  proof -
    have i: "i < length cs" and j: "j < length cs" using that by simp_all
    consider (jno) "\<not> effective answers (cs ! j)"
      | (ino) "\<not> effective answers (cs ! i)"
      | (same) "effective answers (cs ! i)" "effective answers (cs ! j)" "i = j"
      | (grp) "effective answers (cs ! i)" "effective answers (cs ! j)" "sameRadioGroup (cs ! i) (cs ! j)"
      | (diff) "effective answers (cs ! i)" "effective answers (cs ! j)" "i \<noteq> j"
          "\<not> sameRadioGroup (cs ! i) (cs ! j)"
      by blast
    then show ?thesis
    proof cases
      case jno
      then show ?thesis using noop j by simp
    next
      case ino
      then show ?thesis using noop i inv by simp
    next
      case same
      then show ?thesis using idem that by simp
    next
      case grp
      have "f i (f j s) = f i s" if s: "I s" for s
      proof -
        have "click i (click j s) = click i s"
          using click_radio_absorb [of i s j] i j len [OF s] kind [OF s] radio grp grpeq [OF s i j] eff [OF s i]
          by (simp add: effective_def)
        moreover have "f j s = click j s" "f i s = click i s" using act s i j grp by simp_all
        moreover have "f i (f j s) = click i (f j s)" using act [OF inv [OF s]] i grp by simp
        ultimately show ?thesis by simp
      qed
      then show ?thesis by simp
    next
      case diff
      have "f i (f j s) = f j (f i s)" if s: "I s" for s
      proof -
        have "click i (click j s) = click j (click i s)"
          using click_radio_commute [of i s j] i j len [OF s] kind [OF s] radio diff grpeq [OF s i j]
          by simp
        moreover have "f j s = click j s" "f i s = click i s" using act s i j diff by simp_all
        moreover have "f i (f j s) = click i (f j s)" "f j (f i s) = click j (f i s)"
          using act [OF inv [OF s]] i j diff by simp_all
        ultimately show ?thesis by simp
      qed
      then show ?thesis by simp
    qed
  qed
  have "I cs" by (simp add: I_def)
  have "fold f [0..<length cs] (fold f [0..<length cs] cs) = fold f [0..<length cs] cs"
    by (rule fold_idem [where I = I]) (use inv idem dich \<open>I cs\<close> in auto)
  moreover have "length (fold f [0..<length cs] cs) = length cs"
    using shape_fold_selectChoice [of answers "[0..<length cs]" cs] unfolding f_def by (metis length_map)
  ultimately show ?thesis by (simp add: selectChoices_def f_def)
qed

lemma click_other_checkbox:
  assumes "k < length s" "inputKind (s ! k) = Checkbox" "x \<noteq> k"
  shows "click x s ! k = s ! k"
  using assms by (auto simp: nth_click sameRadioGroup_def split: input_kind.splits)

lemma click_self_checkbox:
  assumes "k < length s" "inputKind (s ! k) = Checkbox" "\<not> isDisabled (s ! k)"
  shows "click k s ! k = (s ! k)\<lparr>isChecked := \<not> isChecked (s ! k)\<rparr>"
  using assms by (simp add: nth_click)

lemma fold_selectChoice_checkbox:
  assumes "k < length s" "inputKind (s ! k) = Checkbox" "distinct is"
  shows "isChecked (fold (selectChoice answers) is s ! k) =
     (if k \<in> set is \<and> effective answers (s ! k) then \<not> isChecked (s ! k) else isChecked (s ! k))"
  using assms
proof (induction "is" arbitrary: s)
  case Nil
  then show ?case by simp
next
  case (Cons x xs)
  let ?s' = "selectChoice answers x s"
  have len: "length ?s' = length s" by simp
  have shp: "shape (?s' ! k) = shape (s ! k)"
    using shape_selectChoice [of answers x s] Cons.prems(1) by (metis length_map nth_map len)
  have kind: "inputKind (?s' ! k) = Checkbox"
    using shp Cons.prems(2) by (simp add: shape_def)
  have eff: "effective answers (?s' ! k) = effective answers (s ! k)"
    using shp by (rule effective_shape)
  have IH: "isChecked (fold (selectChoice answers) xs ?s' ! k) =
     (if k \<in> set xs \<and> effective answers (?s' ! k) then \<not> isChecked (?s' ! k) else isChecked (?s' ! k))"
    using Cons.IH [of ?s'] Cons.prems kind by simp
  show ?case
  proof (cases "x = k")
    case True
    then have notin: "k \<notin> set xs" using Cons.prems(3) by simp
    show ?thesis
    proof (cases "effective answers (s ! k)")
      case True
      then have "?s' ! k = (s ! k)\<lparr>isChecked := \<not> isChecked (s ! k)\<rparr>"
        using \<open>x = k\<close> Cons.prems
        by (simp add: selectChoice_effective click_self_checkbox effective_def)
      then show ?thesis using IH notin True \<open>x = k\<close> by simp
    next
      case False
      then have "?s' = s"
        using \<open>x = k\<close> Cons.prems(1) by (simp add: selectChoice_ineffective)
      then show ?thesis using IH notin False \<open>x = k\<close> by simp
    qed
  next
    case False
    have "?s' ! k = s ! k"
      using False Cons.prems(1,2) by (simp add: selectChoice_eq click_other_checkbox)
    then show ?thesis using IH False eff by simp
  qed
qed

lemma selectChoices_checkbox:
  assumes "k < length cs" "inputKind (cs ! k) = Checkbox"
  shows "isChecked (selectChoices answers cs ! k) =
     (if reachesClick answers (cs ! k) \<and> \<not> isDisabled (cs ! k) then \<not> isChecked (cs ! k)
      else isChecked (cs ! k))"
  using fold_selectChoice_checkbox [of k cs "[0..<length cs]" answers] assms
  by (simp add: selectChoices_def effective_def)

lemma selectChoices_eval_simps:
  "selectChoices answers [] = []"
  "selectChoices answers [a] = selectChoice answers 0 [a]"
  "selectChoices answers [a, b] = selectChoice answers 1 (selectChoice answers 0 [a, b])"
  by (simp_all add: selectChoices_def upt_rec)

text \<open>
  C4 (as stated).  A checkbox that the payload selects and that a first run of the
  selection step has checked is unchecked again by a second run with the same payload:
  the step calls \<^verbatim>\<open>click()\<close> on every matching input without looking at its state.
\<close>

theorem selectChoices_checkbox_counterexample:
  "map isChecked (selectChoices [''A'']
      [\<lparr>inputKind = Checkbox, groupName = [], choiceText = Some ''A'', isDisabled = False, isChecked = False\<rparr>])
     = [True]
   \<and> map isChecked (selectChoices [''A''] (selectChoices [''A'']
      [\<lparr>inputKind = Checkbox, groupName = [], choiceText = Some ''A'', isDisabled = False, isChecked = False\<rparr>]))
     = [False]"
  by (simp add: selectChoices_eval_simps selectChoice_def shouldBeSelected_def matchesAnswer_def
      stripTrailingPeriod_def click_def)

text \<open>
  C4 (amended).  When every choice input is a radio button, running the selection step a
  second time with the same payload leaves every input as the first run left it.  A
  checkbox is flipped by each run exactly when its text matches the payload and it is
  enabled, and keeps its state otherwise.
\<close>

theorem selectChoices_second_run:
  "((\<forall>c \<in> set cs. inputKind c = Radio) \<longrightarrow>
       selectChoices answers (selectChoices answers cs) = selectChoices answers cs)
   \<and> (\<forall>k < length cs. inputKind (cs ! k) = Checkbox \<longrightarrow>
         isChecked (selectChoices answers cs ! k) =
           (if reachesClick answers (cs ! k) \<and> \<not> isDisabled (cs ! k) then \<not> isChecked (cs ! k)
            else isChecked (cs ! k)))"
  using selectChoices_idem_general [of cs answers] selectChoices_checkbox [of _ cs answers]
  by auto

theorem selectChoices_second_run_witness:
  "selectChoices [''True'']
     (selectChoices [''True'']
        [\<lparr>inputKind = Radio, groupName = ''q1'', choiceText = Some ''True'', isDisabled = False, isChecked = False\<rparr>,
         \<lparr>inputKind = Radio, groupName = ''q1'', choiceText = Some ''False'', isDisabled = False, isChecked = True\<rparr>])
   = [\<lparr>inputKind = Radio, groupName = ''q1'', choiceText = Some ''True'', isDisabled = False, isChecked = True\<rparr>,
      \<lparr>inputKind = Radio, groupName = ''q1'', choiceText = Some ''False'', isDisabled = False, isChecked = False\<rparr>]
   \<and> isChecked (selectChoices [''A'']
        [\<lparr>inputKind = Checkbox, groupName = [], choiceText = Some ''A'', isDisabled = False, isChecked = False\<rparr>] ! 0)"
  using selectChoices_second_run
    [of "[\<lparr>inputKind = Radio, groupName = ''q1'', choiceText = Some ''True'', isDisabled = False, isChecked = False\<rparr>,
         \<lparr>inputKind = Radio, groupName = ''q1'', choiceText = Some ''False'', isDisabled = False, isChecked = True\<rparr>]"
        "[''True'']"]
    selectChoices_second_run
    [of "[\<lparr>inputKind = Checkbox, groupName = [], choiceText = Some ''A'', isDisabled = False, isChecked = False\<rparr>]"
        "[''A'']"]
  by (simp add: selectChoices_eval_simps selectChoice_def shouldBeSelected_def matchesAnswer_def
      stripTrailingPeriod_def click_def sameRadioGroup_def reachesClick_def enumerate_eq_zip upt_rec)

subsection \<open>Normalisation of the answer\<close>

text \<open>
  C10.  A reply whose \<^verbatim>\<open>answer\<close> is the single string \<open>s\<close> is applied exactly as a reply
  whose \<^verbatim>\<open>answer\<close> is the one-element array \<open>[s]\<close>: the same variables, the same page
  (blanks, selected options), the same alert and input events, and the same decision to
  go on to the confidence button.
\<close>

theorem processChatGPTResponse_single_eq_array:
  "processChatGPTResponse (Some (Single s)) st pg = processChatGPTResponse (Some (Many [s])) st pg"
  by (simp add: processChatGPTResponse_def answersOf_def Let_def)

subsection \<open>Delay bounds\<close>

lemma grd_clamp: "mx < mn \<Longrightarrow> generateRandomDelay mn mx r = generateRandomDelay mx mx r"
  by (auto simp: generateRandomDelay_def Let_def)

lemma grd_lower: "0 \<le> r \<Longrightarrow> mn \<le> mx \<Longrightarrow> 1000 * mn \<le> generateRandomDelay mn mx r"
  by (auto simp: generateRandomDelay_def Let_def intro!: mult_nonneg_nonneg)

lemma grd_upper:
  assumes "r < 1" "mn \<le> mx"
  shows "generateRandomDelay mn mx r \<le> 1000 * mx"
proof -
  let ?n = "mx * 1000 - mn * 1000 + 1"
  have n: "0 < real_of_int ?n" using assms by simp
  then have "r * real_of_int ?n < real_of_int ?n" using assms(1) by simp
  then have "\<lfloor>r * real_of_int ?n\<rfloor> < ?n" unfolding floor_less_iff .
  then show ?thesis using assms by (auto simp: generateRandomDelay_def Let_def)
qed

lemma grd_uniform:
  assumes "mn \<le> mx" "\<not> (mn = 0 \<and> mx = 0)"
  shows "generateRandomDelay mn mx r = 1000 * mn + k \<longleftrightarrow>
     real_of_int k \<le> r * real_of_int (1000 * (mx - mn) + 1) \<and> r * real_of_int (1000 * (mx - mn) + 1) < real_of_int k + 1"
proof -
  have e: "mx * 1000 - mn * 1000 + 1 = 1000 * (mx - mn) + 1" by simp
  have "generateRandomDelay mn mx r = \<lfloor>r * real_of_int (1000 * (mx - mn) + 1)\<rfloor> + 1000 * mn"
    using assms by (auto simp: generateRandomDelay_def Let_def e)
  then show ?thesis by (auto simp: floor_eq_iff)
qed

lemma grd_same: "0 \<le> r \<Longrightarrow> r < 1 \<Longrightarrow> generateRandomDelay mx mx r = 1000 * mx"
  using grd_lower [of r mx mx] grd_upper [of r mx mx] by simp

text \<open>
  C6.  With \<^verbatim>\<open>Math.random()\<close> in \<open>[0, 1)\<close>: when both bounds are zero the delay is zero
  and the question is sent at once; when the minimum exceeds the maximum it is clamped to
  the maximum (the delay is then exactly the maximum); otherwise the delay, a whole number
  of milliseconds, lies between the minimum and the maximum (in seconds, that is between
  \<open>1000 * mn\<close> and \<open>1000 * mx\<close> milliseconds), and each of these values is produced on
  an interval of random numbers of the same width, so a uniform random number gives a
  uniform delay.
\<close>

theorem generateRandomDelay_within_bounds:
  assumes "0 \<le> rnd" "rnd < 1"
  shows "generateRandomDelay 0 0 rnd = 0
    \<and> applyRandomDelayIfEnabled (StorageData (Some 0) (Some 0)) rnd = SendNow
    \<and> (mx < mn \<longrightarrow> generateRandomDelay mn mx rnd = generateRandomDelay mx mx rnd
                  \<and> generateRandomDelay mn mx rnd = 1000 * mx)
    \<and> (mn \<le> mx \<longrightarrow> 1000 * mn \<le> generateRandomDelay mn mx rnd \<and> generateRandomDelay mn mx rnd \<le> 1000 * mx)
    \<and> (mn \<le> mx \<and> (mn \<noteq> 0 \<or> mx \<noteq> 0) \<longrightarrow>
         (\<forall>k. generateRandomDelay mn mx rnd = 1000 * mn + k \<longleftrightarrow>
              real_of_int k \<le> rnd * real_of_int (1000 * (mx - mn) + 1)
            \<and> rnd * real_of_int (1000 * (mx - mn) + 1) < real_of_int k + 1))"
proof -
  have "generateRandomDelay 0 0 rnd = 0" by (simp add: generateRandomDelay_def)
  moreover have "applyRandomDelayIfEnabled (StorageData (Some 0) (Some 0)) rnd = SendNow"
    by (simp add: applyRandomDelayIfEnabled_def)
  moreover have "mx < mn \<longrightarrow> generateRandomDelay mn mx rnd = generateRandomDelay mx mx rnd
                  \<and> generateRandomDelay mn mx rnd = 1000 * mx"
    using grd_clamp [of mx mn rnd] grd_same [OF assms, of mx] by simp
  moreover have "mn \<le> mx \<longrightarrow> 1000 * mn \<le> generateRandomDelay mn mx rnd \<and> generateRandomDelay mn mx rnd \<le> 1000 * mx"
    using grd_lower [OF assms(1)] grd_upper [OF assms(2)] by simp
  moreover have "mn \<le> mx \<and> (mn \<noteq> 0 \<or> mx \<noteq> 0) \<longrightarrow>
         (\<forall>k. generateRandomDelay mn mx rnd = 1000 * mn + k \<longleftrightarrow>
              real_of_int k \<le> rnd * real_of_int (1000 * (mx - mn) + 1)
            \<and> rnd * real_of_int (1000 * (mx - mn) + 1) < real_of_int k + 1)"
    using grd_uniform [of mn mx rnd] by blast
  ultimately show ?thesis by blast
qed

theorem generateRandomDelay_within_bounds_witness:
  "generateRandomDelay 22 97 (1 / 2) = 59500
   \<and> 1000 * 22 \<le> generateRandomDelay 22 97 (1 / 2) \<and> generateRandomDelay 22 97 (1 / 2) \<le> 1000 * 97
   \<and> generateRandomDelay 10 5 (1 / 2) = 5000"
  using generateRandomDelay_within_bounds [of "1 / 2" 97 22] generateRandomDelay_within_bounds [of "1 / 2" 5 10]
  by (simp add: generateRandomDelay_def)

subsection \<open>Relaying a question\<close>

lemma attemptSend_three:
  "attemptSend env t m 3 0 =
     (if delivers env t m 1 then (True, [SendAttempt t m True])
      else if delivers env t m 2 then (True, [SendAttempt t m False, SendAttempt t m True])
      else if delivers env t m 3
        then (True, [SendAttempt t m False, SendAttempt t m False, SendAttempt t m True])
      else (False, [SendAttempt t m False, SendAttempt t m False, SendAttempt t m False]))"
proof -
  have a2: "attemptSend env t m 3 (Suc (Suc 0)) =
      (if delivers env t m (Suc (Suc (Suc 0))) then (True, [SendAttempt t m True])
       else (False, [SendAttempt t m False]))"
    by (subst attemptSend.simps) (simp add: Let_def)
  have a1: "attemptSend env t m 3 (Suc 0) =
      (if delivers env t m (Suc (Suc 0)) then (True, [SendAttempt t m True])
       else if delivers env t m (Suc (Suc (Suc 0)))
         then (True, [SendAttempt t m False, SendAttempt t m True])
       else (False, [SendAttempt t m False, SendAttempt t m False]))"
    by (subst attemptSend.simps) (simp add: Let_def a2)
  have a0: "attemptSend env t m 3 0 =
     (if delivers env t m (Suc 0) then (True, [SendAttempt t m True])
      else if delivers env t m (Suc (Suc 0)) then (True, [SendAttempt t m False, SendAttempt t m True])
      else if delivers env t m (Suc (Suc (Suc 0)))
        then (True, [SendAttempt t m False, SendAttempt t m False, SendAttempt t m True])
      else (False, [SendAttempt t m False, SendAttempt t m False, SendAttempt t m False]))"
    by (subst attemptSend.simps) (simp add: Let_def a1)
  have n: "(2::nat) = Suc (Suc 0)" "(3::nat) = Suc (Suc (Suc 0))" by simp_all
  show ?thesis
    unfolding a0 by (simp only: n One_nat_def)
qed

lemma attemptSend_one:
  "attemptSend env t m (Suc 0) 0 =
     (if delivers env t m (Suc 0) then (True, [SendAttempt t m True])
      else (False, [SendAttempt t m False]))"
  by (subst attemptSend.simps) (simp add: Let_def)

lemma alertsRaised_append: "alertsRaised (xs @ ys) = alertsRaised xs @ alertsRaised ys"
  by (induction xs rule: alertsRaised.induct) simp_all

lemma questionAttempts_append: "questionAttempts (xs @ ys) = questionAttempts xs @ questionAttempts ys"
  by (induction xs rule: questionAttempts.induct) simp_all

lemma tabsFocused_append: "tabsFocused (xs @ ys) = tabsFocused xs @ tabsFocused ys"
  by (induction xs rule: tabsFocused.induct) simp_all

lemma messagesSent_append: "messagesSent (xs @ ys) = messagesSent xs @ messagesSent ys"
  by (induction xs rule: messagesSent.induct) simp_all

lemma scriptsInjected_append: "scriptsInjected (xs @ ys) = scriptsInjected xs @ scriptsInjected ys"
  by (induction xs rule: scriptsInjected.induct) simp_all

lemmas observers_append =
  alertsRaised_append questionAttempts_append tabsFocused_append messagesSent_append
  scriptsInjected_append

lemma injectContentScript_state:
  "fst (injectContentScript env t st) = st\<lparr>injectedTabs := injectedTabs (fst (injectContentScript env t st))\<rparr>"
  by (simp add: injectContentScript_def sendMessageWithRetry_def attemptSend_one Let_def)

lemma injectContentScript_effects:
  "alertsRaised (snd (injectContentScript env t st)) = []"
  "questionAttempts (snd (injectContentScript env t st)) = []"
  "tabsFocused (snd (injectContentScript env t st)) = []"
  "messagesSent (snd (injectContentScript env t st)) =
     (if tabExists env t \<and> t \<in> injectedTabs st then [(t, Ping)] else [])"
  "set (scriptsInjected (snd (injectContentScript env t st))) \<subseteq> {t}"
  by (simp_all add: injectContentScript_def sendMessageWithRetry_def attemptSend_one Let_def)



lemma injectContentScript_fields [simp]:
  "processingQuestion (fst (injectContentScript env t st)) = processingQuestion st"
  "textbookTabId (fst (injectContentScript env t st)) = textbookTabId st"
  "textbookWindowId (fst (injectContentScript env t st)) = textbookWindowId st"
  "aiTabId (fst (injectContentScript env t st)) = aiTabId st"
  "aiWindowId (fst (injectContentScript env t st)) = aiWindowId st"
  "aiType (fst (injectContentScript env t st)) = aiType st"
  "lastActiveTabId (fst (injectContentScript env t st)) = lastActiveTabId st"
  "currentWebsiteUrl (fst (injectContentScript env t st)) = currentWebsiteUrl st"
  by (simp_all add: injectContentScript_def sendMessageWithRetry_def attemptSend_one Let_def)

lemma findAndStoreTabs_effects:
  "alertsRaised (runEffects (findAndStoreTabs env st)) = []
   \<and> questionAttempts (runEffects (findAndStoreTabs env st)) = []
   \<and> tabsFocused (runEffects (findAndStoreTabs env st)) = []"
  by (simp add: findAndStoreTabs_def Let_def case_prod_beta observers_append
      injectContentScript_effects split: option.splits list.splits)

lemma findAndStoreTabs_aiType:
  "runEnd (findAndStoreTabs env st) = Returned \<Longrightarrow>
   aiType (runState (findAndStoreTabs env st)) =
     Some (case truthyString (syncAiModel env) of Some m \<Rightarrow> m | None \<Rightarrow> ''chatgpt'')"
  by (simp add: findAndStoreTabs_def Let_def case_prod_beta split: option.splits list.splits)

lemma findAndStoreTabs_flag:
  "processingQuestion (runState (findAndStoreTabs env st)) = processingQuestion st"
  by (simp add: findAndStoreTabs_def Let_def case_prod_beta split: option.splits list.splits)


lemma findAndStoreTabs_url:
  "currentWebsiteUrl (runState (findAndStoreTabs env st)) =
     (case truthyString (syncWebsiteUrl env) of
        Some u \<Rightarrow> u
      | None \<Rightarrow> (case truthyString (localWebsiteUrl env) of Some u \<Rightarrow> u | None \<Rightarrow> ''textbook''))"
  by (simp add: findAndStoreTabs_def Let_def case_prod_beta split: option.splits list.splits)

lemma findAndStoreTabs_found:
  "queryTabs env (''https://learning.'' @ currentWebsiteUrl (runState (findAndStoreTabs env st)) @ ''.com/*'')
     = Some ((tid, wid) # others) \<Longrightarrow>
   textbookTabId (runState (findAndStoreTabs env st)) = Some tid"
  unfolding findAndStoreTabs_url
  by (simp add: findAndStoreTabs_def Let_def case_prod_beta split: option.splits list.splits)

lemma findAndStoreTabs_messages:
  "messagesSent (runEffects (findAndStoreTabs env st)) =
     (case queryTabs env (''https://learning.'' @ currentWebsiteUrl (runState (findAndStoreTabs env st)) @ ''.com/*'') of
        Some ((tid, wid) # others) \<Rightarrow>
          if tabExists env tid \<and> tid \<in> injectedTabs st then [(tid, Ping)] else []
      | _ \<Rightarrow> [])"
  unfolding findAndStoreTabs_url
  by (simp add: findAndStoreTabs_def Let_def case_prod_beta observers_append
      injectContentScript_effects split: option.splits list.splits)

lemma findAndStoreTabs_scripts:
  "set (scriptsInjected (runEffects (findAndStoreTabs env st)))
     \<subseteq> (case textbookTabId (runState (findAndStoreTabs env st)) of Some t \<Rightarrow> {t} | None \<Rightarrow> {})"
  using injectContentScript_effects(5) [of env]
  by (simp add: findAndStoreTabs_def Let_def case_prod_beta observers_append
      split: option.splits list.splits)


lemmas bg_eval =
  processQuestion_def processQuestionTry_def findAndStoreTabs_def injectContentScript_def
  browserWith_def initialState_def sendMessageWithRetry_def attemptSend_three attemptSend_one
  focusTab_def falsy_def truthyString_def aiUrlMap_def missingTabAlert_def
  communicationErrorAlert_def showAiType_def Let_def


lemma scenario_missing_tab:
  "processQuestion (browserWith [] (\<lambda>tab. True)) \<lparr>question = ''Q'', sourceTabId = Some 5\<rparr> initialState =
     \<lparr>runState = initialState\<lparr>textbookTabId := Some 5, textbookWindowId := Some 1,
          aiType := Some ''gemini'', injectedTabs := {5}\<rparr>,
      runEffects = [ExecuteScript 5 True,
         SendAttempt 5 (AlertMessage ''Please open gemini in another tab before using automation.'') True],
      runEnd = Returned\<rparr>"
  by (simp add: bg_eval)

lemma scenario_missing_tab_injected:
  "processQuestion (browserWith [] (\<lambda>tab. True)) \<lparr>question = ''Q'', sourceTabId = Some 5\<rparr>
      (initialState\<lparr>injectedTabs := {5}\<rparr>) =
     \<lparr>runState = initialState\<lparr>textbookTabId := Some 5, textbookWindowId := Some 1,
          aiType := Some ''gemini'', injectedTabs := {5}\<rparr>,
      runEffects = [SendAttempt 5 Ping True,
         SendAttempt 5 (AlertMessage ''Please open gemini in another tab before using automation.'') True],
      runEnd = Returned\<rparr>"
  by (simp add: bg_eval)


lemma scenario_textbook_silent:
  "processQuestion (browserWith [] (\<lambda>tab. False)) \<lparr>question = ''Q'', sourceTabId = Some 5\<rparr> initialState =
     \<lparr>runState = initialState\<lparr>textbookTabId := Some 5, textbookWindowId := Some 1,
          aiType := Some ''gemini'', injectedTabs := {5}\<rparr>,
      runEffects = [ExecuteScript 5 True,
         SendAttempt 5 (AlertMessage ''Please open gemini in another tab before using automation.'') False,
         SendAttempt 5 (AlertMessage ''Please open gemini in another tab before using automation.'') False,
         SendAttempt 5 (AlertMessage ''Please open gemini in another tab before using automation.'') False,
         SendAttempt 5 (AlertMessage ''Error communicating with gemini. Please make sure it is open in another tab (You may need to refresh the page)'') False,
         SendAttempt 5 (AlertMessage ''Error communicating with gemini. Please make sure it is open in another tab (You may need to refresh the page)'') False,
         SendAttempt 5 (AlertMessage ''Error communicating with gemini. Please make sure it is open in another tab (You may need to refresh the page)'') False],
      runEnd = Threw\<rparr>"
  by (simp add: bg_eval)

lemma scenario_stale_slot:
  "processQuestion (browserWith [] (\<lambda>tab. tab = 5)) \<lparr>question = ''Q'', sourceTabId = Some 5\<rparr>
      (initialState\<lparr>aiTabId := Some 7, aiWindowId := Some 1\<rparr>) =
     \<lparr>runState = initialState\<lparr>textbookTabId := Some 5, textbookWindowId := Some 1,
          aiType := Some ''gemini'', aiTabId := Some 7, aiWindowId := Some 1, injectedTabs := {5}\<rparr>,
      runEffects = [ExecuteScript 5 True, SendAttempt 5 Ping True, FocusTab 7,
         SendAttempt 7 (ReceiveQuestion ''Q'') False, SendAttempt 7 (ReceiveQuestion ''Q'') False,
         SendAttempt 7 (ReceiveQuestion ''Q'') False,
         SendAttempt 5 (AlertMessage ''Error communicating with gemini. Please make sure it is open in another tab (You may need to refresh the page)'') True],
      runEnd = Returned\<rparr>"
  by (simp add: bg_eval)




text \<open>
  C9 (as stated).  With no assistant tab open the claim promises exactly one alert and no
  message to any tab.  First scenario: the textbook tab acknowledges nothing, and no alert
  is raised at all.  Second scenario: no Gemini tab is open, but the registry still holds
  tab 7 from earlier (\<^verbatim>\<open>findAndStoreTabs\<close> never empties the slot); the question is sent
  to tab 7 three times and tab 7 is focused.
\<close>

theorem processQuestion_missing_assistant_tab_counterexample:
  "queryTabs (browserWith [] (\<lambda>tab. False) :: string bg_env) ''https://gemini.google.com/*'' = Some []
   \<and> alertsRaised (runEffects (processQuestion (browserWith [] (\<lambda>tab. False))
         \<lparr>question = ''Q'', sourceTabId = Some 5\<rparr> initialState)) = []
   \<and> queryTabs (browserWith [] (\<lambda>tab. tab = 5) :: string bg_env) ''https://gemini.google.com/*'' = Some []
   \<and> questionAttempts (runEffects (processQuestion (browserWith [] (\<lambda>tab. tab = 5))
         \<lparr>question = ''Q'', sourceTabId = Some 5\<rparr>
         (initialState\<lparr>aiTabId := Some 7, aiWindowId := Some 1\<rparr>))) = [7, 7, 7]
   \<and> tabsFocused (runEffects (processQuestion (browserWith [] (\<lambda>tab. tab = 5))
         \<lparr>question = ''Q'', sourceTabId = Some 5\<rparr>
         (initialState\<lparr>aiTabId := Some 7, aiWindowId := Some 1\<rparr>))) = [7]"
  unfolding scenario_textbook_silent scenario_stale_slot
  by (simp add: browserWith_def)

lemma observers_replicate:
  "alertsRaised (replicate k (SendAttempt t m False)) = []"
  "tabsFocused (replicate k (SendAttempt t m False)) = []"
  "scriptsInjected (replicate k (SendAttempt t m False)) = []"
  "messagesSent (replicate k (SendAttempt t m ok)) = replicate k (t, m)"
  by (induction k) simp_all

lemma questionAttempts_replicate_alert:
  "questionAttempts (replicate k (SendAttempt t (AlertMessage a) ok)) = []"
  by (induction k) simp_all

lemma filter_pings:
  "set ms \<subseteq> {(t, Ping)} \<Longrightarrow> filter (\<lambda>m. snd m = Ping) ms = ms"
  "set ms \<subseteq> {(t, Ping)} \<Longrightarrow> filter (\<lambda>m. snd m \<noteq> Ping) ms = []"
  by (induction ms) auto

text \<open>
  C9 (amended).  When \<^verbatim>\<open>processQuestion\<close> proceeds, tab resolution completes and leaves
  the assistant slot of the registry empty, and the textbook tab acknowledges the alert
  message within the three attempts, then exactly one alert is raised, on the textbook
  tab, naming the selected provider.  The messages sent are the attempts of that alert
  and, when tab resolution found the textbook tab open and already recorded as injected,
  one \<^verbatim>\<open>ping\<close> to the textbook tab; the education script is injected into no tab but
  the textbook tab.  No question is sent to any tab, no tab is focused, and the variables
  are those left by tab resolution with the in-flight flag cleared.
\<close>

theorem processQuestion_missing_assistant_tab:
  assumes idle: "\<not> processingQuestion st"
    and r1: "r1 = findAndStoreTabs env (st\<lparr>processingQuestion := True\<rparr>)"
    and resolved: "runEnd r1 = Returned"
    and noAi: "falsy (aiTabId (runState r1))"
    and textbook: "textbookTabId (runState r1) = Some t"
    and alert: "alert = AlertMessage (''Please open ''
        @ (case truthyString (syncAiModel env) of Some m \<Rightarrow> m | None \<Rightarrow> ''chatgpt'')
        @ '' in another tab before using automation.'')"
    and acked: "delivers env t alert 1 \<or> delivers env t alert 2 \<or> delivers env t alert 3"
  shows "(\<exists>k < 3. runEffects (processQuestion env message st) =
            runEffects r1 @ replicate k (SendAttempt t alert False) @ [SendAttempt t alert True])
    \<and> alertsRaised (runEffects (processQuestion env message st)) =
        [(t, ''Please open ''
             @ (case truthyString (syncAiModel env) of Some m \<Rightarrow> m | None \<Rightarrow> ''chatgpt'')
             @ '' in another tab before using automation.'')]
    \<and> (\<exists>k < 3. filter (\<lambda>m. snd m \<noteq> Ping) (messagesSent (runEffects (processQuestion env message st)))
          = replicate (Suc k) (t, alert))
    \<and> filter (\<lambda>m. snd m = Ping) (messagesSent (runEffects (processQuestion env message st))) =
        (case queryTabs env (''https://learning.'' @ currentWebsiteUrl (runState r1) @ ''.com/*'') of
           Some ((tid, wid) # others) \<Rightarrow>
             if tabExists env tid \<and> tid \<in> injectedTabs st then [(t, Ping)] else []
         | _ \<Rightarrow> [])
    \<and> set (scriptsInjected (runEffects (processQuestion env message st))) \<subseteq> {t}
    \<and> questionAttempts (runEffects (processQuestion env message st)) = []
    \<and> tabsFocused (runEffects (processQuestion env message st)) = []
    \<and> runState (processQuestion env message st) = (runState r1)\<lparr>processingQuestion := False\<rparr>
    \<and> runEnd (processQuestion env message st) = Returned"
proof -
  let ?st0 = "st\<lparr>processingQuestion := True\<rparr>"
  let ?effects = "runEffects (processQuestion env message st)"
  let ?pings = "case queryTabs env (''https://learning.'' @ currentWebsiteUrl (runState r1) @ ''.com/*'') of
           Some ((tid, wid) # others) \<Rightarrow>
             if tabExists env tid \<and> tid \<in> injectedTabs st then [(t, Ping)] else []
         | _ \<Rightarrow> []"
  have m: "missingTabAlert (runState r1) = alert"
    using findAndStoreTabs_aiType [of env ?st0] resolved r1 alert
    by (simp add: missingTabAlert_def showAiType_def)
  obtain k where k: "k < 3"
    and send: "sendMessageWithRetry env (Some t) alert 3 =
                 (True, replicate k (SendAttempt t alert False) @ [SendAttempt t alert True])"
  proof -
    consider (one) "delivers env t alert 1"
      | (two) "\<not> delivers env t alert 1" "delivers env t alert 2"
      | (three) "\<not> delivers env t alert 1" "\<not> delivers env t alert 2" "delivers env t alert 3"
      using acked by blast
    then show ?thesis
    proof cases
      case one
      then show ?thesis using that [of 0] by (simp add: sendMessageWithRetry_def attemptSend_three)
    next
      case two
      then show ?thesis using that [of 1] by (simp add: sendMessageWithRetry_def attemptSend_three)
    next
      case three
      then show ?thesis using that [of 2]
        by (simp add: sendMessageWithRetry_def attemptSend_three numeral_2_eq_2)
    qed
  qed
  have body: "processQuestionTry env message ?st0 =
      \<lparr>runState = (runState r1)\<lparr>processingQuestion := False\<rparr>,
       runEffects = runEffects r1 @ replicate k (SendAttempt t alert False) @ [SendAttempt t alert True],
       runEnd = Returned\<rparr>"
    using r1 resolved noAi textbook m send by (simp add: processQuestionTry_def Let_def)
  have res: "processQuestion env message st =
      \<lparr>runState = (runState r1)\<lparr>processingQuestion := False\<rparr>,
       runEffects = runEffects r1 @ replicate k (SendAttempt t alert False) @ [SendAttempt t alert True],
       runEnd = Returned\<rparr>"
    using idle body by (simp add: processQuestion_def Let_def)
  have fx: "alertsRaised (runEffects r1) = []" "questionAttempts (runEffects r1) = []"
      "tabsFocused (runEffects r1) = []"
    using findAndStoreTabs_effects [of env ?st0] r1 by simp_all
  have sent1: "messagesSent (runEffects r1) = ?pings"
  proof (cases "queryTabs env (''https://learning.'' @ currentWebsiteUrl (runState r1) @ ''.com/*'')")
    case None
    then show ?thesis using findAndStoreTabs_messages [of env ?st0] r1 by simp
  next
    case (Some tabs)
    show ?thesis
    proof (cases tabs)
      case Nil
      then show ?thesis using Some findAndStoreTabs_messages [of env ?st0] r1 by simp
    next
      case (Cons tab others)
      obtain tid wid where tab: "tab = (tid, wid)" by (cases tab)
      have "textbookTabId (runState r1) = Some tid"
        using findAndStoreTabs_found [of env ?st0 tid wid others] Some Cons tab r1 by simp
      then have "tid = t" using textbook by simp
      then show ?thesis using Some Cons tab findAndStoreTabs_messages [of env ?st0] r1 by simp
    qed
  qed
  have pings: "set ?pings \<subseteq> {(t, Ping)}"
    by (auto split: option.splits list.splits)
  have sent: "messagesSent ?effects = ?pings @ replicate (Suc k) (t, alert)"
    using sent1 by (simp add: res observers_append observers_replicate replicate_append_same)
  have notPing: "alert \<noteq> Ping" using alert by simp
  have others: "filter (\<lambda>m. snd m \<noteq> Ping) (messagesSent ?effects) = replicate (Suc k) (t, alert)"
    unfolding sent using filter_pings(2) [OF pings] notPing by simp
  have onlyPings: "filter (\<lambda>m. snd m = Ping) (messagesSent ?effects) = ?pings"
    unfolding sent using filter_pings(1) [OF pings] notPing by simp
  have scripts: "set (scriptsInjected ?effects) \<subseteq> {t}"
    using findAndStoreTabs_scripts [of env ?st0] r1 textbook
    by (simp add: res observers_append observers_replicate)
  have alerts: "alertsRaised ?effects =
        [(t, ''Please open ''
             @ (case truthyString (syncAiModel env) of Some m \<Rightarrow> m | None \<Rightarrow> ''chatgpt'')
             @ '' in another tab before using automation.'')]"
    using fx alert by (simp add: res observers_append observers_replicate)
  have questions: "questionAttempts ?effects = []"
    using fx alert by (simp add: res observers_append questionAttempts_replicate_alert)
  have focused: "tabsFocused ?effects = []"
    using fx alert by (simp add: res observers_append observers_replicate)
  show ?thesis
    using k res others onlyPings scripts alerts questions focused by auto
qed


theorem processQuestion_missing_assistant_tab_witness:
  "alertsRaised (runEffects (processQuestion (browserWith [] (\<lambda>tab. True))
       \<lparr>question = ''Q'', sourceTabId = Some 5\<rparr> initialState))
     = [(5, ''Please open gemini in another tab before using automation.'')]
   \<and> questionAttempts (runEffects (processQuestion (browserWith [] (\<lambda>tab. True))
       \<lparr>question = ''Q'', sourceTabId = Some 5\<rparr> initialState)) = []
   \<and> tabsFocused (runEffects (processQuestion (browserWith [] (\<lambda>tab. True))
       \<lparr>question = ''Q'', sourceTabId = Some 5\<rparr> initialState)) = []
   \<and> \<not> processingQuestion (runState (processQuestion (browserWith [] (\<lambda>tab. True))
       \<lparr>question = ''Q'', sourceTabId = Some 5\<rparr> initialState))
   \<and> messagesSent (runEffects (processQuestion (browserWith [] (\<lambda>tab. True))
       \<lparr>question = ''Q'', sourceTabId = Some 5\<rparr> initialState))
     = [(5, AlertMessage ''Please open gemini in another tab before using automation.'')]
   \<and> scriptsInjected (runEffects (processQuestion (browserWith [] (\<lambda>tab. True))
       \<lparr>question = ''Q'', sourceTabId = Some 5\<rparr> initialState)) = [5]
   \<and> messagesSent (runEffects (processQuestion (browserWith [] (\<lambda>tab. True))
       \<lparr>question = ''Q'', sourceTabId = Some 5\<rparr> (initialState\<lparr>injectedTabs := {5}\<rparr>)))
     = [(5, Ping), (5, AlertMessage ''Please open gemini in another tab before using automation.'')]
   \<and> scriptsInjected (runEffects (processQuestion (browserWith [] (\<lambda>tab. True))
       \<lparr>question = ''Q'', sourceTabId = Some 5\<rparr> (initialState\<lparr>injectedTabs := {5}\<rparr>))) = []"
proof -
  let ?env = "browserWith [] (\<lambda>tab. True)"
  let ?injected = "initialState\<lparr>injectedTabs := {5}\<rparr>"
  let ?r1 = "findAndStoreTabs ?env (initialState\<lparr>processingQuestion := True\<rparr>)"
  let ?r2 = "findAndStoreTabs ?env (?injected\<lparr>processingQuestion := True\<rparr>)"
  let ?alert = "AlertMessage (''Please open ''
        @ (case truthyString (syncAiModel ?env) of Some m \<Rightarrow> m | None \<Rightarrow> ''chatgpt'')
        @ '' in another tab before using automation.'') :: string tab_message"
  have h1: "\<not> processingQuestion initialState" "\<not> processingQuestion ?injected"
    by (simp_all add: initialState_def)
  have h3: "runEnd ?r1 = Returned" "runEnd ?r2 = Returned" by (simp_all add: bg_eval)
  have h4: "falsy (aiTabId (runState ?r1))" "falsy (aiTabId (runState ?r2))"
    by (simp_all add: bg_eval)
  have h5: "textbookTabId (runState ?r1) = Some 5" "textbookTabId (runState ?r2) = Some 5"
    by (simp_all add: bg_eval)
  have h7: "delivers ?env 5 ?alert 1 \<or> delivers ?env 5 ?alert 2 \<or> delivers ?env 5 ?alert 3"
    by (simp add: browserWith_def)
  from processQuestion_missing_assistant_tab [OF h1(1) refl h3(1) h4(1) h5(1) refl h7,
      of "\<lparr>question = ''Q'', sourceTabId = Some 5\<rparr>"]
    processQuestion_missing_assistant_tab [OF h1(2) refl h3(2) h4(2) h5(2) refl h7,
      of "\<lparr>question = ''Q'', sourceTabId = Some 5\<rparr>"]
  show ?thesis unfolding scenario_missing_tab scenario_missing_tab_injected
    by (simp add: browserWith_def truthyString_def)
qed

subsection \<open>Observation of the reply\<close>

lemma geminiFallback_cases:
  "geminiFallback view now st = (st, []) \<or>
   (\<exists>m. geminiFallback view now st = (resetObservation (st\<lparr>hasResponded := True\<rparr>), [GeminiResponse m])
        \<and> 30000 < now - observationStartTime st \<and> \<not> isGenerating view
        \<and> matchJsonPattern (latestText view) = Some m)"
  by (auto simp: geminiFallback_def split: option.splits)

lemma geminiMutation_cases:
  "geminiMutation p view now st = (st, [])
   \<or> (\<not> hasResponded st \<and> messageCountAtQuestion st < messageCount view \<and>
       (\<exists>parsed. p (responseText view) = Some parsed \<and> truthyProperty (answerProperty parsed)) \<and>
       geminiMutation p view now st =
         (st\<lparr>hasResponded := True, sendPending := Suc (sendPending st)\<rparr>, [GeminiResponse (responseText view)]))
   \<or> (\<not> hasResponded st \<and> messageCountAtQuestion st < messageCount view \<and>
       (\<forall>parsed. p (responseText view) = Some parsed \<longrightarrow> answerProperty parsed = TypeError) \<and>
       30000 < now - observationStartTime st \<and> \<not> isGenerating view \<and>
       (\<exists>m. matchJsonPattern (latestText view) = Some m \<and>
          geminiMutation p view now st =
            (resetObservation (st\<lparr>hasResponded := True\<rparr>), [GeminiResponse m])))"
  using geminiFallback_cases [of view now st]
  by (auto simp: geminiMutation_def split: option.splits property.splits)

lemma terminated_reset [simp]: "terminated (resetObservation st)"
  by (simp add: terminated_def resetObservation_def)

lemma terminated_responded [simp]: "terminated (st\<lparr>hasResponded := True, sendPending := b\<rparr>)"
  by (simp add: terminated_def)

lemma geminiMutation_out:
  "geminiMutation p view now st = (st', out) \<Longrightarrow> out = [] \<or> ((\<exists>m. out = [m]) \<and> terminated st')"
  using geminiMutation_cases [of p view now st] by auto

lemma geminiStep_emits:
  "\<not> isObservationStarted e \<Longrightarrow> geminiStep p e st = (st', out) \<Longrightarrow>
     out = [] \<or> ((\<exists>m. out = [m]) \<and> terminated st')"
  by (cases e) (auto split: if_splits dest: geminiMutation_out)

lemma geminiStep_terminated:
  "\<not> isObservationStarted e \<Longrightarrow> terminated st \<Longrightarrow> geminiStep p e st = (st', out) \<Longrightarrow>
     out = [] \<and> terminated st'"
  by (cases e)
     (auto simp: terminated_def geminiMutation_def receiveQuestion_def resetObservation_def
        observationTimedOut_def sendSettled_def Let_def split: if_splits)


lemma runEvents_Cons:
  "snd (runEvents step (e # es) st) = snd (step e st) @ snd (runEvents step es (fst (step e st)))"
  "fst (runEvents step (e # es) st) = fst (runEvents step es (fst (step e st)))"
  by (simp_all split: prod.splits)

lemma runEvents_terminated:
  assumes step: "\<And>e st st' out. \<not> isObservationStarted e \<Longrightarrow> terminated st \<Longrightarrow> step e st = (st', out)
                  \<Longrightarrow> out = [] \<and> terminated st'"
    and "\<forall>e \<in> set evs. \<not> isObservationStarted e" and "terminated st"
  shows "snd (runEvents step evs st) = [] \<and> terminated (fst (runEvents step evs st))"
  using assms(2,3)
proof (induction evs arbitrary: st)
  case Nil
  then show ?case by simp
next
  case (Cons e evs)
  obtain st' out where s: "step e st = (st', out)" by (cases "step e st")
  have "out = [] \<and> terminated st'" using step [OF _ Cons.prems(2) s] Cons.prems(1) by simp
  then show ?case using Cons.IH [of st'] Cons.prems(1) s by (simp add: runEvents_Cons del: runEvents.simps)
qed

lemma runEvents_at_most_one:
  assumes step: "\<And>e st st' out. \<not> isObservationStarted e \<Longrightarrow> terminated st \<Longrightarrow> step e st = (st', out)
                  \<Longrightarrow> out = [] \<and> terminated st'"
    and emits: "\<And>e st st' out. \<not> isObservationStarted e \<Longrightarrow> step e st = (st', out)
                  \<Longrightarrow> out = [] \<or> ((\<exists>m. out = [m]) \<and> terminated st')"
    and "\<forall>e \<in> set evs. \<not> isObservationStarted e"
  shows "length (snd (runEvents step evs st)) \<le> 1"
  using assms(3)
proof (induction evs arbitrary: st)
  case Nil
  then show ?case by simp
next
  case (Cons e evs)
  obtain st' out where s: "step e st = (st', out)" by (cases "step e st")
  from emits [OF _ s] Cons.prems consider "out = []" | m where "out = [m]" "terminated st'"
    by auto
  then show ?case
  proof cases
    case 1
    then show ?thesis using Cons.IH [of st'] Cons.prems s by (simp add: runEvents_Cons del: runEvents.simps)
  next
    case 2
    have "\<forall>e \<in> set evs. \<not> isObservationStarted e" using Cons.prems by simp
    then have "snd (runEvents step evs st') = []"
      using runEvents_terminated [of step evs st'] step 2(2) by blast
    then show ?thesis using 2 s by (simp add: runEvents_Cons del: runEvents.simps)
  qed
qed

lemma processResponse_cases:
  "processResponse p t st = (False, st, [])
   \<or> (\<not> hasResponded st \<and>
       (\<exists>parsed. p (cleanText t) = Some parsed \<and> truthy parsed \<and> truthyProperty (answerProperty parsed)) \<and>
       processResponse p t st =
         (True, st\<lparr>hasResponded := True, sendPending := Suc (sendPending st)\<rparr>, [DeepseekResponse (cleanText t)]))"
  by (auto simp: processResponse_def Let_def split: option.splits)

lemma tryCodeBlocks_cases:
  "tryCodeBlocks p bs st = (False, st, [])
   \<or> (\<not> hasResponded st \<and>
       (\<exists>b \<in> set bs. \<exists>parsed. p (cleanText b) = Some parsed \<and> truthy parsed
            \<and> truthyProperty (answerProperty parsed) \<and>
          tryCodeBlocks p bs st =
            (True, st\<lparr>hasResponded := True, sendPending := Suc (sendPending st)\<rparr>, [DeepseekResponse (cleanText b)])))"
proof (induction bs)
  case Nil
  then show ?case by simp
next
  case (Cons b bs)
  show ?case
    using Cons.IH processResponse_cases [of p b st]
    by (auto split: prod.splits bool.splits)
qed


lemma checkMessages_cases:
  "checkMessages p ms now st = (st, [])
   \<or> directResult p st (checkMessages p ms now st)
   \<or> fallbackResult ms now st (checkMessages p ms now st)"
proof (induction ms)
  case Nil
  then show ?case by simp
next
  case (Cons m ms)
  consider (byBlock) "fst (tryCodeBlocks p (codeBlocks m) st)"
    | (byText) t where "tryCodeBlocks p (codeBlocks m) st = (False, st, [])"
        "matchAnswerPattern (messageText m) = Some t" "fst (processResponse p t st)"
    | (neither) "tryCodeBlocks p (codeBlocks m) st = (False, st, [])"
        "(case matchAnswerPattern (messageText m) of None \<Rightarrow> (False, st, [])
          | Some t \<Rightarrow> processResponse p t st) = (False, st, [])"
    using tryCodeBlocks_cases [of p "codeBlocks m" st] processResponse_cases [of p _ st]
    by (cases "matchAnswerPattern (messageText m)") fastforce+
  then show ?case
  proof cases
    case byBlock
    then have "directResult p st (checkMessages p (m # ms) now st)"
      using tryCodeBlocks_cases [of p "codeBlocks m" st]
      by (auto simp: directResult_def)
    then show ?thesis by simp
  next
    case byText
    then have "directResult p st (checkMessages p (m # ms) now st)"
      using processResponse_cases [of p t st]
      by (auto simp: directResult_def)
    then show ?thesis by simp
  next
    case neither
    show ?thesis
    proof (cases "now - observationStartTime st \<le> 30000")
      case True
      then have "checkMessages p (m # ms) now st = checkMessages p ms now st"
        using neither by simp
      then show ?thesis using Cons.IH by (auto simp: fallbackResult_def)
    next
      case False
      show ?thesis
      proof (cases "matchJsonPattern (messageText m)")
        case None
        then have "checkMessages p (m # ms) now st = checkMessages p ms now st"
          using neither False by simp
        then show ?thesis using Cons.IH by (auto simp: fallbackResult_def)
      next
        case (Some t)
        show ?thesis
        proof (cases "hasResponded st")
          case True
          then have "checkMessages p (m # ms) now st = checkMessages p ms now st"
            using neither False Some by simp
          then show ?thesis using Cons.IH by (auto simp: fallbackResult_def)
        next
          case nr: False
          then have "checkMessages p (m # ms) now st =
              (resetObservation (st\<lparr>hasResponded := True\<rparr>), [DeepseekResponse t])"
            using neither False Some by simp
          then have "fallbackResult (m # ms) now st (checkMessages p (m # ms) now st)"
            using nr False Some by (auto simp: fallbackResult_def)
          then show ?thesis by blast
        qed
      qed
    qed
  qed
qed


lemma checkForResponse_cases:
  "checkForResponse p ms now st = (st, [])
   \<or> directResult p st (checkForResponse p ms now st)
   \<or> fallbackResult (drop (messageCountAtQuestion st) ms) now st (checkForResponse p ms now st)"
  using checkMessages_cases [of p "drop (messageCountAtQuestion st) ms" now st]
  by (auto simp: checkForResponse_def)

lemma checkForResponse_out:
  "checkForResponse p ms now st = (st', out) \<Longrightarrow> out = [] \<or> ((\<exists>m. out = [m]) \<and> terminated st')"
  using checkForResponse_cases [of p ms now st]
  by (auto simp: directResult_def fallbackResult_def)

lemma deepseekStep_emits:
  "\<not> isObservationStarted e \<Longrightarrow> deepseekStep p e st = (st', out) \<Longrightarrow>
     out = [] \<or> ((\<exists>m. out = [m]) \<and> terminated st')"
  by (cases e) (auto split: if_splits dest: checkForResponse_out)

lemma deepseekStep_terminated:
  "\<not> isObservationStarted e \<Longrightarrow> terminated st \<Longrightarrow> deepseekStep p e st = (st', out) \<Longrightarrow>
     out = [] \<and> terminated st'"
  by (cases e)
     (auto simp: terminated_def checkForResponse_def receiveQuestion_def resetObservation_def
        observationTimedOut_def sendSettled_def Let_def split: if_splits)

lemma geminiMutation_running:
  assumes "\<not> hasResponded st"
  shows "snd (geminiMutation p view now st) \<noteq> [] \<longleftrightarrow>
     messageCountAtQuestion st < messageCount view \<and>
     ((\<exists>parsed. p (responseText view) = Some parsed \<and> truthyProperty (answerProperty parsed))
      \<or> ((\<forall>parsed. p (responseText view) = Some parsed \<longrightarrow> answerProperty parsed = TypeError)
          \<and> \<not> isGenerating view \<and> 30000 < now - observationStartTime st
          \<and> matchJsonPattern (latestText view) \<noteq> None))"
  using assms
  by (auto simp: geminiMutation_def geminiFallback_def split: option.splits property.splits)

lemma geminiMutation_terminates:
  assumes "\<not> hasResponded st"
  shows "terminated (fst (geminiMutation p view now st)) \<longleftrightarrow>
     \<not> (observer st \<or> checkIntervalId st) \<or> snd (geminiMutation p view now st) \<noteq> []"
  using assms geminiMutation_cases [of p view now st]
  by (auto simp: terminated_def resetObservation_def)

lemma checkForResponse_terminates:
  assumes "\<not> hasResponded st"
  shows "terminated (fst (checkForResponse p ms now st)) \<longleftrightarrow>
     \<not> (observer st \<or> checkIntervalId st) \<or> snd (checkForResponse p ms now st) \<noteq> []"
  using assms checkForResponse_cases [of p ms now st]
  by (auto simp: terminated_def directResult_def fallbackResult_def resetObservation_def)

lemma timer_facts:
  "timerDue now' (startObservingGemini now st) \<longleftrightarrow> now + 180000 \<le> now'"
  "timerDue now' (startObservingDeepSeek now st) \<longleftrightarrow> now + 180000 \<le> now'"
  "\<not> hasResponded st \<Longrightarrow> terminated (observationTimedOut st)"
  by (simp_all add: timerDue_def startObservingGemini_def startObservingDeepSeek_def
      observationTimedOut_def)


lemma truthyProperty_truthy: "truthyProperty (answerProperty parsed) \<Longrightarrow> truthy parsed"
  by (cases parsed) simp_all


lemma directlyAccepted_iff:
  "directlyAccepted p t \<longleftrightarrow> (\<exists>parsed. p t = Some parsed \<and> truthyProperty (answerProperty parsed))"
  by (simp add: directlyAccepted_def split: option.splits)

lemma parseThrows_iff:
  "parseThrows p t \<longleftrightarrow> (\<forall>parsed. p t = Some parsed \<longrightarrow> answerProperty parsed = TypeError)"
  by (simp add: parseThrows_def split: option.splits)

lemma directResult_accepted:
  "directResult p st (st', [DeepseekResponse e]) \<Longrightarrow> directlyAccepted p e"
  by (auto simp: directResult_def directlyAccepted_iff)

lemma deepseek_emitted:
  assumes "snd (checkForResponse p ms now st) = [DeepseekResponse e]"
  shows "directlyAccepted p e
     \<or> (30000 < now - observationStartTime st
         \<and> (\<exists>m \<in> set (drop (messageCountAtQuestion st) ms). matchJsonPattern (messageText m) = Some e))"
  using checkForResponse_cases [of p ms now st] assms
  by (auto simp: directResult_def fallbackResult_def directlyAccepted_iff)

lemma geminiMutation_grace:
  assumes "now - observationStartTime st \<le> 30000" "snd (geminiMutation p view now st) \<noteq> []"
  shows "snd (geminiMutation p view now st) = [GeminiResponse (responseText view)]
     \<and> directlyAccepted p (responseText view)"
  using assms geminiMutation_cases [of p view now st]
  by (auto simp: directlyAccepted_iff)

lemma checkForResponse_grace:
  assumes "now - observationStartTime st \<le> 30000" "snd (checkForResponse p ms now st) \<noteq> []"
  shows "\<exists>e. snd (checkForResponse p ms now st) = [DeepseekResponse e] \<and> directlyAccepted p e"
  using assms checkForResponse_cases [of p ms now st]
  by (auto simp: directResult_def fallbackResult_def directlyAccepted_iff)

lemma geminiMutation_accepts:
  assumes "\<not> hasResponded st" "messageCountAtQuestion st < messageCount view"
    "directlyAccepted p (responseText view)"
  shows "snd (geminiMutation p view now st) = [GeminiResponse (responseText view)]"
  using assms
  by (auto simp: geminiMutation_def directlyAccepted_def split: option.splits property.splits)

lemma processResponse_accepts:
  "fst (processResponse p t st) \<longleftrightarrow> \<not> hasResponded st \<and> directlyAccepted p (cleanText t)"
  "\<not> hasResponded st \<and> directlyAccepted p (cleanText t) \<Longrightarrow>
     processResponse p t st =
       (True, st\<lparr>hasResponded := True, sendPending := Suc (sendPending st)\<rparr>, [DeepseekResponse (cleanText t)])"
  using truthyProperty_truthy
  by (auto simp: processResponse_def directlyAccepted_def Let_def split: option.splits)

lemma checkForResponse_accepts:
  assumes "\<not> hasResponded st" "length ms = messageCountAtQuestion st"
    "includesText b ''{''" "includesText b ''\"answer\"''" "directlyAccepted p (cleanText b)"
  shows "snd (checkForResponse p (ms @ [\<lparr>codeBlocks = b # bs, messageText = full\<rparr>]) now st)
     = [DeepseekResponse (cleanText b)]"
  using assms processResponse_accepts(2) [of st p b]
  by (simp add: checkForResponse_def)

lemma geminiMutation_output:
  assumes "\<not> hasResponded st"
  shows "snd (geminiMutation p view now st) =
     (if messageCountAtQuestion st < messageCount view \<and> directlyAccepted p (responseText view)
        then [GeminiResponse (responseText view)]
      else if messageCountAtQuestion st < messageCount view \<and> parseThrows p (responseText view)
              \<and> \<not> isGenerating view \<and> 30000 < now - observationStartTime st
        then (case matchJsonPattern (latestText view) of
                None \<Rightarrow> [] | Some m \<Rightarrow> [GeminiResponse m])
      else [])"
  using assms
  by (auto simp: geminiMutation_def geminiFallback_def directlyAccepted_def parseThrows_def
      split: option.splits property.splits)

lemma tryCodeBlocks_fst:
  assumes "\<not> hasResponded st"
  shows "fst (tryCodeBlocks p bs st) \<longleftrightarrow>
     (\<exists>b \<in> set bs. includesText b ''{'' \<and> includesText b ''\"answer\"''
        \<and> directlyAccepted p (cleanText b))"
proof (induction bs)
  case Nil
  then show ?case by simp
next
  case (Cons b bs)
  show ?case
    using Cons.IH assms processResponse_accepts(1) [of p b st]
    by (cases "processResponse p b st") (auto split: bool.splits)
qed

lemma tryCodeBlocks_sent:
  "fst (tryCodeBlocks p bs st) \<Longrightarrow> snd (snd (tryCodeBlocks p bs st)) \<noteq> []"
  "\<not> fst (tryCodeBlocks p bs st) \<Longrightarrow> tryCodeBlocks p bs st = (False, st, [])"
  using tryCodeBlocks_cases [of p bs st] by auto

lemma processResponse_sent:
  "fst (processResponse p t st) \<Longrightarrow> snd (snd (processResponse p t st)) \<noteq> []"
  "\<not> fst (processResponse p t st) \<Longrightarrow> processResponse p t st = (False, st, [])"
  using processResponse_cases [of p t st] by auto

lemma checkMessages_Cons:
  assumes "\<not> hasResponded st"
  shows "snd (checkMessages p (m # ms) now st) =
     (if \<exists>b \<in> set (codeBlocks m). includesText b ''{'' \<and> includesText b ''\"answer\"''
            \<and> directlyAccepted p (cleanText b)
        then snd (snd (tryCodeBlocks p (codeBlocks m) st))
      else if \<exists>t. matchAnswerPattern (messageText m) = Some t \<and> directlyAccepted p (cleanText t)
        then snd (snd (processResponse p (the (matchAnswerPattern (messageText m))) st))
      else if 30000 < now - observationStartTime st \<and> matchJsonPattern (messageText m) \<noteq> None
        then [DeepseekResponse (the (matchJsonPattern (messageText m)))]
      else snd (checkMessages p ms now st))"
proof -
  let ?byBlock = "\<exists>b \<in> set (codeBlocks m). includesText b ''{'' \<and> includesText b ''\"answer\"''
            \<and> directlyAccepted p (cleanText b)"
  let ?bySlice = "\<exists>t. matchAnswerPattern (messageText m) = Some t \<and> directlyAccepted p (cleanText t)"
  show ?thesis
  proof (cases ?byBlock)
    case True
    then have "fst (tryCodeBlocks p (codeBlocks m) st)"
      using tryCodeBlocks_fst [OF assms, of p "codeBlocks m"] by simp
    then show ?thesis using True by (cases "tryCodeBlocks p (codeBlocks m) st") auto
  next
    case noBlock: False
    then have "\<not> fst (tryCodeBlocks p (codeBlocks m) st)"
      using tryCodeBlocks_fst [OF assms, of p "codeBlocks m"] by simp
    then have blocks: "tryCodeBlocks p (codeBlocks m) st = (False, st, [])"
      by (rule tryCodeBlocks_sent(2))
    show ?thesis
    proof (cases ?bySlice)
      case True
      then obtain t where t: "matchAnswerPattern (messageText m) = Some t"
          "directlyAccepted p (cleanText t)" by blast
      then have "fst (processResponse p t st)"
        using processResponse_accepts(1) [of p t st] assms by simp
      then show ?thesis using noBlock True blocks t
        by (cases "processResponse p t st") auto
    next
      case noSlice: False
      have slice: "(case matchAnswerPattern (messageText m) of None \<Rightarrow> (False, st, [])
                    | Some t \<Rightarrow> processResponse p t st) = (False, st, [])"
      proof (cases "matchAnswerPattern (messageText m)")
        case None
        then show ?thesis by simp
      next
        case (Some t)
        then have "\<not> fst (processResponse p t st)"
          using noSlice processResponse_accepts(1) [of p t st] by simp
        then show ?thesis using Some processResponse_sent(2) [of p t st] by simp
      qed
      show ?thesis
        using noBlock noSlice blocks slice assms
        by (auto split: option.splits)
    qed
  qed
qed

lemma checkMessages_sends:
  assumes "\<not> hasResponded st"
  shows "snd (checkMessages p ms now st) \<noteq> [] \<longleftrightarrow>
     (\<exists>m \<in> set ms.
        (\<exists>b \<in> set (codeBlocks m). includesText b ''{'' \<and> includesText b ''\"answer\"''
            \<and> directlyAccepted p (cleanText b))
        \<or> (\<exists>t. matchAnswerPattern (messageText m) = Some t \<and> directlyAccepted p (cleanText t))
        \<or> (30000 < now - observationStartTime st \<and> matchJsonPattern (messageText m) \<noteq> None))"
proof (induction ms)
  case Nil
  then show ?case by simp
next
  case (Cons m ms)
  let ?byBlock = "\<exists>b \<in> set (codeBlocks m). includesText b ''{'' \<and> includesText b ''\"answer\"''
            \<and> directlyAccepted p (cleanText b)"
  let ?bySlice = "\<exists>t. matchAnswerPattern (messageText m) = Some t \<and> directlyAccepted p (cleanText t)"
  let ?byPattern = "30000 < now - observationStartTime st \<and> matchJsonPattern (messageText m) \<noteq> None"
  note step = checkMessages_Cons [OF assms, of p m ms now]
  consider (block) ?byBlock | (slice) "\<not> ?byBlock" ?bySlice
    | (pattern) "\<not> ?byBlock" "\<not> ?bySlice" ?byPattern
    | (none) "\<not> ?byBlock" "\<not> ?bySlice" "\<not> ?byPattern"
    by blast
  then show ?case
  proof cases
    case block
    then have "fst (tryCodeBlocks p (codeBlocks m) st)"
      using tryCodeBlocks_fst [OF assms, of p "codeBlocks m"] by simp
    then have "snd (checkMessages p (m # ms) now st) \<noteq> []"
      unfolding step using block tryCodeBlocks_sent(1) [of p "codeBlocks m" st] by simp
    then show ?thesis using block by (simp del: checkMessages.simps)
  next
    case slice
    then obtain t where t: "matchAnswerPattern (messageText m) = Some t"
        "directlyAccepted p (cleanText t)" by blast
    then have "fst (processResponse p t st)"
      using processResponse_accepts(1) [of p t st] assms by simp
    then have "snd (checkMessages p (m # ms) now st) \<noteq> []"
      unfolding step using slice t processResponse_sent(1) [of p t st] by auto
    then show ?thesis using slice(2) by (auto simp del: checkMessages.simps)
  next
    case pattern
    then have "snd (checkMessages p (m # ms) now st) \<noteq> []"
      unfolding step by auto
    then show ?thesis using pattern(3) by (auto simp del: checkMessages.simps)
  next
    case none
    then have "snd (checkMessages p (m # ms) now st) = snd (checkMessages p ms now st)"
      unfolding step by auto
    then show ?thesis using Cons.IH none by (auto simp del: checkMessages.simps)
  qed
qed

lemma checkMessages_fallback:
  assumes "\<not> hasResponded st"
    and "\<forall>m \<in> set ms.
        \<not> (\<exists>b \<in> set (codeBlocks m). includesText b ''{'' \<and> includesText b ''\"answer\"''
              \<and> directlyAccepted p (cleanText b))
        \<and> \<not> (\<exists>t. matchAnswerPattern (messageText m) = Some t \<and> directlyAccepted p (cleanText t))"
  shows "snd (checkMessages p ms now st) =
     (if 30000 < now - observationStartTime st
      then map DeepseekResponse (take 1 (List.map_filter (\<lambda>m. matchJsonPattern (messageText m)) ms))
      else [])"
  using assms(2)
proof (induction ms)
  case Nil
  then show ?case by (simp add: List.map_filter_simps)
next
  case (Cons m ms)
  then show ?case
    unfolding checkMessages_Cons [OF assms(1)]
    by (auto simp add: List.map_filter_simps simp del: checkMessages.simps split: option.splits)
qed

lemma checkForResponse_sends:
  assumes "\<not> hasResponded st"
  shows "snd (checkForResponse p ms now st) \<noteq> [] \<longleftrightarrow>
     (\<exists>m \<in> set (drop (messageCountAtQuestion st) ms).
        (\<exists>b \<in> set (codeBlocks m). includesText b ''{'' \<and> includesText b ''\"answer\"''
            \<and> directlyAccepted p (cleanText b))
        \<or> (\<exists>t. matchAnswerPattern (messageText m) = Some t \<and> directlyAccepted p (cleanText t))
        \<or> (30000 < now - observationStartTime st \<and> matchJsonPattern (messageText m) \<noteq> None))"
  using assms checkMessages_sends [OF assms, of p "drop (messageCountAtQuestion st) ms" now]
  by (simp add: checkForResponse_def)

lemma checkForResponse_fallback:
  assumes "\<not> hasResponded st"
    and "\<forall>m \<in> set (drop (messageCountAtQuestion st) ms).
        \<not> (\<exists>b \<in> set (codeBlocks m). includesText b ''{'' \<and> includesText b ''\"answer\"''
              \<and> directlyAccepted p (cleanText b))
        \<and> \<not> (\<exists>t. matchAnswerPattern (messageText m) = Some t \<and> directlyAccepted p (cleanText t))"
  shows "snd (checkForResponse p ms now st) =
     (if 30000 < now - observationStartTime st
      then map DeepseekResponse (take 1 (List.map_filter (\<lambda>m. matchJsonPattern (messageText m))
             (drop (messageCountAtQuestion st) ms)))
      else [])"
  using assms(1) checkMessages_fallback [OF assms, of now]
  by (simp add: checkForResponse_def List.map_filter_simps)

lemmas adapter_eval =
  geminiMutation_def geminiFallback_def receiveQuestion_def resetObservation_def
  startObservingGemini_def startObservingDeepSeek_def observationTimedOut_def sendSettled_def
  idleAdapter_def exampleParse_def timerDue_def terminated_def directlyAccepted_def parseThrows_def
  matchJsonPattern_def matchAnswerPattern_def startsWith_def includesText_def
  processResponse_def checkForResponse_def cleanText_def trim_def isSpace_def Let_def

text \<open>
  C1 (as stated).  The claim lets a cycle end only on a successful parse with a truthy
  \<^verbatim>\<open>answer\<close> or after 180 seconds.  Here the newest reply is not valid JSON (a trailing
  comma), 31 seconds have passed and the reply is complete: the fallback pattern matches,
  the match is sent and the observation is reset, long before the timer is due.
\<close>

theorem observation_cycle_counterexample:
  "exampleParse ''{\"answer\":\"B\",\"explanation\":\"x\",}'' = None
   \<and> snd (runEvents (geminiStep exampleParse)
        [QuestionReceived 0, ObservationStarted 0,
         PageChanged \<lparr>messageCount = 1, responseText = ''{\"answer\":\"B\",\"explanation\":\"x\",}'',
                      isGenerating = False,
                      latestText = ''{\"answer\":\"B\",\"explanation\":\"x\",}''\<rparr> 31000]
        idleAdapter)
     = [GeminiResponse ''{\"answer\":\"B\",\"explanation\":\"x\",}'']
   \<and> terminated (fst (runEvents (geminiStep exampleParse)
        [QuestionReceived 0, ObservationStarted 0,
         PageChanged \<lparr>messageCount = 1, responseText = ''{\"answer\":\"B\",\"explanation\":\"x\",}'',
                      isGenerating = False,
                      latestText = ''{\"answer\":\"B\",\"explanation\":\"x\",}''\<rparr> 31000]
        idleAdapter))
   \<and> \<not> timerDue 31000 (startObservingGemini 0 (receiveQuestion 0 idleAdapter))"
  by (simp add: adapter_eval)

text \<open>
  C1 (amended).  Between two starts of observation an adapter sends at most one response,
  and once a cycle is over nothing is sent until observation starts again.  A running
  cycle ends at a look at the page exactly when that look sends a response.  For Gemini
  this happens exactly when there is a new reply and either its extracted text parses as
  JSON with a truthy \<^verbatim>\<open>answer\<close>, and then that text is sent; or parsing throws, the reply
  is no longer being generated, more than 30 seconds have passed and the fallback pattern
  matches its raw text, and then the match is sent unparsed.  For DeepSeek it happens
  exactly when some new reply has a code block (holding a brace and \<^verbatim>\<open>"answer"\<close>) or a
  brace-to-brace slice whose cleaned text parses with a truthy \<^verbatim>\<open>answer\<close>, or, after
  more than 30 seconds, matches the fallback pattern; every response sent is a text that
  parses with a truthy \<^verbatim>\<open>answer\<close> or such a match, and when no new reply has a text
  that parses, the response is the match in the first new reply that has one.  The timer
  armed at the start is due 180 seconds later and ends a cycle that has not responded,
  sending nothing.
\<close>

theorem observation_cycle:
  fixes gevs :: "gemini_view adapter_event list"
    and devs :: "deepseek_message list adapter_event list"
  shows
  "((\<forall>e \<in> set gevs. \<not> isObservationStarted e) \<longrightarrow>
      length (snd (runEvents (geminiStep p) gevs st)) \<le> 1
      \<and> (terminated st \<longrightarrow> snd (runEvents (geminiStep p) gevs st) = []))
   \<and> ((\<forall>e \<in> set devs. \<not> isObservationStarted e) \<longrightarrow>
      length (snd (runEvents (deepseekStep p) devs st)) \<le> 1
      \<and> (terminated st \<longrightarrow> snd (runEvents (deepseekStep p) devs st) = []))
   \<and> (observer st \<and> \<not> hasResponded st \<longrightarrow>
        (terminated (fst (geminiStep p (PageChanged view now) st))
           \<longleftrightarrow> snd (geminiStep p (PageChanged view now) st) \<noteq> [])
        \<and> (snd (geminiStep p (PageChanged view now) st) \<noteq> [] \<longleftrightarrow>
             messageCountAtQuestion st < messageCount view \<and>
             (directlyAccepted p (responseText view)
              \<or> (parseThrows p (responseText view) \<and> \<not> isGenerating view
                  \<and> 30000 < now - observationStartTime st
                  \<and> matchJsonPattern (latestText view) \<noteq> None)))
        \<and> snd (geminiStep p (PageChanged view now) st) =
            (if messageCountAtQuestion st < messageCount view
                  \<and> directlyAccepted p (responseText view)
               then [GeminiResponse (responseText view)]
             else if messageCountAtQuestion st < messageCount view
                  \<and> parseThrows p (responseText view) \<and> \<not> isGenerating view
                  \<and> 30000 < now - observationStartTime st
               then (case matchJsonPattern (latestText view) of
                       None \<Rightarrow> [] | Some m \<Rightarrow> [GeminiResponse m])
             else []))
   \<and> ((observer st \<or> checkIntervalId st) \<and> \<not> hasResponded st \<longrightarrow>
        (terminated (fst (deepseekStep p (PageChanged ms now) st))
           \<longleftrightarrow> snd (deepseekStep p (PageChanged ms now) st) \<noteq> [])
        \<and> (\<forall>e. snd (deepseekStep p (PageChanged ms now) st) = [DeepseekResponse e] \<longrightarrow>
               directlyAccepted p e
               \<or> (30000 < now - observationStartTime st
                   \<and> (\<exists>m \<in> set (drop (messageCountAtQuestion st) ms).
                         matchJsonPattern (messageText m) = Some e)))
        \<and> (snd (deepseekStep p (PageChanged ms now) st) \<noteq> [] \<longleftrightarrow>
             (\<exists>m \<in> set (drop (messageCountAtQuestion st) ms).
                (\<exists>b \<in> set (codeBlocks m). includesText b ''{'' \<and> includesText b ''\"answer\"''
                    \<and> directlyAccepted p (cleanText b))
                \<or> (\<exists>t. matchAnswerPattern (messageText m) = Some t
                      \<and> directlyAccepted p (cleanText t))
                \<or> (30000 < now - observationStartTime st
                    \<and> matchJsonPattern (messageText m) \<noteq> None)))
        \<and> ((\<forall>m \<in> set (drop (messageCountAtQuestion st) ms).
               \<not> (\<exists>b \<in> set (codeBlocks m). includesText b ''{'' \<and> includesText b ''\"answer\"''
                     \<and> directlyAccepted p (cleanText b))
               \<and> \<not> (\<exists>t. matchAnswerPattern (messageText m) = Some t
                       \<and> directlyAccepted p (cleanText t))) \<longrightarrow>
             snd (deepseekStep p (PageChanged ms now) st) =
               (if 30000 < now - observationStartTime st
                then map DeepseekResponse
                       (take 1 (List.map_filter (\<lambda>m. matchJsonPattern (messageText m))
                          (drop (messageCountAtQuestion st) ms)))
                else [])))
   \<and> (timerDue now' (startObservingGemini now st) \<longleftrightarrow> now + 180000 \<le> now')
   \<and> (timerDue now' (startObservingDeepSeek now st) \<longleftrightarrow> now + 180000 \<le> now')
   \<and> (\<not> hasResponded st \<and> timerDue now st \<longrightarrow>
        terminated (fst (geminiStep p (TimerFired now) st))
        \<and> snd (geminiStep p (TimerFired now) st) = []
        \<and> terminated (fst (deepseekStep p (TimerFired now) st))
        \<and> snd (deepseekStep p (TimerFired now) st) = [])"
proof -
  have g1: "(\<forall>e \<in> set gevs. \<not> isObservationStarted e) \<longrightarrow>
      length (snd (runEvents (geminiStep p) gevs st)) \<le> 1
      \<and> (terminated st \<longrightarrow> snd (runEvents (geminiStep p) gevs st) = [])"
    using runEvents_at_most_one [of "geminiStep p" gevs st]
      runEvents_terminated [of "geminiStep p" gevs st]
      geminiStep_emits [of _ p] geminiStep_terminated [of _ _ p]
    by blast
  have d1: "(\<forall>e \<in> set devs. \<not> isObservationStarted e) \<longrightarrow>
      length (snd (runEvents (deepseekStep p) devs st)) \<le> 1
      \<and> (terminated st \<longrightarrow> snd (runEvents (deepseekStep p) devs st) = [])"
    using runEvents_at_most_one [of "deepseekStep p" devs st]
      runEvents_terminated [of "deepseekStep p" devs st]
      deepseekStep_emits [of _ p] deepseekStep_terminated [of _ _ p]
    by blast
  have g3: "observer st \<and> \<not> hasResponded st \<longrightarrow>
        (terminated (fst (geminiStep p (PageChanged view now) st))
           \<longleftrightarrow> snd (geminiStep p (PageChanged view now) st) \<noteq> [])
        \<and> (snd (geminiStep p (PageChanged view now) st) \<noteq> [] \<longleftrightarrow>
             messageCountAtQuestion st < messageCount view \<and>
             (directlyAccepted p (responseText view)
              \<or> (parseThrows p (responseText view) \<and> \<not> isGenerating view
                  \<and> 30000 < now - observationStartTime st
                  \<and> matchJsonPattern (latestText view) \<noteq> None)))
        \<and> snd (geminiStep p (PageChanged view now) st) =
            (if messageCountAtQuestion st < messageCount view
                  \<and> directlyAccepted p (responseText view)
               then [GeminiResponse (responseText view)]
             else if messageCountAtQuestion st < messageCount view
                  \<and> parseThrows p (responseText view) \<and> \<not> isGenerating view
                  \<and> 30000 < now - observationStartTime st
               then (case matchJsonPattern (latestText view) of
                       None \<Rightarrow> [] | Some m \<Rightarrow> [GeminiResponse m])
             else [])"
  proof (intro impI conjI)
    assume running: "observer st \<and> \<not> hasResponded st"
    show "terminated (fst (geminiStep p (PageChanged view now) st))
           \<longleftrightarrow> snd (geminiStep p (PageChanged view now) st) \<noteq> []"
      using running geminiMutation_terminates [of st p view now] by simp
    show "snd (geminiStep p (PageChanged view now) st) \<noteq> [] \<longleftrightarrow>
             messageCountAtQuestion st < messageCount view \<and>
             (directlyAccepted p (responseText view)
              \<or> (parseThrows p (responseText view) \<and> \<not> isGenerating view
                  \<and> 30000 < now - observationStartTime st
                  \<and> matchJsonPattern (latestText view) \<noteq> None))"
      using running geminiMutation_running [of st p view now]
      by (simp add: directlyAccepted_iff parseThrows_iff)
    show "snd (geminiStep p (PageChanged view now) st) =
            (if messageCountAtQuestion st < messageCount view
                  \<and> directlyAccepted p (responseText view)
               then [GeminiResponse (responseText view)]
             else if messageCountAtQuestion st < messageCount view
                  \<and> parseThrows p (responseText view) \<and> \<not> isGenerating view
                  \<and> 30000 < now - observationStartTime st
               then (case matchJsonPattern (latestText view) of
                       None \<Rightarrow> [] | Some m \<Rightarrow> [GeminiResponse m])
             else [])"
      using running geminiMutation_output [of st p view now] by simp
  qed
  have d3: "(observer st \<or> checkIntervalId st) \<and> \<not> hasResponded st \<longrightarrow>
        (terminated (fst (deepseekStep p (PageChanged ms now) st))
           \<longleftrightarrow> snd (deepseekStep p (PageChanged ms now) st) \<noteq> [])
        \<and> (\<forall>e. snd (deepseekStep p (PageChanged ms now) st) = [DeepseekResponse e] \<longrightarrow>
               directlyAccepted p e
               \<or> (30000 < now - observationStartTime st
                   \<and> (\<exists>m \<in> set (drop (messageCountAtQuestion st) ms).
                         matchJsonPattern (messageText m) = Some e)))
        \<and> (snd (deepseekStep p (PageChanged ms now) st) \<noteq> [] \<longleftrightarrow>
             (\<exists>m \<in> set (drop (messageCountAtQuestion st) ms).
                (\<exists>b \<in> set (codeBlocks m). includesText b ''{'' \<and> includesText b ''\"answer\"''
                    \<and> directlyAccepted p (cleanText b))
                \<or> (\<exists>t. matchAnswerPattern (messageText m) = Some t
                      \<and> directlyAccepted p (cleanText t))
                \<or> (30000 < now - observationStartTime st
                    \<and> matchJsonPattern (messageText m) \<noteq> None)))
        \<and> ((\<forall>m \<in> set (drop (messageCountAtQuestion st) ms).
               \<not> (\<exists>b \<in> set (codeBlocks m). includesText b ''{'' \<and> includesText b ''\"answer\"''
                     \<and> directlyAccepted p (cleanText b))
               \<and> \<not> (\<exists>t. matchAnswerPattern (messageText m) = Some t
                       \<and> directlyAccepted p (cleanText t))) \<longrightarrow>
             snd (deepseekStep p (PageChanged ms now) st) =
               (if 30000 < now - observationStartTime st
                then map DeepseekResponse
                       (take 1 (List.map_filter (\<lambda>m. matchJsonPattern (messageText m))
                          (drop (messageCountAtQuestion st) ms)))
                else []))"
  proof (intro impI conjI allI)
    assume running: "(observer st \<or> checkIntervalId st) \<and> \<not> hasResponded st"
    then have step: "deepseekStep p (PageChanged ms now) st = checkForResponse p ms now st"
      and fresh: "\<not> hasResponded st"
      by auto
    show "terminated (fst (deepseekStep p (PageChanged ms now) st))
           \<longleftrightarrow> snd (deepseekStep p (PageChanged ms now) st) \<noteq> []"
      unfolding step using running checkForResponse_terminates [of st p ms now] by simp
    show "directlyAccepted p e
               \<or> (30000 < now - observationStartTime st
                   \<and> (\<exists>m \<in> set (drop (messageCountAtQuestion st) ms).
                         matchJsonPattern (messageText m) = Some e))"
      if "snd (deepseekStep p (PageChanged ms now) st) = [DeepseekResponse e]" for e
      using that deepseek_emitted [of p ms now st e] unfolding step by simp
    show "snd (deepseekStep p (PageChanged ms now) st) \<noteq> [] \<longleftrightarrow>
             (\<exists>m \<in> set (drop (messageCountAtQuestion st) ms).
                (\<exists>b \<in> set (codeBlocks m). includesText b ''{'' \<and> includesText b ''\"answer\"''
                    \<and> directlyAccepted p (cleanText b))
                \<or> (\<exists>t. matchAnswerPattern (messageText m) = Some t
                      \<and> directlyAccepted p (cleanText t))
                \<or> (30000 < now - observationStartTime st
                    \<and> matchJsonPattern (messageText m) \<noteq> None))"
      unfolding step by (rule checkForResponse_sends [OF fresh])
    show "snd (deepseekStep p (PageChanged ms now) st) =
               (if 30000 < now - observationStartTime st
                then map DeepseekResponse
                       (take 1 (List.map_filter (\<lambda>m. matchJsonPattern (messageText m))
                          (drop (messageCountAtQuestion st) ms)))
                else [])"
      if "\<forall>m \<in> set (drop (messageCountAtQuestion st) ms).
               \<not> (\<exists>b \<in> set (codeBlocks m). includesText b ''{'' \<and> includesText b ''\"answer\"''
                     \<and> directlyAccepted p (cleanText b))
               \<and> \<not> (\<exists>t. matchAnswerPattern (messageText m) = Some t
                       \<and> directlyAccepted p (cleanText t))"
      unfolding step by (rule checkForResponse_fallback [OF fresh that])
  qed
  have t: "\<not> hasResponded st \<and> timerDue now st \<longrightarrow>
        terminated (fst (geminiStep p (TimerFired now) st))
        \<and> snd (geminiStep p (TimerFired now) st) = []
        \<and> terminated (fst (deepseekStep p (TimerFired now) st))
        \<and> snd (deepseekStep p (TimerFired now) st) = []"
    by (simp add: timer_facts)
  note tg = timer_facts(1) [of now' now st]
  note td = timer_facts(2) [of now' now st]
  from g1 d1 g3 d3 tg td t show ?thesis by (intro conjI)
qed

theorem observation_cycle_witness:
  "snd (runEvents (geminiStep exampleParse)
        [PageChanged \<lparr>messageCount = 1, responseText = ''{\"answer\":'', isGenerating = True,
                      latestText = ''{\"answer\":''\<rparr> 1000,
         PageChanged \<lparr>messageCount = 1, responseText = ''{\"answer\":\"B\",\"explanation\":\"x\"}'',
                      isGenerating = False,
                      latestText = ''{\"answer\":\"B\",\"explanation\":\"x\"}''\<rparr> 2000,
         PageChanged \<lparr>messageCount = 1, responseText = ''{\"answer\":\"B\",\"explanation\":\"x\"}'',
                      isGenerating = False,
                      latestText = ''{\"answer\":\"B\",\"explanation\":\"x\"}''\<rparr> 3000,
         SendSettled True,
         PageChanged \<lparr>messageCount = 1, responseText = ''{\"answer\":\"B\",\"explanation\":\"x\"}'',
                      isGenerating = False,
                      latestText = ''{\"answer\":\"B\",\"explanation\":\"x\"}''\<rparr> 4000]
        (startObservingGemini 0 (receiveQuestion 0 idleAdapter)))
     = [GeminiResponse ''{\"answer\":\"B\",\"explanation\":\"x\"}'']
   \<and> snd (runEvents (deepseekStep exampleParse)
        [PageChanged [\<lparr>codeBlocks = [], messageText = ''The answer is {\"answer\":\"B\",\"explanation\":\"x\"}''\<rparr>] 2000,
         SendSettled True,
         PageChanged [\<lparr>codeBlocks = [], messageText = ''The answer is {\"answer\":\"B\",\"explanation\":\"x\"}''\<rparr>] 3000]
        (startObservingDeepSeek 0 (receiveQuestion 0 idleAdapter)))
     = [DeepseekResponse ''{\"answer\":\"B\",\"explanation\":\"x\"}'']
   \<and> timerDue 180000 (startObservingGemini 0 (receiveQuestion 0 idleAdapter))
   \<and> terminated (fst (geminiStep exampleParse (TimerFired 180000)
        (startObservingGemini 0 (receiveQuestion 0 idleAdapter))))
   \<and> snd (deepseekStep exampleParse
        (PageChanged [\<lparr>codeBlocks = [], messageText = ''{\"answer\":\"B\",\"explanation\":\"x\",}''\<rparr>] 1000)
        (startObservingDeepSeek 0 (receiveQuestion 0 idleAdapter))) = []
   \<and> snd (deepseekStep exampleParse
        (PageChanged [\<lparr>codeBlocks = [], messageText = ''{\"answer\":\"B\",\"explanation\":\"x\",}''\<rparr>] 31000)
        (startObservingDeepSeek 0 (receiveQuestion 0 idleAdapter)))
     = [DeepseekResponse ''{\"answer\":\"B\",\"explanation\":\"x\",}'']"
  using observation_cycle
    [where gevs = "[PageChanged \<lparr>messageCount = 1, responseText = ''{\"answer\":'', isGenerating = True,
                      latestText = ''{\"answer\":''\<rparr> 1000,
         PageChanged \<lparr>messageCount = 1, responseText = ''{\"answer\":\"B\",\"explanation\":\"x\"}'',
                      isGenerating = False,
                      latestText = ''{\"answer\":\"B\",\"explanation\":\"x\"}''\<rparr> 2000,
         PageChanged \<lparr>messageCount = 1, responseText = ''{\"answer\":\"B\",\"explanation\":\"x\"}'',
                      isGenerating = False,
                      latestText = ''{\"answer\":\"B\",\"explanation\":\"x\"}''\<rparr> 3000,
         SendSettled True,
         PageChanged \<lparr>messageCount = 1, responseText = ''{\"answer\":\"B\",\"explanation\":\"x\"}'',
                      isGenerating = False,
                      latestText = ''{\"answer\":\"B\",\"explanation\":\"x\"}''\<rparr> 4000]"
       and p = exampleParse and st = "startObservingGemini 0 (receiveQuestion 0 idleAdapter)"
       and devs = "[PageChanged [\<lparr>codeBlocks = [], messageText = ''The answer is {\"answer\":\"B\",\"explanation\":\"x\"}''\<rparr>] 2000,
         SendSettled True,
         PageChanged [\<lparr>codeBlocks = [], messageText = ''The answer is {\"answer\":\"B\",\"explanation\":\"x\"}''\<rparr>] 3000]"
       and now = 180000 and now' = 180000]
    observation_cycle
    [where gevs = "[]" and p = exampleParse
       and st = "startObservingDeepSeek 0 (receiveQuestion 0 idleAdapter)"
       and devs = "[PageChanged [\<lparr>codeBlocks = [], messageText = ''The answer is {\"answer\":\"B\",\"explanation\":\"x\"}''\<rparr>] 2000,
         SendSettled True,
         PageChanged [\<lparr>codeBlocks = [], messageText = ''The answer is {\"answer\":\"B\",\"explanation\":\"x\"}''\<rparr>] 3000]"
       and now = 180000 and now' = 180000]
    observation_cycle
    [where gevs = "[]" and devs = "[]" and p = exampleParse
       and st = "startObservingDeepSeek 0 (receiveQuestion 0 idleAdapter)"
       and ms = "[\<lparr>codeBlocks = [], messageText = ''{\"answer\":\"B\",\"explanation\":\"x\",}''\<rparr>]"
       and now = 31000 and now' = 180000]
  by (simp add: adapter_eval)

text \<open>
  C5.  At most 30 seconds after the start of observation, whatever an adapter sends is a
  text that parses as JSON with a truthy \<^verbatim>\<open>answer\<close> (for Gemini: the extracted text
  itself), so the fallback pattern alone never sends inside that window.  A text that
  parses with a truthy \<^verbatim>\<open>answer\<close> is sent at any time: by the Gemini callback for a new
  reply, and by \<^verbatim>\<open>checkForResponse\<close> for a code block of a new reply.
\<close>

theorem grace_period:
  "(now - observationStartTime st \<le> 30000 \<longrightarrow>
      (snd (geminiMutation p view now st) \<noteq> [] \<longrightarrow>
         snd (geminiMutation p view now st) = [GeminiResponse (responseText view)]
         \<and> directlyAccepted p (responseText view))
      \<and> (snd (checkForResponse p ms now st) \<noteq> [] \<longrightarrow>
         (\<exists>e. snd (checkForResponse p ms now st) = [DeepseekResponse e] \<and> directlyAccepted p e)))
   \<and> (\<not> hasResponded st \<and> messageCountAtQuestion st < messageCount view
        \<and> directlyAccepted p (responseText view) \<longrightarrow>
      snd (geminiMutation p view now st) = [GeminiResponse (responseText view)])
   \<and> (\<not> hasResponded st \<and> length ms = messageCountAtQuestion st
        \<and> includesText b ''{'' \<and> includesText b ''\"answer\"'' \<and> directlyAccepted p (cleanText b) \<longrightarrow>
      snd (checkForResponse p (ms @ [\<lparr>codeBlocks = b # bs, messageText = full\<rparr>]) now st)
        = [DeepseekResponse (cleanText b)])"
  using geminiMutation_grace [of now st p view] checkForResponse_grace [of now st p ms]
    geminiMutation_accepts [of st view p now] checkForResponse_accepts [of st ms b p bs full now]
  by blast

theorem grace_period_witness:
  "snd (geminiMutation exampleParse
        \<lparr>messageCount = 1, responseText = ''{\"answer\":\"B\",\"explanation\":\"x\"}'',
         isGenerating = True, latestText = ''{\"answer\":\"B\",\"explanation\":\"x\"}''\<rparr>
        1000 (startObservingGemini 0 (receiveQuestion 0 idleAdapter)))
     = [GeminiResponse ''{\"answer\":\"B\",\"explanation\":\"x\"}'']
   \<and> snd (geminiMutation exampleParse
        \<lparr>messageCount = 1, responseText = ''{\"answer\":\"B\",\"explanation\":\"x\",}'',
         isGenerating = False, latestText = ''{\"answer\":\"B\",\"explanation\":\"x\",}''\<rparr>
        30000 (startObservingGemini 0 (receiveQuestion 0 idleAdapter)))
     = []
   \<and> snd (checkForResponse exampleParse
        [\<lparr>codeBlocks = [''{\"answer\":\"B\",\"explanation\":\"x\"}''], messageText = ''ok''\<rparr>]
        1000 (startObservingDeepSeek 0 (receiveQuestion 0 idleAdapter)))
     = [DeepseekResponse ''{\"answer\":\"B\",\"explanation\":\"x\"}'']
   \<and> snd (checkForResponse exampleParse
        [\<lparr>codeBlocks = [], messageText = ''{\"answer\":\"B\",\"explanation\":\"x\",}''\<rparr>]
        30000 (startObservingDeepSeek 0 (receiveQuestion 0 idleAdapter)))
     = []"
  using grace_period
    [where now = 1000 and st = "startObservingGemini 0 (receiveQuestion 0 idleAdapter)"
       and p = exampleParse
       and view = "\<lparr>messageCount = 1, responseText = ''{\"answer\":\"B\",\"explanation\":\"x\"}'',
         isGenerating = True, latestText = ''{\"answer\":\"B\",\"explanation\":\"x\"}''\<rparr>"
       and ms = "[]"]
    grace_period
    [where now = 30000 and st = "startObservingGemini 0 (receiveQuestion 0 idleAdapter)"
       and p = exampleParse
       and view = "\<lparr>messageCount = 1, responseText = ''{\"answer\":\"B\",\"explanation\":\"x\",}'',
         isGenerating = False, latestText = ''{\"answer\":\"B\",\"explanation\":\"x\",}''\<rparr>"
       and ms = "[]"]
    grace_period
    [where now = 1000 and st = "startObservingDeepSeek 0 (receiveQuestion 0 idleAdapter)"
       and p = exampleParse and ms = "[]" and b = "''{\"answer\":\"B\",\"explanation\":\"x\"}''"
       and bs = "[]" and full = "''ok''"]
    grace_period
    [where now = 30000 and st = "startObservingDeepSeek 0 (receiveQuestion 0 idleAdapter)"
       and p = exampleParse
       and ms = "[\<lparr>codeBlocks = [], messageText = ''{\"answer\":\"B\",\"explanation\":\"x\",}''\<rparr>]"]
  by (simp add: adapter_eval)

text \<open>
  C7 (as stated).  The claim promises that an accepted reply has exactly the keys
  \<^verbatim>\<open>answer\<close> and \<^verbatim>\<open>explanation\<close> and a non-empty \<^verbatim>\<open>answer\<close>.  Both adapters accept
  and send a reply whose \<^verbatim>\<open>answer\<close> is the empty array (an empty array is truthy) and
  which has no \<^verbatim>\<open>explanation\<close>; Gemini accepts a string answer without
  \<^verbatim>\<open>explanation\<close> in the same way.
\<close>

theorem reply_acceptance_counterexample:
  "exampleParse ''{\"answer\":[]}'' = Some (JObj [(''answer'', JArr [])])
   \<and> snd (geminiMutation exampleParse
        \<lparr>messageCount = 1, responseText = ''{\"answer\":[]}'', isGenerating = True,
         latestText = ''{\"answer\":[]}''\<rparr>
        1000 (startObservingGemini 0 (receiveQuestion 0 idleAdapter)))
     = [GeminiResponse ''{\"answer\":[]}'']
   \<and> processResponse exampleParse ''{\"answer\":[]}''
        (startObservingDeepSeek 0 (receiveQuestion 0 idleAdapter))
     = (True,
        (startObservingDeepSeek 0 (receiveQuestion 0 idleAdapter))\<lparr>hasResponded := True, sendPending := 1\<rparr>,
        [DeepseekResponse ''{\"answer\":[]}''])
   \<and> exampleParse ''{\"answer\":\"B\"}'' = Some (JObj [(''answer'', JStr ''B'')])
   \<and> snd (geminiMutation exampleParse
        \<lparr>messageCount = 1, responseText = ''{\"answer\":\"B\"}'', isGenerating = True,
         latestText = ''{\"answer\":\"B\"}''\<rparr>
        1000 (startObservingGemini 0 (receiveQuestion 0 idleAdapter)))
     = [GeminiResponse ''{\"answer\":\"B\"}'']"
  by (simp add: adapter_eval)

text \<open>
  C7 (amended).  A reply is accepted by parsing exactly when its text parses as JSON to a
  value whose \<^verbatim>\<open>answer\<close> property is truthy; nothing else of the parsed object is
  looked at, neither \<^verbatim>\<open>explanation\<close> nor further keys.  An accepted \<^verbatim>\<open>answer\<close> that is
  a string is therefore never empty.  On the textbook page nothing is applied when
  \<^verbatim>\<open>JSON.parse\<close> throws.
\<close>

theorem reply_acceptance:
  "(\<not> hasResponded st \<and> messageCountAtQuestion st < messageCount view
       \<and> \<not> parseThrows p (responseText view) \<longrightarrow>
      snd (geminiMutation p view now st) =
        (if directlyAccepted p (responseText view) then [GeminiResponse (responseText view)] else []))
   \<and> (fst (processResponse p t st) \<longleftrightarrow> \<not> hasResponded st \<and> directlyAccepted p (cleanText t))
   \<and> (directlyAccepted p t \<longleftrightarrow>
        (\<exists>parsed v. p t = Some parsed \<and> answerProperty parsed = Defined v \<and> truthy v))
   \<and> (directlyAccepted p t \<and> p t = Some parsed \<and> answerProperty parsed = Defined (JStr s) \<longrightarrow> s \<noteq> [])
   \<and> (map_of kvs ''answer'' = map_of kvs' ''answer'' \<longrightarrow>
        truthyProperty (answerProperty (JObj kvs)) = truthyProperty (answerProperty (JObj kvs')))
   \<and> apPage (processChatGPTResponse None edu pg) = pg"
proof -
  have a: "\<not> hasResponded st \<and> messageCountAtQuestion st < messageCount view
       \<and> \<not> parseThrows p (responseText view) \<longrightarrow>
      snd (geminiMutation p view now st) =
        (if directlyAccepted p (responseText view) then [GeminiResponse (responseText view)] else [])"
    by (auto simp: geminiMutation_def directlyAccepted_def parseThrows_def
        split: option.splits property.splits)
  have b: "directlyAccepted p t \<longleftrightarrow>
        (\<exists>parsed v. p t = Some parsed \<and> answerProperty parsed = Defined v \<and> truthy v)"
  proof -
    have "truthyProperty q \<longleftrightarrow> (\<exists>v. q = Defined v \<and> truthy v)" for q
      by (cases q) simp_all
    then show ?thesis by (simp add: directlyAccepted_iff)
  qed
  have c: "directlyAccepted p t \<and> p t = Some parsed \<and> answerProperty parsed = Defined (JStr s) \<longrightarrow> s \<noteq> []"
    by (auto simp: directlyAccepted_def)
  have d: "map_of kvs ''answer'' = map_of kvs' ''answer'' \<longrightarrow>
        truthyProperty (answerProperty (JObj kvs)) = truthyProperty (answerProperty (JObj kvs'))"
    by simp
  have e: "apPage (processChatGPTResponse None edu pg) = pg"
    by (simp add: processChatGPTResponse_def Let_def)
  show ?thesis using a b c d e processResponse_accepts(1) [of p t st] by blast
qed

theorem reply_acceptance_witness:
  "snd (geminiMutation exampleParse
        \<lparr>messageCount = 1, responseText = ''{\"answer\":\"B\",\"explanation\":\"x\"}'',
         isGenerating = True, latestText = ''{\"answer\":\"B\",\"explanation\":\"x\"}''\<rparr>
        1000 (startObservingGemini 0 (receiveQuestion 0 idleAdapter)))
     = [GeminiResponse ''{\"answer\":\"B\",\"explanation\":\"x\"}'']
   \<and> fst (processResponse exampleParse ''{\"answer\":\"B\",\"explanation\":\"x\"}''
        (startObservingDeepSeek 0 (receiveQuestion 0 idleAdapter)))
"
  using reply_acceptance
    [where st = "startObservingGemini 0 (receiveQuestion 0 idleAdapter)"
       and p = exampleParse and now = 1000
       and view = "\<lparr>messageCount = 1, responseText = ''{\"answer\":\"B\",\"explanation\":\"x\"}'',
         isGenerating = True, latestText = ''{\"answer\":\"B\",\"explanation\":\"x\"}''\<rparr>"
       and t = "''{\"answer\":\"B\",\"explanation\":\"x\"}''"
       and parsed = "JObj [(''answer'', JStr ''B''), (''explanation'', JStr ''x'')]" and s = "''B''"]
    reply_acceptance
    [where st = "startObservingDeepSeek 0 (receiveQuestion 0 idleAdapter)"
       and p = exampleParse and t = "''{\"answer\":\"B\",\"explanation\":\"x\"}''"]
  by (simp add: adapter_eval)

subsection \<open>Correction context\<close>

lemma splitAtFirst_append:
  "splitAtFirst sep s = Some (first, others) \<Longrightarrow> s = first @ sep @ others"
proof (induction s arbitrary: first)
  case Nil
  then show ?case by (simp split: if_splits)
next
  case (Cons c cs)
  show ?case
  proof (cases "startsWith sep (c # cs)")
    case True
    then have "first = []" "others = drop (length sep) (c # cs)" using Cons.prems by simp_all
    moreover have "c # cs = sep @ drop (length sep) (c # cs)"
      using True unfolding startsWith_def by (metis append_take_drop_id)
    ultimately show ?thesis by simp
  next
    case False
    then obtain f where f: "splitAtFirst sep cs = Some (f, others)" "first = c # f"
      using Cons.prems by auto
    then show ?thesis using Cons.IH [of f] by simp
  qed
qed

lemma splitAtFirst_first:
  "splitAtFirst sep s = Some (first, others) \<Longrightarrow> s = pre @ sep @ post \<Longrightarrow> length first \<le> length pre"
proof (induction s arbitrary: first pre)
  case Nil
  then show ?case by (simp split: if_splits)
next
  case (Cons c cs)
  show ?case
  proof (cases "startsWith sep (c # cs)")
    case True
    then have "first = []" using Cons.prems(1) by simp
    then show ?thesis by simp
  next
    case False
    then obtain f where f: "splitAtFirst sep cs = Some (f, others)" "first = c # f"
      using Cons.prems(1) by auto
    have "pre \<noteq> []"
    proof
      assume "pre = []"
      then have "startsWith sep (c # cs)" using Cons.prems(2) by (simp add: startsWith_def)
      then show False using False by simp
    qed
    then obtain pre' where pre: "pre = c # pre'" "cs = pre' @ sep @ post"
      using Cons.prems(2) by (cases pre) auto
    then show ?thesis using Cons.IH [OF f(1), of pre'] f(2) by simp
  qed
qed

lemma stripFieldPrefix_match:
  assumes "digits \<noteq> []" "\<forall>c \<in> set digits. isDigit c" "\<forall>c \<in> set ws. isSpace c"
    "rest = [] \<or> \<not> isSpace (hd rest)"
  shows "stripFieldPrefix (''Field '' @ digits @ '':'' @ ws @ rest) = rest"
proof -
  have nd: "\<not> isDigit CHR '':''" by (simp add: isDigit_def)
  have tw: "takeWhile isDigit (digits @ '':'' @ ws @ rest) = digits"
    using assms(2) nd by (simp add: takeWhile_append2)
  have dw: "dropWhile isDigit (digits @ '':'' @ ws @ rest) = '':'' @ ws @ rest"
    using assms(2) nd by (simp add: dropWhile_append2)
  have ds: "dropWhile isSpace (ws @ rest) = rest"
    using assms(3,4) by (cases rest) (simp_all add: dropWhile_append2)
  show ?thesis
    using assms(1) tw dw ds by (simp add: stripFieldPrefix_def startsWith_def Let_def)
qed

lemma cleanString_eq:
  "cleanString a =
     (case splitAtFirst '' or '' (stripFieldPrefix (trim a)) of
        None \<Rightarrow> stripFieldPrefix (trim a)
      | Some (first, others) \<Rightarrow> trim first)"
  by (simp add: cleanString_def includesText_def Let_def split: option.splits)


lemma trim_spaces:
  assumes "\<forall>c \<in> set before. isSpace c" "\<forall>c \<in> set after. isSpace c"
    "s = [] \<or> (\<not> isSpace (hd s) \<and> \<not> isSpace (last s))"
  shows "trim (before @ s @ after) = s"
proof (cases "s = []")
  case True
  have "\<forall>c \<in> set (before @ after). isSpace c" using assms(1,2) by auto
  then have "dropWhile isSpace (before @ after) = []"
    by (simp only: dropWhile_eq_Nil_conv)
  then have "trim (before @ after) = []"
    by (simp only: trim_def rev.simps dropWhile.simps)
  then show ?thesis using True by simp
next
  case False
  then have edges: "\<not> isSpace (hd s)" "\<not> isSpace (last s)" using assms(3) by simp_all
  have front: "dropWhile isSpace (before @ s @ after) = s @ after"
    using assms(1) False edges(1) by (cases s) (simp_all add: dropWhile_append2)
  obtain y ys where s: "s = ys @ [y]" using False by (cases s rule: rev_cases) auto
  have "\<And>x. x \<in> set (rev after) \<Longrightarrow> isSpace x" using assms(2) by simp
  then have "dropWhile isSpace (rev after @ rev s) = dropWhile isSpace (rev s)"
    by (rule dropWhile_append2)
  also have "\<dots> = rev s" using edges(2) s by simp
  finally show ?thesis using front by (simp add: trim_def)
qed

lemma insertQuestionText_preamble:
  assumes "q \<noteq> []" "truthyAnswer a"
  shows "insertQuestionText (qd\<lparr>previousCorrection := Some (q, Some a)\<rparr>) =
     map_option ((@) (correctionPreamble q a)) (insertQuestionText (qd\<lparr>previousCorrection := None\<rparr>))"
  using assms
  by (simp add: insertQuestionText_def Let_def split: options.splits)

lemma parseQuestion_correction:
  assumes "probeContainer pg" "lastIncorrectQuestion st = Some q" "q \<noteq> []"
  shows "\<exists>qd. parseQuestion st pg = Some qd \<and> previousCorrection qd = Some (q, lastCorrectAnswer st)
     \<and> parseQuestion (st\<lparr>lastIncorrectQuestion := None, lastCorrectAnswer := None\<rparr>) pg
         = Some (qd\<lparr>previousCorrection := None\<rparr>)"
  using assms by (simp add: parseQuestion_def Let_def)

lemmas correction_eval =
  recordCorrection_def truthyAnswer_def cleanAnswer_def cleanString_def
  stripFieldPrefix_def trim_def isSpace_def isDigit_def startsWith_def includesText_def
  initialEdu_def examplePage_def parseQuestion_def sendQuestionIfReady_def insertQuestionText_def
  correctionPreamble_def jsonStringify_def jsonQuote_def jsonEscape_def numbered_def showNat.simps
  processChatGPTResponse_def answersOf_def Let_def

text \<open>
  C8 (as stated).  The claim has the slot emptied once the prompt that carries it is
  sent.  Here grading has revealed \<^verbatim>\<open>Field 1: Paris or Paris, France\<close>; the next question
  goes out with the correction.  Sending changes no variable, and the reply that comes
  back is not valid JSON (as the unparsed match that the fallback of an adapter sends can
  be), so \<^verbatim>\<open>JSON.parse\<close> throws on the textbook page: the slot still holds the
  correction and the question sent next carries it again.  The same happens when a reply
  that parses arrives while the page shows a topic overview.
\<close>

theorem correction_context_counterexample:
  "map_option previousCorrection
       (sendQuestionIfReady
          (recordCorrection True
             (Some \<lparr>correctionQuestion = ''Capital of France?'',
                    correctionAnswer = Single ''Field 1: Paris or Paris, France''\<rparr>) initialEdu)
          examplePage)
     = Some (Some (''Capital of France?'', Some (Single ''Paris'')))
   \<and> lastIncorrectQuestion (apState (processChatGPTResponse None
          (recordCorrection True
             (Some \<lparr>correctionQuestion = ''Capital of France?'',
                    correctionAnswer = Single ''Field 1: Paris or Paris, France''\<rparr>) initialEdu)
          examplePage))
     = Some ''Capital of France?''
   \<and> lastCorrectAnswer (apState (processChatGPTResponse None
          (recordCorrection True
             (Some \<lparr>correctionQuestion = ''Capital of France?'',
                    correctionAnswer = Single ''Field 1: Paris or Paris, France''\<rparr>) initialEdu)
          examplePage))
     = Some (Single ''Paris'')
   \<and> map_option previousCorrection
       (sendQuestionIfReady
          (apState (processChatGPTResponse None
             (recordCorrection True
                (Some \<lparr>correctionQuestion = ''Capital of France?'',
                       correctionAnswer = Single ''Field 1: Paris or Paris, France''\<rparr>) initialEdu)
             examplePage))
          examplePage)
     = Some (Some (''Capital of France?'', Some (Single ''Paris'')))
   \<and> lastIncorrectQuestion (apState (processChatGPTResponse (Some (Single ''Paris''))
          (recordCorrection True
             (Some \<lparr>correctionQuestion = ''Capital of France?'',
                    correctionAnswer = Single ''Field 1: Paris or Paris, France''\<rparr>) initialEdu)
          (examplePage\<lparr>topicOverview := True\<rparr>)))
     = Some ''Capital of France?''"
  by (simp add: correction_eval)

text \<open>
  C8 (amended).  When grading reveals a correct answer, the answer stored with the
  question is \<^verbatim>\<open>cleanAnswer\<close> of the revealed text: trimmed, a leading \<^verbatim>\<open>Field N:\<close> with
  the white space after it removed, and cut before the first \<^verbatim>\<open>" or "\<close>, the part kept
  trimmed again (the revealed text \<^verbatim>\<open>Field 1: Paris or Paris, France\<close> gives \<^verbatim>\<open>Paris\<close>);
  an array of revealed texts is cleaned item by item and an empty text is kept.  Nothing
  is stored when the page does not mark the answer incorrect, when no answer is found, or
  when the answer found is the empty text.  A stored context (question and answer both
  truthy: text that is not empty, or an array) goes into the payload of every question
  built while it is stored, and is put in front of the prompt as the correction preamble;
  the questions sent, after the delay or by skipping it, are the ones so built.  Sending
  changes no variable.  The
  one slot is emptied when a reply is applied: exactly when the page then shows neither
  a topic overview nor a forced-learning prompt, the reply parses, and the question
  container exists.  In every other case the slot keeps what it held.
\<close>

theorem correction_context:
  "cleanAnswer (Single ''Field 1: Paris or Paris, France'') = Single ''Paris''
   \<and> cleanAnswer (Single ''  Field 12:  Paris  or Rome '') = Single ''Paris''
   \<and> cleanAnswer (Single (CHR 0xA0 # ''Field 1:'' @ [CHR 0xA0] @ ''Paris'' @ [CHR 0xA0])) = Single ''Paris''
   \<and> cleanAnswer (Many [''Field 1: Paris or Paris, France'', [], ''Field 2: Rome''])
       = Many [''Paris'', [], ''Rome'']
   \<and> cleanAnswer (Single []) = Single []
   \<and> (revealed \<noteq> [] \<longrightarrow>
        cleanAnswer (Single revealed) =
          Single (case splitAtFirst '' or '' (stripFieldPrefix (trim revealed)) of
                    None \<Rightarrow> stripFieldPrefix (trim revealed)
                  | Some (first, others) \<Rightarrow> trim first))
   \<and> cleanAnswer (Many items) =
        Many (map (\<lambda>item. if item = [] then []
                else (case splitAtFirst '' or '' (stripFieldPrefix (trim item)) of
                        None \<Rightarrow> stripFieldPrefix (trim item)
                      | Some (first, others) \<Rightarrow> trim first)) items)
   \<and> (isSpace c \<longleftrightarrow> of_char c \<in> {9, 10, 11, 12, 13, 32, 160 :: nat})
   \<and> ((\<forall>c \<in> set before. isSpace c) \<and> (\<forall>c \<in> set after. isSpace c)
        \<and> (body = [] \<or> (\<not> isSpace (hd body) \<and> \<not> isSpace (last body))) \<longrightarrow>
        trim (before @ body @ after) = body)
   \<and> (digits \<noteq> [] \<and> (\<forall>c \<in> set digits. isDigit c) \<and> (\<forall>c \<in> set ws. isSpace c)
        \<and> (rest = [] \<or> \<not> isSpace (hd rest)) \<longrightarrow>
        stripFieldPrefix (''Field '' @ digits @ '':'' @ ws @ rest) = rest)
   \<and> (\<not> startsWith ''Field '' s \<longrightarrow> stripFieldPrefix s = s)
   \<and> (splitAtFirst '' or '' s = Some (first, others) \<longrightarrow>
        s = first @ '' or '' @ others
        \<and> (\<forall>pre post. s = pre @ '' or '' @ post \<longrightarrow> length first \<le> length pre))
   \<and> (truthyAnswer (correctionAnswer cd) \<longrightarrow>
        lastIncorrectQuestion (recordCorrection True (Some cd) st) = Some (correctionQuestion cd)
        \<and> lastCorrectAnswer (recordCorrection True (Some cd) st) = Some (cleanAnswer (correctionAnswer cd)))
   \<and> (\<not> truthyAnswer (correctionAnswer cd) \<longrightarrow> recordCorrection True (Some cd) st = st)
   \<and> recordCorrection True None st = st
   \<and> recordCorrection False found st = st
   \<and> (probeContainer pg \<and> lastIncorrectQuestion st = Some q \<and> q \<noteq> []
        \<and> lastCorrectAnswer st = Some a \<and> truthyAnswer a \<longrightarrow>
        (\<exists>qd. parseQuestion st pg = Some qd
           \<and> previousCorrection qd = Some (q, Some a)
           \<and> insertQuestionText qd =
               map_option ((@) (correctionPreamble q a))
                 (insertQuestionText (qd\<lparr>previousCorrection := None\<rparr>))))
   \<and> sendQuestionIfReady st pg \<in> {None, parseQuestion st pg}
   \<and> skipCurrentDelay st pg \<in> {None, parseQuestion st pg}
   \<and> lastIncorrectQuestion (apState (processChatGPTResponse reply st pg)) =
        (if \<not> topicOverview pg \<and> \<not> forcedLearning pg \<and> reply \<noteq> None \<and> probeContainer pg
         then None else lastIncorrectQuestion st)
   \<and> lastCorrectAnswer (apState (processChatGPTResponse reply st pg)) =
        (if \<not> topicOverview pg \<and> \<not> forcedLearning pg \<and> reply \<noteq> None \<and> probeContainer pg
         then None else lastCorrectAnswer st)"
proof -
  have a1: "cleanAnswer (Single ''Field 1: Paris or Paris, France'') = Single ''Paris''"
    by (simp add: correction_eval)
  have a2: "cleanAnswer (Single ''  Field 12:  Paris  or Rome '') = Single ''Paris''"
    by (simp add: correction_eval)
  have a3: "cleanAnswer (Single (CHR 0xA0 # ''Field 1:'' @ [CHR 0xA0] @ ''Paris'' @ [CHR 0xA0])) = Single ''Paris''"
    by (simp add: correction_eval)
  have a4: "cleanAnswer (Many [''Field 1: Paris or Paris, France'', [], ''Field 2: Rome''])
       = Many [''Paris'', [], ''Rome'']"
    by (simp add: correction_eval)
  have a5: "cleanAnswer (Single []) = Single []"
    by (simp add: cleanAnswer_def)
  have b: "revealed \<noteq> [] \<longrightarrow>
        cleanAnswer (Single revealed) =
          Single (case splitAtFirst '' or '' (stripFieldPrefix (trim revealed)) of
                    None \<Rightarrow> stripFieldPrefix (trim revealed)
                  | Some (first, others) \<Rightarrow> trim first)"
    by (simp add: cleanAnswer_def cleanString_eq)
  have b2: "cleanAnswer (Many items) =
        Many (map (\<lambda>item. if item = [] then []
                else (case splitAtFirst '' or '' (stripFieldPrefix (trim item)) of
                        None \<Rightarrow> stripFieldPrefix (trim item)
                      | Some (first, others) \<Rightarrow> trim first)) items)"
    by (simp add: cleanAnswer_def cleanString_eq)
  have sp: "isSpace c \<longleftrightarrow> of_char c \<in> {9, 10, 11, 12, 13, 32, 160 :: nat}"
  proof -
    have eq: "c = d \<longleftrightarrow> (of_char c :: nat) = of_char d" for d by simp
    show ?thesis
      unfolding isSpace_def insert_iff empty_iff
      by (simp only: eq [of "CHR 0x09"] eq [of "CHR 0x0A"] eq [of "CHR 0x0B"] eq [of "CHR 0x0C"]
          eq [of "CHR 0x0D"] eq [of "CHR '' ''"] eq [of "CHR 0xA0"]) simp
  qed
  have tr: "(\<forall>c \<in> set before. isSpace c) \<and> (\<forall>c \<in> set after. isSpace c)
        \<and> (body = [] \<or> (\<not> isSpace (hd body) \<and> \<not> isSpace (last body))) \<longrightarrow>
        trim (before @ body @ after) = body"
    using trim_spaces [of before after body] by blast
  have c: "digits \<noteq> [] \<and> (\<forall>c \<in> set digits. isDigit c) \<and> (\<forall>c \<in> set ws. isSpace c)
        \<and> (rest = [] \<or> \<not> isSpace (hd rest)) \<longrightarrow>
        stripFieldPrefix (''Field '' @ digits @ '':'' @ ws @ rest) = rest"
    using stripFieldPrefix_match [of digits ws rest] by blast
  have c2: "\<not> startsWith ''Field '' s \<longrightarrow> stripFieldPrefix s = s"
    by (simp add: stripFieldPrefix_def)
  have d: "splitAtFirst '' or '' s = Some (first, others) \<longrightarrow>
        s = first @ '' or '' @ others
        \<and> (\<forall>pre post. s = pre @ '' or '' @ post \<longrightarrow> length first \<le> length pre)"
    using splitAtFirst_append [of "'' or ''" s first others]
      splitAtFirst_first [of "'' or ''" s first others]
    by blast
  have e: "truthyAnswer (correctionAnswer cd) \<longrightarrow>
        lastIncorrectQuestion (recordCorrection True (Some cd) st) = Some (correctionQuestion cd)
        \<and> lastCorrectAnswer (recordCorrection True (Some cd) st) = Some (cleanAnswer (correctionAnswer cd))"
    by (simp add: recordCorrection_def)
  have e2: "\<not> truthyAnswer (correctionAnswer cd) \<longrightarrow> recordCorrection True (Some cd) st = st"
    by (simp add: recordCorrection_def)
  have e3: "recordCorrection True None st = st"
    by (simp add: recordCorrection_def)
  have e4: "recordCorrection False found st = st"
    by (simp add: recordCorrection_def)
  have f: "probeContainer pg \<and> lastIncorrectQuestion st = Some q \<and> q \<noteq> []
        \<and> lastCorrectAnswer st = Some a \<and> truthyAnswer a \<longrightarrow>
        (\<exists>qd. parseQuestion st pg = Some qd
           \<and> previousCorrection qd = Some (q, Some a)
           \<and> insertQuestionText qd =
               map_option ((@) (correctionPreamble q a))
                 (insertQuestionText (qd\<lparr>previousCorrection := None\<rparr>)))"
  proof (intro impI)
    assume h: "probeContainer pg \<and> lastIncorrectQuestion st = Some q \<and> q \<noteq> []
        \<and> lastCorrectAnswer st = Some a \<and> truthyAnswer a"
    then obtain qd where qd: "parseQuestion st pg = Some qd" "previousCorrection qd = Some (q, Some a)"
      using parseQuestion_correction [of pg st q] by auto
    have "qd = qd\<lparr>previousCorrection := Some (q, Some a)\<rparr>" using qd(2) by simp
    then have "insertQuestionText qd =
        map_option ((@) (correctionPreamble q a)) (insertQuestionText (qd\<lparr>previousCorrection := None\<rparr>))"
      using insertQuestionText_preamble [of q a qd] h by simp
    then show "\<exists>qd. parseQuestion st pg = Some qd
           \<and> previousCorrection qd = Some (q, Some a)
           \<and> insertQuestionText qd =
               map_option ((@) (correctionPreamble q a))
                 (insertQuestionText (qd\<lparr>previousCorrection := None\<rparr>))"
      using qd by blast
  qed
  have s1: "sendQuestionIfReady st pg \<in> {None, parseQuestion st pg}"
    by (simp add: sendQuestionIfReady_def)
  have s2: "skipCurrentDelay st pg \<in> {None, parseQuestion st pg}"
    by (simp add: skipCurrentDelay_def)
  have g1: "lastIncorrectQuestion (apState (processChatGPTResponse reply st pg)) =
        (if \<not> topicOverview pg \<and> \<not> forcedLearning pg \<and> reply \<noteq> None \<and> probeContainer pg
         then None else lastIncorrectQuestion st)"
    by (simp add: processChatGPTResponse_def Let_def split: option.splits)
  have g2: "lastCorrectAnswer (apState (processChatGPTResponse reply st pg)) =
        (if \<not> topicOverview pg \<and> \<not> forcedLearning pg \<and> reply \<noteq> None \<and> probeContainer pg
         then None else lastCorrectAnswer st)"
    by (simp add: processChatGPTResponse_def Let_def split: option.splits)
  from a1 a2 a3 a4 a5 b b2 sp tr c c2 d e e2 e3 e4 f s1 s2 g1 g2 show ?thesis by (intro conjI)
qed

theorem correction_context_witness:
  "lastIncorrectQuestion (recordCorrection True
          (Some \<lparr>correctionQuestion = ''Capital of France?'', correctionAnswer = Single ''Field 1: Paris or Paris, France''\<rparr>)
          initialEdu) = Some ''Capital of France?''
   \<and> lastCorrectAnswer (recordCorrection True
          (Some \<lparr>correctionQuestion = ''Capital of France?'', correctionAnswer = Single ''Field 1: Paris or Paris, France''\<rparr>)
          initialEdu) = Some (Single ''Paris'')
   \<and> Option.bind (parseQuestion (recordCorrection True
          (Some \<lparr>correctionQuestion = ''Capital of France?'', correctionAnswer = Single ''Field 1: Paris or Paris, France''\<rparr>)
          initialEdu) examplePage) insertQuestionText =
       Some ''CORRECTION FROM PREVIOUS ANSWER: For the question \"Capital of France?\", your answer was incorrect. The correct answer was: \"Paris\"\<newline>\<newline>Now answer this new question:\<newline>\<newline>Type: multiple_choice\<newline>Question: Which city hosts the Louvre?\<newline>Options:\<newline>1. Paris\<newline>2. Rome\<newline>\<newline>IMPORTANT: Your answer must EXACTLY match one of the above options. Do not include numbers in your answer. If there are periods, include them.\<newline>\<newline>Please provide your answer in JSON format with keys \"answer\" and \"explanation\". Explanations should be no more than one sentence. DO NOT acknowledge the correction in your response, only answer the new question.''
   \<and> correctionPreamble ''Q'' (Many [''Paris'', ''Rome'']) =
       ''CORRECTION FROM PREVIOUS ANSWER: For the question \"Q\", your answer was incorrect. The correct answer was: [\"Paris\",\"Rome\"]\<newline>\<newline>Now answer this new question:\<newline>\<newline>''
   \<and> lastIncorrectQuestion (apState (processChatGPTResponse (Some (Single ''Paris'')) (recordCorrection True
          (Some \<lparr>correctionQuestion = ''Capital of France?'', correctionAnswer = Single ''Field 1: Paris or Paris, France''\<rparr>)
          initialEdu) examplePage)) = None
   \<and> lastCorrectAnswer (apState (processChatGPTResponse (Some (Single ''Paris'')) (recordCorrection True
          (Some \<lparr>correctionQuestion = ''Capital of France?'', correctionAnswer = Single ''Field 1: Paris or Paris, France''\<rparr>)
          initialEdu) examplePage)) = None
   \<and> stripFieldPrefix (''Field '' @ ''1'' @ '':'' @ '' '' @ ''Paris or Paris, France'') = ''Paris or Paris, France''
   \<and> splitAtFirst '' or '' ''Paris or Paris, France'' = Some (''Paris'', ''Paris, France'')
   \<and> trim ('' '' @ ''Paris'' @ [CHR 0xA0, CHR 0x0A]) = ''Paris''"
  using correction_context
    [where revealed = "''Field 1: Paris or Paris, France''"
       and items = "[''Field 1: Paris or Paris, France'']" and c = "CHR 0xA0"
       and before = "'' ''" and body = "''Paris''" and after = "[CHR 0xA0, CHR 0x0A]"
       and digits = "''1''" and ws = "'' ''" and rest = "''Paris or Paris, France''"
       and s = "''Paris or Paris, France''" and first = "''Paris''" and others = "''Paris, France''"
       and cd = "\<lparr>correctionQuestion = ''Capital of France?'', correctionAnswer = Single ''Field 1: Paris or Paris, France''\<rparr>"
       and found = None
       and pg = examplePage and reply = "Some (Single ''Paris'')"
       and q = "''Capital of France?''" and a = "Single ''Paris''"
       and st = initialEdu]
    correction_context
    [where revealed = "''Field 1: Paris or Paris, France''"
       and items = "[''Field 1: Paris or Paris, France'']" and c = "CHR 0xA0"
       and before = "'' ''" and body = "''Paris''" and after = "[CHR 0xA0, CHR 0x0A]"
       and digits = "''1''" and ws = "'' ''" and rest = "''Paris or Paris, France''"
       and s = "''Paris or Paris, France''" and first = "''Paris''" and others = "''Paris, France''"
       and cd = "\<lparr>correctionQuestion = ''Capital of France?'', correctionAnswer = Single ''Field 1: Paris or Paris, France''\<rparr>"
       and found = None
       and pg = examplePage and reply = "Some (Single ''Paris'')"
       and q = "''Capital of France?''" and a = "Single ''Paris''"
       and st = "(recordCorrection True
          (Some \<lparr>correctionQuestion = ''Capital of France?'', correctionAnswer = Single ''Field 1: Paris or Paris, France''\<rparr>)
          initialEdu)"]
  by (simp add: correction_eval)

end
